(* ===== verification/Prelude.thy ===== *)
theory Prelude
  imports Main "HOL-Library.Word"
begin

text \<open>
  What the components share: the machine integers and byte strings of the Rust sources, the
  result type in which every panic and every error return is a value, the conversions between
  byte strings and numbers (\<open>to_be_bytes\<close>, \<open>from_be_bytes\<close>, \<open>to_le_bytes\<close>), and the list,
  arithmetic and word lemmas the component theories rest on.

  Integer arithmetic follows the release profile, which the guests are built with
  (\<open>[profile.release]\<close> in \<open>src/risc0-circuits/*/guest/Cargo.toml\<close> leaves overflow checks off):
  \<open>+\<close>, \<open>-\<close> and \<open>*\<close> on \<open>u32\<close> wrap around, which is what \<open>+\<close>, \<open>-\<close> and \<open>*\<close> on \<open>32 word\<close> do.
\<close>

named_theorems res_simps \<open>evaluation of the result combinators\<close>
named_theorems byte_simps \<open>conversions between byte strings and numbers\<close>

type_synonym u8 = "8 word"
type_synonym u32 = "32 word"
type_synonym u64 = "64 word"
type_synonym i32 = "32 word"
type_synonym u128 = "128 word"
type_synonym u256 = "256 word"
type_synonym bytes = "8 word list"

subsection \<open>Results: panics and errors as values\<close>

text \<open>
  \<open>Panic\<close> is a Rust panic (a failed \<open>assert!\<close>, an \<open>expect\<close> or \<open>unwrap\<close> on nothing, an index out
  of range), \<open>Err\<close> an error value returned through \<open>Result\<close>. The string is the message of the
  source, or the name of the run-time check.
\<close>

datatype error = Panic string | Err string

type_synonym 'a result = "error + 'a"

definition rbind :: "'a result \<Rightarrow> ('a \<Rightarrow> 'b result) \<Rightarrow> 'b result" where
  "rbind m f = (case m of Inl e \<Rightarrow> Inl e | Inr x \<Rightarrow> f x)"

definition ensure :: "bool \<Rightarrow> error \<Rightarrow> unit result" where
  "ensure c e = (if c then Inr () else Inl e)"

definition expect :: "'a option \<Rightarrow> error \<Rightarrow> 'a result" where
  "expect x e = (case x of None \<Rightarrow> Inl e | Some v \<Rightarrow> Inr v)"

fun rfold :: "('a \<Rightarrow> 's \<Rightarrow> 's result) \<Rightarrow> 'a list \<Rightarrow> 's \<Rightarrow> 's result" where
  "rfold f [] s = Inr s"
| "rfold f (x # xs) s = rbind (f x s) (rfold f xs)"

fun rmap :: "('a \<Rightarrow> 'b result) \<Rightarrow> 'a list \<Rightarrow> 'b list result" where
  "rmap f [] = Inr []"
| "rmap f (x # xs) = rbind (f x) (\<lambda>y. rbind (rmap f xs) (\<lambda>ys. Inr (y # ys)))"

definition index_oob :: error where
  "index_oob = Panic ''index out of bounds''"

definition nth_checked :: "'a list \<Rightarrow> nat \<Rightarrow> 'a result" where
  "nth_checked xs i = (if i < length xs then Inr (xs ! i) else Inl index_oob)"

lemma rbind_simps [simp, res_simps]:
  "rbind (Inl e) f = Inl e"
  "rbind (Inr x) f = f x"
  by (simp_all add: rbind_def)

lemma rbind_eq_Inr [simp]: "rbind m f = Inr y \<longleftrightarrow> (\<exists>x. m = Inr x \<and> f x = Inr y)"
  by (cases m) auto

lemma rbind_eq_Inl: "rbind m f = Inl e \<longleftrightarrow> m = Inl e \<or> (\<exists>x. m = Inr x \<and> f x = Inl e)"
  by (cases m) auto

lemma rbind_assoc: "rbind (rbind m f) g = rbind m (\<lambda>x. rbind (f x) g)"
  by (cases m) auto

lemma ensure_eq_Inr [simp]: "ensure c e = Inr u \<longleftrightarrow> c"
  by (simp add: ensure_def)

lemma ensure_simps [res_simps]:
  "c \<Longrightarrow> ensure c e = Inr ()"
  "\<not> c \<Longrightarrow> ensure c e = Inl e"
  by (simp_all add: ensure_def)

lemma expect_eq_Inr [simp]: "expect x e = Inr v \<longleftrightarrow> x = Some v"
  by (cases x) (auto simp: expect_def)

lemma expect_simps [res_simps]:
  "expect None e = Inl e"
  "expect (Some v) e = Inr v"
  by (simp_all add: expect_def)

lemma nth_checked_eq_Inr [simp]: "nth_checked xs i = Inr v \<longleftrightarrow> i < length xs \<and> xs ! i = v"
  by (auto simp: nth_checked_def)

lemma rfold_append: "rfold f (xs @ ys) s = rbind (rfold f xs s) (rfold f ys)"
proof (induction xs arbitrary: s)
  case Nil
  then show ?case by simp
next
  case (Cons x xs)
  then show ?case by (cases "f x s") simp_all
qed

text \<open>A loop that keeps an invariant at every step keeps it over the whole list.\<close>

lemma rfold_invariant:
  assumes "rfold f xs s = Inr t" and "P s"
    and step: "\<And>x a b. x \<in> set xs \<Longrightarrow> P a \<Longrightarrow> f x a = Inr b \<Longrightarrow> P b"
  shows "P t"
  using assms
proof (induction xs arbitrary: s)
  case Nil
  then show ?case by simp
next
  case (Cons x xs)
  then obtain s' where s': "f x s = Inr s'" and rest: "rfold f xs s' = Inr t" by auto
  have "P s'" using Cons.prems(2,3) s' by auto
  with rest show ?case using Cons.IH Cons.prems(3) by auto
qed

lemma rfold_at:
  assumes "rfold f xs s = Inr t" "i < length xs"
  shows "\<exists>u v. rfold f (take i xs) s = Inr u \<and> f (xs ! i) u = Inr v \<and> rfold f (drop (Suc i) xs) v = Inr t"
proof -
  have "xs = take i xs @ xs ! i # drop (Suc i) xs" using assms(2) by (simp add: id_take_nth_drop)
  with assms(1) have "rfold f (take i xs @ xs ! i # drop (Suc i) xs) s = Inr t" by simp
  then show ?thesis by (auto simp: rfold_append)
qed

lemma rmap_total: "(\<And>x. x \<in> set xs \<Longrightarrow> \<exists>y. f x = Inr y) \<Longrightarrow> \<exists>ys. rmap f xs = Inr ys"
  by (induction xs) fastforce+

lemma rmap_eq_Inr_length: "rmap f xs = Inr ys \<Longrightarrow> length ys = length xs"
  by (induction xs arbitrary: ys) auto

lemma rmap_eq_Inr_nth: "rmap f xs = Inr ys \<Longrightarrow> i < length xs \<Longrightarrow> f (xs ! i) = Inr (ys ! i)"
proof (induction xs arbitrary: ys i)
  case Nil
  then show ?case by simp
next
  case (Cons x xs)
  then show ?case by (cases i) auto
qed

subsection \<open>Positions in a ring\<close>

lemma ring_pos_eq:
  fixes m n :: nat
  assumes "i \<le> j" "j < i + m" "(n + i) mod m = (n + j) mod m"
  shows "i = j"
proof -
  have "m dvd j - i" using mod_eq_dvd_iff_nat [of "n + i" "n + j" m] assms(1,3) by simp
  then have "\<not> (0 < j - i \<and> j - i < m)" using nat_dvd_not_less by blast
  with assms(1,2) show ?thesis by linarith
qed

lemma ring_pos_inj: "inj_on (\<lambda>j. (n + j) mod m) {..< m :: nat}"
proof (rule linorder_inj_onI)
  fix i j assume "i < j" "i \<in> {..< m}" "j \<in> {..< m}"
  then show "(n + i) mod m \<noteq> (n + j) mod m" using ring_pos_eq [of i j m n] by auto
qed auto

subsection \<open>Byte strings and numbers\<close>

definition be_nat :: "bytes \<Rightarrow> nat" where
  "be_nat bs = foldl (\<lambda>acc b. acc * 256 + unat b) 0 bs"

primrec nat_be :: "nat \<Rightarrow> nat \<Rightarrow> bytes" where
  "nat_be 0 n = []"
| "nat_be (Suc k) n = nat_be k (n div 256) @ [of_nat (n mod 256)]"

definition nat_le :: "nat \<Rightarrow> nat \<Rightarrow> bytes" where
  "nat_le k n = rev (nat_be k n)"

definition le_nat :: "bytes \<Rightarrow> nat" where
  "le_nat bs = be_nat (rev bs)"

lemma length_nat_be [simp]: "length (nat_be k n) = k"
  by (induction k arbitrary: n) auto

lemma nat_be_numeral: "nat_be (numeral k) n = nat_be (pred_numeral k) (n div 256) @ [of_nat (n mod 256)]"
  unfolding numeral_eq_Suc [of k] by (rule nat_be.simps(2))

lemma length_nat_le [simp]: "length (nat_le k n) = k"
  by (simp add: nat_le_def)

lemma be_nat_Nil [simp]: "be_nat [] = 0"
  by (simp add: be_nat_def)

lemma be_nat_snoc [simp]: "be_nat (bs @ [b]) = be_nat bs * 256 + unat b"
  by (simp add: be_nat_def)

lemma unat_u8_less [simp]: "unat (b :: u8) < 256"
  using unsigned_less [of b] by simp

lemma unat_of_nat_u8 [simp]: "unat (of_nat (n mod 256) :: u8) = n mod 256"
  by (simp add: unat_of_nat take_bit_eq_mod)

lemma be_nat_append: "be_nat (xs @ ys) = be_nat xs * 256 ^ length ys + be_nat ys"
proof (induction ys rule: rev_induct)
  case Nil
  then show ?case by simp
next
  case (snoc y ys)
  have "be_nat (xs @ ys @ [y]) = be_nat (xs @ ys) * 256 + unat y"
    using be_nat_snoc [of "xs @ ys" y] by simp
  with snoc show ?case by (simp add: algebra_simps)
qed

lemma be_nat_Cons: "be_nat (b # bs) = unat b * 256 ^ length bs + be_nat bs"
  using be_nat_append [of "[b]" bs] be_nat_snoc [of "[]" b] by simp

lemma be_nat_less: "be_nat bs < 256 ^ length bs"
proof (induction bs rule: rev_induct)
  case Nil
  then show ?case by simp
next
  case (snoc b bs)
  have "be_nat bs * 256 + unat b < be_nat bs * 256 + 256" by simp
  also have "\<dots> = (be_nat bs + 1) * 256" by simp
  also have "\<dots> \<le> 256 ^ length bs * 256"
    using snoc by (intro mult_le_mono1) simp
  finally show ?case by simp
qed

lemma be_nat_nat_be [byte_simps]: "be_nat (nat_be k n) = n mod 256 ^ k"
proof (induction k arbitrary: n)
  case 0
  then show ?case by simp
next
  case (Suc k)
  then show ?case
    by (simp add: mod_mult2_eq [of n 256 "256 ^ k"])
qed

lemma nat_be_be_nat [byte_simps]: "length bs = k \<Longrightarrow> nat_be k (be_nat bs) = bs"
proof (induction bs arbitrary: k rule: rev_induct)
  case Nil
  then show ?case by simp
next
  case (snoc b bs)
  then obtain m where m: "k = Suc m" "length bs = m" by (cases k) auto
  have "(be_nat bs * 256 + unat b) div 256 = be_nat bs" by simp
  moreover have "(be_nat bs * 256 + unat b) mod 256 = unat b" by simp
  ultimately show ?case using snoc.IH [OF m(2)] m by simp
qed

lemma be_nat_inject: "length xs = length ys \<Longrightarrow> be_nat xs = be_nat ys \<longleftrightarrow> xs = ys"
  by (metis nat_be_be_nat)

lemma nat_be_inject: "m < 256 ^ k \<Longrightarrow> n < 256 ^ k \<Longrightarrow> nat_be k m = nat_be k n \<longleftrightarrow> m = n"
  by (metis be_nat_nat_be mod_less)

lemma le_nat_nat_le [byte_simps]: "le_nat (nat_le k n) = n mod 256 ^ k"
  by (simp add: le_nat_def nat_le_def be_nat_nat_be)

lemma nat_le_le_nat [byte_simps]: "length bs = k \<Longrightarrow> nat_le k (le_nat bs) = bs"
  by (simp add: le_nat_def nat_le_def nat_be_be_nat)

lemma nat_le_inject: "m < 256 ^ k \<Longrightarrow> n < 256 ^ k \<Longrightarrow> nat_le k m = nat_le k n \<longleftrightarrow> m = n"
  by (simp add: nat_le_def nat_be_inject)

text \<open>The integer conversions the sources call, by width.\<close>

definition u32_to_le_bytes :: "u32 \<Rightarrow> bytes" where
  "u32_to_le_bytes w = nat_le 4 (unat w)"

definition u32_to_be_bytes :: "u32 \<Rightarrow> bytes" where
  "u32_to_be_bytes w = nat_be 4 (unat w)"

definition u32_from_be_bytes :: "bytes \<Rightarrow> u32" where
  "u32_from_be_bytes bs = of_nat (be_nat bs)"

definition u32_from_le_bytes :: "bytes \<Rightarrow> u32" where
  "u32_from_le_bytes bs = of_nat (le_nat bs)"

definition u256_to_be_bytes :: "u256 \<Rightarrow> bytes" where
  "u256_to_be_bytes w = nat_be 32 (unat w)"

definition u256_from_be_bytes :: "bytes \<Rightarrow> u256" where
  "u256_from_be_bytes bs = of_nat (be_nat bs)"

lemma length_int_bytes [simp]:
  "length (u32_to_le_bytes w) = 4"
  "length (u32_to_be_bytes w) = 4"
  "length (u256_to_be_bytes x) = 32"
  by (simp_all add: u32_to_le_bytes_def u32_to_be_bytes_def u256_to_be_bytes_def)

lemma unat_u32_less: "unat (w :: u32) < 4294967296"
  using unsigned_less [of w] by simp

lemma u32_to_le_bytes_inject [simp]: "u32_to_le_bytes v = u32_to_le_bytes w \<longleftrightarrow> v = w"
  using unat_u32_less [of v] unat_u32_less [of w]
  by (simp add: u32_to_le_bytes_def nat_le_inject word_unat_eq_iff)

lemma u32_to_be_bytes_inject [simp]: "u32_to_be_bytes v = u32_to_be_bytes w \<longleftrightarrow> v = w"
  using unat_u32_less [of v] unat_u32_less [of w]
  by (simp add: u32_to_be_bytes_def nat_be_inject word_unat_eq_iff)

lemma u32_from_to_le_bytes [byte_simps]: "u32_from_le_bytes (u32_to_le_bytes w) = w"
  using unat_u32_less [of w]
  by (simp add: u32_from_le_bytes_def u32_to_le_bytes_def le_nat_nat_le)

lemma unat_u256_less: "unat (w :: u256) < 256 ^ 32"
  using unsigned_less [of w] by (simp add: power_mult [symmetric, of 2 8 32, simplified])

lemma unat_u256_from_be_bytes [byte_simps]:
  "length bs = 32 \<Longrightarrow> unat (u256_from_be_bytes bs) = be_nat bs"
  using be_nat_less [of bs] by (simp add: u256_from_be_bytes_def unat_of_nat take_bit_eq_mod)

lemma be_nat_u256_to_be_bytes [byte_simps]: "be_nat (u256_to_be_bytes w) = unat w"
  using unat_u256_less [of w] by (simp add: u256_to_be_bytes_def be_nat_nat_be)

lemma u256_from_to_be_bytes [simp]: "u256_from_be_bytes (u256_to_be_bytes w) = w"
  by (simp add: word_unat_eq_iff unat_u256_from_be_bytes be_nat_u256_to_be_bytes)

lemma u256_to_from_be_bytes [byte_simps]:
  "length bs = 32 \<Longrightarrow> u256_to_be_bytes (u256_from_be_bytes bs) = bs"
  by (simp add: u256_to_be_bytes_def unat_u256_from_be_bytes nat_be_be_nat)

subsection \<open>Words as numbers\<close>

lemma unat_u256_of_nat: "unat (of_nat n :: u256) = n mod 2 ^ 256"
  by (simp add: unat_of_nat take_bit_eq_mod)

lemma unat_u8_of_nat: "n < 256 \<Longrightarrow> unat (of_nat n :: u8) = n"
  by (simp add: unat_of_nat take_bit_eq_mod)

lemma unat_u32_of_nat [simp]: "n < 4294967296 \<Longrightarrow> unat (of_nat n :: u32) = n"
  by (simp add: unat_of_nat take_bit_eq_mod)

lemma unat_u64_of_nat [simp]: "n < 4294967296 \<Longrightarrow> unat (of_nat n :: u64) = n"
  by (simp add: unat_of_nat take_bit_eq_mod)

lemma u32_mod2_eq_1: "(w :: u32) mod 2 = 1 \<longleftrightarrow> odd (unat w)"
  by (simp add: word_unat_eq_iff unat_mod odd_iff_mod_2_eq_one)

lemma u32_mod2_eq_0: "(w :: u32) mod 2 = 0 \<longleftrightarrow> even (unat w)"
  by (simp add: word_unat_eq_iff unat_mod even_iff_mod_2_eq_zero)

lemma u32_of_nat_div2: "n < 4294967296 \<Longrightarrow> (of_nat n :: u32) div 2 = of_nat (n div 2)"
  by (simp add: word_unat_eq_iff unat_div)

lemma u32_div2_less: "(w :: u32) mod 2 = 1 \<Longrightarrow> unat (w div 2) < unat w"
  by (cases "unat w = 0") (auto simp: u32_mod2_eq_1 unat_div)

subsection \<open>The number of significant bits\<close>

text \<open>What \<open>U256::bits\<close> counts, and what \<open>u32::leading_zeros\<close> leaves of the width.\<close>

fun bit_len :: "nat \<Rightarrow> nat" where
  "bit_len n = (if n = 0 then 0 else Suc (bit_len (n div 2)))"

declare bit_len.simps [simp del]

lemma bit_len_0 [simp]: "bit_len 0 = 0"
  by (simp add: bit_len.simps)

lemma bit_len_pos: "0 < n \<Longrightarrow> bit_len n = Suc (bit_len (n div 2))"
  by (simp add: bit_len.simps)

lemma bit_len_le: "n < 2 ^ k \<Longrightarrow> bit_len n \<le> k"
proof (induction n arbitrary: k rule: bit_len.induct)
  case (1 n)
  show ?case
  proof (cases "n = 0")
    case False
    then obtain k' where k: "k = Suc k'" using 1(2) by (cases k) auto
    have "n div 2 < 2 ^ k'" using 1(2) k by (simp add: less_mult_imp_div_less mult.commute)
    with 1(1) False k show ?thesis by (simp add: bit_len_pos)
  qed simp
qed

lemma bit_len_bounds: "0 < n \<Longrightarrow> 2 ^ (bit_len n - 1) \<le> n \<and> n < 2 ^ bit_len n"
proof (induction n rule: bit_len.induct)
  case (1 n)
  show ?case
  proof (cases "n div 2 = 0")
    case True
    with 1(2) have "n = 1" by simp
    then show ?thesis by (simp add: bit_len_pos)
  next
    case False
    define b where "b = bit_len (n div 2)"
    have "0 < b" using False by (simp add: b_def bit_len_pos)
    then obtain c where c: "b = Suc c" by (cases b) auto
    have "2 ^ c \<le> n div 2" "n div 2 < 2 * 2 ^ c"
      using 1(1) 1(2) False c by (simp_all add: b_def)
    then have "2 * 2 ^ c \<le> n" "n < 2 * (2 * 2 ^ c)" by linarith+
    with 1(2) c show ?thesis by (simp add: bit_len_pos b_def [symmetric])
  qed
qed

end
