(* ===== verification/Hashes.thy ===== *)
theory Hashes
  imports Prelude
begin

text \<open>
  The hashing helpers of \<open>src/circuits-lib/src/common/hashes.rs\<close>. SHA-256 itself is the \<open>sha2\<close>
  crate: it is the parameter \<open>sha\<close> of every definition that hashes, and what a property needs of
  it (32-byte digests, no collision among the strings that were hashed) is a hypothesis there.
\<close>

type_synonym hasher = "bytes \<Rightarrow> bytes"

definition calculate_double_sha256 :: "hasher \<Rightarrow> bytes \<Rightarrow> bytes" where
  "calculate_double_sha256 sha input = sha (sha input)"

definition calculate_sha256 :: "hasher \<Rightarrow> bytes \<Rightarrow> bytes" where
  "calculate_sha256 sha input = sha input"

definition hash_pair :: "hasher \<Rightarrow> bytes \<Rightarrow> bytes \<Rightarrow> bytes" where
  "hash_pair sha left right = sha (left @ right)"

text \<open>The documented interface of a 32-byte digest.\<close>

definition digest32 :: "hasher \<Rightarrow> bool" where
  "digest32 sha \<longleftrightarrow> (\<forall>x. length (sha x) = 32)"

lemma digest32D [simp]: "digest32 sha \<Longrightarrow> length (sha x) = 32"
  by (simp add: digest32_def)

lemma length_hashes [simp]:
  assumes "digest32 sha"
  shows "length (calculate_sha256 sha x) = 32"
    and "length (calculate_double_sha256 sha x) = 32"
    and "length (hash_pair sha l r) = 32"
  using assms by (simp_all add: calculate_sha256_def calculate_double_sha256_def hash_pair_def)

text \<open>
  On strings of equal length the concatenation determines its two halves, so a hash that is
  injective on the strings it was applied to determines the two children of a pair.
\<close>

lemma hash_pair_inj:
  assumes "inj_on sha D" "a @ b \<in> D" "c @ d \<in> D" "length a = length c"
    and "hash_pair sha a b = hash_pair sha c d"
  shows "a = c \<and> b = d"
proof -
  have "a @ b = c @ d"
    using assms(1,2,3,5) by (auto simp: hash_pair_def dest: inj_onD)
  with assms(4) show ?thesis by simp
qed

text \<open>
  Concrete digests for evaluation: \<open>zero_sha\<close> maps every string to 32 zero bytes, \<open>toy_sha\<close>
  keeps the length, the first byte and the last 30 bytes, which separates the few strings of an example.
\<close>

definition zero_sha :: hasher where
  "zero_sha x = replicate 32 0"

definition toy_sha :: hasher where
  "toy_sha x = of_nat (length x) # (case x of [] \<Rightarrow> 0 | b # _ \<Rightarrow> b) # take 30 (rev x @ replicate 30 0)"

lemma digest32_zero_sha [simp]: "digest32 zero_sha"
  by (simp add: digest32_def zero_sha_def)

lemma digest32_toy_sha [simp]: "digest32 toy_sha"
  by (auto simp: digest32_def toy_sha_def)

end
