(* ===== verification/Mmr.thy ===== *)
theory Mmr
  imports Hashes
begin

text \<open>
  The two Merkle mountain ranges of the header chain circuit: \<open>MMRGuest\<close>
  (\<open>src/circuits-lib/src/header_chain/mmr_guest.rs\<close>), which keeps only the peaks, and
  \<open>MMRNative\<close> (\<open>mmr_native.rs\<close>), which keeps every level and generates inclusion proofs.
\<close>

unbundle bit_operations_syntax

section \<open>The structures and their operations\<close>

record mmr_guest =
  subroots :: "bytes list"
  mmr_size :: u32

record mmr_native =
  nodes :: "bytes list list"

record mmr_inclusion_proof =
  subroot_idx :: nat
  internal_idx :: u32
  inclusion_proof :: "bytes list"

definition mmr_guest_new :: mmr_guest where
  "mmr_guest_new = \<lparr>subroots = [], mmr_size = 0\<rparr>"

text \<open>The \<open>while size % 2 == 1\<close> loop of \<open>MMRGuest::append\<close> followed by the final push.\<close>

function mmr_append_loop :: "hasher \<Rightarrow> bytes list \<Rightarrow> u32 \<Rightarrow> bytes \<Rightarrow> bytes list result" where
  "mmr_append_loop sha subs sz current =
     (if sz mod 2 = 1
      then (if subs = [] then Inl (Panic ''called Option::unwrap() on a None value'')
            else mmr_append_loop sha (butlast subs) (sz div 2) (hash_pair sha (last subs) current))
      else Inr (subs @ [current]))"
  by pat_completeness auto
termination
  by (relation "measure (\<lambda>(sha, subs, sz, current). unat sz)") (auto intro: u32_div2_less)

declare mmr_append_loop.simps [simp del]

definition mmr_guest_append :: "hasher \<Rightarrow> bytes \<Rightarrow> mmr_guest \<Rightarrow> mmr_guest result" where
  "mmr_guest_append sha leaf m =
     rbind (mmr_append_loop sha (subroots m) (mmr_size m) leaf)
       (\<lambda>subs. Inr (m\<lparr>subroots := subs, mmr_size := mmr_size m + 1\<rparr>))"

text \<open>
  The path replay that \<open>MMRGuest::verify_proof\<close> and \<open>MMRInclusionProof::get_subroot\<close> share;
  \<open>1 << i\<close> is a \<open>u32\<close> shift, whose amount is taken modulo 32.
\<close>

fun mmr_replay :: "hasher \<Rightarrow> u32 \<Rightarrow> nat \<Rightarrow> bytes list \<Rightarrow> bytes \<Rightarrow> bytes" where
  "mmr_replay sha idx i [] current_hash = current_hash"
| "mmr_replay sha idx i (sibling # rest) current_hash =
     mmr_replay sha idx (Suc i) rest
       (if idx AND push_bit (i mod 32) 1 = 0 then hash_pair sha current_hash sibling
        else hash_pair sha sibling current_hash)"

definition get_subroot :: "hasher \<Rightarrow> mmr_inclusion_proof \<Rightarrow> bytes \<Rightarrow> bytes" where
  "get_subroot sha p leaf = mmr_replay sha (internal_idx p) 0 (inclusion_proof p) leaf"

definition list_get :: "'a list \<Rightarrow> nat \<Rightarrow> 'a option" where
  "list_get xs i = (if i < length xs then Some (xs ! i) else None)"

definition mmr_guest_verify_proof :: "hasher \<Rightarrow> mmr_guest \<Rightarrow> bytes \<Rightarrow> mmr_inclusion_proof \<Rightarrow> bool" where
  "mmr_guest_verify_proof sha m leaf p \<longleftrightarrow>
     list_get (subroots m) (subroot_idx p) =
       Some (mmr_replay sha (internal_idx p) 0 (inclusion_proof p) leaf)"

definition mmr_native_new :: mmr_native where
  "mmr_native_new = \<lparr>nodes = [[]]\<rparr>"

function recalculate_loop :: "hasher \<Rightarrow> nat \<Rightarrow> nat \<Rightarrow> bytes list list \<Rightarrow> bytes list list result" where
  "recalculate_loop sha level stop ns =
     (if level < stop
      then rbind (nth_checked ns level) (\<lambda>lv.
        if length lv mod 2 = 1 then Inr ns
        else if length lv < 2 \<or> length ns \<le> level + 1 then Inl index_oob
        else recalculate_loop sha (level + 1) stop
               (ns[level + 1 := ns ! (level + 1) @
                    [hash_pair sha (lv ! (length lv - 2)) (lv ! (length lv - 1))]]))
      else Inr ns)"
  by pat_completeness auto
termination
  by (relation "measure (\<lambda>(sha, level, stop, ns). stop - level)") auto

declare recalculate_loop.simps [simp del]

definition recalculate_peaks :: "hasher \<Rightarrow> bytes list list \<Rightarrow> bytes list list result" where
  "recalculate_peaks sha ns =
     (let depth = length ns in
      rbind (ensure (0 < depth) index_oob) (\<lambda>_.
      rbind (recalculate_loop sha 0 (depth - 1) ns) (\<lambda>ns'.
      rbind (nth_checked ns' (depth - 1)) (\<lambda>top.
      if length top > 1 then Inr (ns' @ [[hash_pair sha (top ! 0) (top ! 1)]]) else Inr ns'))))"

definition mmr_native_append :: "hasher \<Rightarrow> bytes \<Rightarrow> mmr_native \<Rightarrow> mmr_native result" where
  "mmr_native_append sha leaf m =
     rbind (nth_checked (nodes m) 0) (\<lambda>leaves.
     rbind (recalculate_peaks sha ((nodes m)[0 := leaves @ [leaf]])) (\<lambda>ns.
     Inr (m\<lparr>nodes := ns\<rparr>)))"

definition get_subroots :: "mmr_native \<Rightarrow> bytes list" where
  "get_subroots m = rev (map last (filter (\<lambda>level. length level mod 2 = 1) (nodes m)))"

function generate_proof_loop :: "bytes list list \<Rightarrow> u32 \<Rightarrow> nat \<Rightarrow> bytes list \<Rightarrow> bytes list result" where
  "generate_proof_loop ns cur level proof =
     (if level < length ns
      then (let lv = ns ! level in
        if cur = of_nat (length lv) - 1 \<and> length lv mod 2 = 1 then Inr proof
        else (let sibling_index = (if cur mod 2 = 0 then cur + 1 else cur - 1) in
          if unat sibling_index < length lv
          then generate_proof_loop ns (cur div 2) (level + 1) (proof @ [lv ! unat sibling_index])
          else Inl index_oob))
      else Inl index_oob)"
  by pat_completeness auto
termination
  by (relation "measure (\<lambda>(ns, cur, level, proof). length ns - level)") auto

declare generate_proof_loop.simps [simp del]

text \<open>\<open>u32::leading_zeros\<close>, through the number of significant bits.\<close>

definition leading_zeros :: "u32 \<Rightarrow> nat" where
  "leading_zeros w = 32 - bit_len (unat w)"

text \<open>Index arithmetic on \<open>usize\<close>, 64 bits wide on the native target.\<close>

definition get_helpers_from_index :: "mmr_native \<Rightarrow> u32 \<Rightarrow> nat \<times> u32" where
  "get_helpers_from_index m index =
     (let len = length (nodes m ! 0);
          xor = (of_nat len :: u32) XOR index;
          xor_leading_digit = (31 - of_nat (leading_zeros xor) :: u64);
          internal_idx = index AND (push_bit (unat xor_leading_digit mod 32) 1 - 1);
          leading_zeros_size = (31 - of_nat (leading_zeros (of_nat len)) :: u64);
          subtree_idx = length (filter (\<lambda>i. bit (of_nat len :: u64) (i mod 64))
                          [unat (xor_leading_digit + 1) ..< unat leading_zeros_size + 1])
      in (subtree_idx, internal_idx))"

definition generate_proof :: "mmr_native \<Rightarrow> u32 \<Rightarrow> (bytes \<times> mmr_inclusion_proof) result" where
  "generate_proof m index =
     rbind (nth_checked (nodes m) 0) (\<lambda>leaves.
     rbind (ensure (leaves \<noteq> []) (Err ''MMR Native is empty'')) (\<lambda>_.
     rbind (ensure (unat index < length leaves) (Err ''Index out of bounds'')) (\<lambda>_.
     rbind (generate_proof_loop (nodes m) index 0 []) (\<lambda>proof.
     let (si, ii) = get_helpers_from_index m index in
     Inr (leaves ! unat index,
          \<lparr>subroot_idx = si, internal_idx = ii, inclusion_proof = proof\<rparr>)))))"

definition mmr_native_verify_proof :: "hasher \<Rightarrow> mmr_native \<Rightarrow> bytes \<Rightarrow> mmr_inclusion_proof \<Rightarrow> bool" where
  "mmr_native_verify_proof sha m leaf p \<longleftrightarrow>
     list_get (get_subroots m) (subroot_idx p) = Some (get_subroot sha p leaf)"

definition to_guest_mmr :: "mmr_native \<Rightarrow> mmr_guest result" where
  "to_guest_mmr m =
     rbind (nth_checked (nodes m) 0) (\<lambda>leaves.
     Inr \<lparr>subroots = get_subroots m, mmr_size = of_nat (length leaves)\<rparr>)"


section \<open>Specification: levels and peaks of a list of leaves\<close>

text \<open>
  \<open>pairs\<close> hashes neighbours and drops an odd last element; iterated it gives the levels of the
  forest over the leaves. A level of odd length ends in a peak; \<open>peaks\<close> lists them from the
  highest level down.
\<close>

fun pairs :: "hasher \<Rightarrow> bytes list \<Rightarrow> bytes list" where
  "pairs sha (x # y # xs) = hash_pair sha x y # pairs sha xs"
| "pairs sha _ = []"

lemma length_pairs [simp]: "length (pairs sha xs) = length xs div 2"
  by (induction sha xs rule: pairs.induct) auto

function peaks :: "hasher \<Rightarrow> bytes list \<Rightarrow> bytes list" where
  "peaks sha xs =
     (if xs = [] then []
      else peaks sha (pairs sha xs) @ (if odd (length xs) then [last xs] else []))"
  by pat_completeness auto
termination
  by (relation "measure (\<lambda>(sha, xs). length xs)") auto

declare peaks.simps [simp del]

function levels :: "hasher \<Rightarrow> bytes list \<Rightarrow> bytes list list" where
  "levels sha xs = (if length xs \<le> 1 then [xs] else xs # levels sha (pairs sha xs))"
  by pat_completeness auto
termination
  by (relation "measure (\<lambda>(sha, xs). length xs)") auto

declare levels.simps [simp del]

definition lvl :: "hasher \<Rightarrow> nat \<Rightarrow> bytes list \<Rightarrow> bytes list" where
  "lvl sha k xs = (pairs sha ^^ k) xs"

text \<open>What the two structures promise about the leaves appended so far.\<close>

definition mmr_guest_of :: "hasher \<Rightarrow> bytes list \<Rightarrow> mmr_guest \<Rightarrow> bool" where
  "mmr_guest_of sha xs m \<longleftrightarrow>
     length xs < 4294967296 \<and> subroots m = peaks sha xs \<and> mmr_size m = of_nat (length xs)"

definition mmr_native_of :: "hasher \<Rightarrow> bytes list \<Rightarrow> mmr_native \<Rightarrow> bool" where
  "mmr_native_of sha xs m \<longleftrightarrow> length xs < 4294967296 \<and> nodes m = levels sha xs"

section \<open>Lemmas on levels and peaks\<close>

lemma peaks_Nil [simp]: "peaks sha [] = []"
  by (simp add: peaks.simps)

lemma peaks_nonempty: "xs \<noteq> [] \<Longrightarrow> peaks sha xs \<noteq> []"
proof (induction sha xs rule: peaks.induct)
  case (1 sha xs)
  show ?case
  proof (cases "odd (length xs)")
    case True
    with 1 show ?thesis by (simp add: peaks.simps [of sha xs])
  next
    case False
    then have "0 < length (pairs sha xs)"
      using 1(2) by (cases xs) auto
    then have "pairs sha xs \<noteq> []" by blast
    with 1 show ?thesis by (simp add: peaks.simps [of sha xs])
  qed
qed

lemma pairs_snoc_odd:
  "odd (length xs) \<Longrightarrow> pairs sha (xs @ [x]) = pairs sha xs @ [hash_pair sha (last xs) x]"
proof (induction sha xs rule: pairs.induct)
  case (1 sha x y xs)
  then show ?case by (cases xs) auto
qed auto

lemma pairs_snoc_even: "even (length xs) \<Longrightarrow> pairs sha (xs @ [x]) = pairs sha xs"
  by (induction sha xs rule: pairs.induct) auto

lemma pairs_nth:
  "j < length xs div 2 \<Longrightarrow> pairs sha xs ! j = hash_pair sha (xs ! (2 * j)) (xs ! (2 * j + 1))"
proof (induction sha xs arbitrary: j rule: pairs.induct)
  case (1 sha x y xs)
  then show ?case by (cases j) auto
qed auto

lemma peaks_odd: "odd (length xs) \<Longrightarrow> peaks sha xs = peaks sha (pairs sha xs) @ [last xs]"
  by (subst peaks.simps) auto

lemma peaks_even: "even (length xs) \<Longrightarrow> peaks sha xs = peaks sha (pairs sha xs)"
  by (subst peaks.simps) (auto simp: peaks.simps)

lemma lvl_0 [simp]: "lvl sha 0 xs = xs"
  by (simp add: lvl_def)

lemma lvl_Suc: "lvl sha (Suc k) xs = pairs sha (lvl sha k xs)"
  by (simp add: lvl_def)

lemma lvl_pairs: "lvl sha k (pairs sha xs) = lvl sha (Suc k) xs"
  by (simp add: lvl_def funpow_swap1)

lemma length_lvl [simp]: "length (lvl sha k xs) = length xs div 2 ^ k"
  by (induction k) (simp_all add: lvl_Suc div_mult2_eq [symmetric] mult.commute)

lemma lvl_nth:
  "j < length xs div 2 ^ Suc k \<Longrightarrow>
   lvl sha (Suc k) xs ! j = hash_pair sha (lvl sha k xs ! (2 * j)) (lvl sha k xs ! (2 * j + 1))"
  by (simp add: lvl_Suc pairs_nth div_mult2_eq [symmetric] mult.commute)

section \<open>The guest range keeps the peaks\<close>

lemma mmr_append_loop_peaks:
  assumes "length xs < 4294967296"
  shows "mmr_append_loop sha (peaks sha xs) (of_nat (length xs)) x = Inr (peaks sha (xs @ [x]))"
  using assms
proof (induction sha xs arbitrary: x rule: peaks.induct)
  case (1 sha xs)
  note len = \<open>length xs < 4294967296\<close>
  show ?case
  proof (cases "odd (length xs)")
    case True
    then have ne: "xs \<noteq> []" by auto
    have small: "length (pairs sha xs) < 4294967296" using len by simp
    have "mmr_append_loop sha (peaks sha xs) (of_nat (length xs)) x =
          mmr_append_loop sha (peaks sha (pairs sha xs)) (of_nat (length (pairs sha xs)))
            (hash_pair sha (last xs) x)"
      using True ne len
      by (subst mmr_append_loop.simps) (simp add: u32_mod2_eq_1 u32_of_nat_div2 peaks_odd)
    also have "\<dots> = Inr (peaks sha (pairs sha xs @ [hash_pair sha (last xs) x]))"
      by (rule 1(1) [OF ne small])
    also have "\<dots> = Inr (peaks sha (xs @ [x]))"
      using True by (simp add: peaks_even [of "xs @ [x]"] pairs_snoc_odd)
    finally show ?thesis .
  next
    case False
    then show ?thesis
      using len
      by (subst mmr_append_loop.simps)
        (simp add: u32_mod2_eq_1 peaks_odd [of "xs @ [x]"] pairs_snoc_even peaks_even)
  qed
qed

lemma mmr_guest_append_of:
  assumes "mmr_guest_of sha xs m" "length xs + 1 < 4294967296"
  shows "\<exists>m'. mmr_guest_append sha x m = Inr m' \<and> mmr_guest_of sha (xs @ [x]) m'"
  using assms by (simp add: mmr_guest_append_def mmr_guest_of_def mmr_append_loop_peaks)

lemma mmr_guest_new_of: "mmr_guest_of sha [] mmr_guest_new"
  by (simp add: mmr_guest_of_def mmr_guest_new_def)

section \<open>The native range keeps every level\<close>

lemma levels_ne [simp]: "levels sha xs \<noteq> []"
  by (subst levels.simps) simp

lemma levels_hd: "levels sha xs ! 0 = xs"
  by (subst levels.simps) simp


lemma levels_rec: "2 \<le> length xs \<Longrightarrow> levels sha xs = xs # levels sha (pairs sha xs)"
  by (subst levels.simps) simp

lemma levels_short: "length xs \<le> 1 \<Longrightarrow> levels sha xs = [xs]"
  by (subst levels.simps) simp

lemma last_levels: "length (last (levels sha xs)) \<le> 1"
proof (induction sha xs rule: levels.induct)
  case (1 sha xs)
  then show ?case by (subst levels.simps) auto
qed

lemma levels_nth: "k < length (levels sha xs) \<Longrightarrow> levels sha xs ! k = lvl sha k xs"
proof (induction sha xs arbitrary: k rule: levels.induct)
  case (1 sha xs)
  show ?case
  proof (cases k)
    case 0
    then show ?thesis by (simp add: levels_hd)
  next
    case (Suc k')
    with 1(2) have long: "2 \<le> length xs"
      by (cases "length xs \<le> 1") (auto simp: levels_short)
    with Suc 1 show ?thesis by (simp add: levels_rec lvl_pairs)
  qed
qed

text \<open>The final step of \<open>recalculate_peaks\<close>, after the loop.\<close>

definition grow_top :: "hasher \<Rightarrow> nat \<Rightarrow> bytes list list \<Rightarrow> bytes list list result" where
  "grow_top sha t ns' =
     rbind (nth_checked ns' t) (\<lambda>top.
       if length top > 1 then Inr (ns' @ [[hash_pair sha (top ! 0) (top ! 1)]]) else Inr ns')"

lemma recalculate_loop_levels:
  "rbind (recalculate_loop sha (length pre) (length pre + length (levels sha ys) - 1)
            (pre @ (ys @ [y]) # tl (levels sha ys)))
     (grow_top sha (length pre + length (levels sha ys) - 1))
   = Inr (pre @ levels sha (ys @ [y]))"
proof (induction sha ys arbitrary: pre y rule: levels.induct)
  case (1 sha ys)
  consider (short) "length ys \<le> 1" | (even) "2 \<le> length ys" "even (length ys)"
    | (odd) "2 \<le> length ys" "odd (length ys)" by linarith
  then show ?case
  proof cases
    case short
    then show ?thesis
      by (cases ys)
        (auto simp: levels_short levels_rec recalculate_loop.simps grow_top_def nth_append)
  next
    case even
    let ?rest = "levels sha (pairs sha ys)"
    have ys: "levels sha ys = ys # ?rest" and ysy: "levels sha (ys @ [y]) = (ys @ [y]) # ?rest"
      using even by (simp_all add: levels_rec [of ys] levels_rec [of "ys @ [y]"] pairs_snoc_even)
    obtain a rest where rest: "?rest = rest @ [a]" by (cases ?rest rule: rev_cases) auto
    then have top: "length a \<le> 1"
      using last_levels [of sha "pairs sha ys"] by simp
    have par: "Suc (length ys) mod 2 = 1" using even by presburger
    have "recalculate_loop sha (length pre) (length pre + length (levels sha ys) - 1)
            (pre @ (ys @ [y]) # tl (levels sha ys)) = Inr (pre @ (ys @ [y]) # rest @ [a])"
      unfolding ys rest using even par
      by (subst recalculate_loop.simps) (simp add: nth_append nth_checked_def)
    with top show ?thesis
      by (simp add: ys ysy rest grow_top_def nth_append nth_checked_def)
  next
    case odd
    let ?rest = "levels sha (pairs sha ys)"
    let ?up = "pairs sha ys @ [hash_pair sha (last ys) y]"
    have ys: "levels sha ys = ys # ?rest" and ysy: "levels sha (ys @ [y]) = (ys @ [y]) # levels sha ?up"
      using odd by (simp_all add: levels_rec [of ys] levels_rec [of "ys @ [y]"] pairs_snoc_odd)
    obtain rest where rest: "?rest = pairs sha ys # rest"
      using levels_hd [of sha "pairs sha ys"] by (cases ?rest) auto
    have par: "Suc (length ys) mod 2 = 0" using odd by presburger
    have ne: "ys \<noteq> []" using odd by auto
    then have idx: "ys ! (length ys - Suc 0) = last ys" by (simp add: last_conv_nth)
    have "recalculate_loop sha (length pre) (length pre + length (levels sha ys) - 1)
            (pre @ (ys @ [y]) # tl (levels sha ys)) =
          recalculate_loop sha (length (pre @ [ys @ [y]]))
            (length (pre @ [ys @ [y]]) + length ?rest - 1)
            ((pre @ [ys @ [y]]) @ ?up # tl ?rest)"
      unfolding ys rest using odd par
      by (subst recalculate_loop.simps)
        (simp add: nth_append nth_checked_def list_update_append ne idx)
    moreover have "\<not> length ys \<le> 1" using odd by simp
    note 1 [OF this, of "pre @ [ys @ [y]]" "hash_pair sha (last ys) y"]
    ultimately show ?thesis by (simp add: ys ysy)
  qed
qed

lemma recalculate_peaks_levels:
  "recalculate_peaks sha ((levels sha xs)[0 := xs @ [x]]) = Inr (levels sha (xs @ [x]))"
proof -
  have "(levels sha xs)[0 := xs @ [x]] = (xs @ [x]) # tl (levels sha xs)"
    by (cases "levels sha xs") auto
  then show ?thesis
    using recalculate_loop_levels [of sha "[]" xs x]
    by (simp add: recalculate_peaks_def grow_top_def [abs_def] Let_def)
qed

lemma mmr_native_append_of:
  assumes "mmr_native_of sha xs m" "length xs + 1 < 4294967296"
  shows "\<exists>m'. mmr_native_append sha x m = Inr m' \<and> mmr_native_of sha (xs @ [x]) m'"
  using assms
  by (simp add: mmr_native_append_def mmr_native_of_def nth_checked_def levels_hd
      recalculate_peaks_levels)

lemma mmr_native_new_of: "mmr_native_of sha [] mmr_native_new"
  by (simp add: mmr_native_of_def mmr_native_new_def levels_short)

lemma get_subroots_levels: "nodes m = levels sha xs \<Longrightarrow> get_subroots m = peaks sha xs"
proof -
  have "rev (map last (filter (\<lambda>lv. length lv mod 2 = 1) (levels sha xs))) = peaks sha xs"
  proof (induction sha xs rule: levels.induct)
    case (1 sha xs)
    show ?case
    proof (cases "length xs \<le> 1")
      case True
      then show ?thesis
        by (cases xs) (auto simp: levels_short peaks.simps)
    next
      case False
      with 1 show ?thesis
        by (cases "odd (length xs)")
          (auto simp: levels_rec peaks_odd peaks_even odd_iff_mod_2_eq_one)
    qed
  qed
  then show "nodes m = levels sha xs \<Longrightarrow> get_subroots m = peaks sha xs"
    by (simp add: get_subroots_def)
qed

section \<open>The interface of an append-only range\<close>

text \<open>
  What the header chain circuit and the provers rely on: a range that represents a list of
  leaves, starts empty, and on every append represents the list with the leaf at its end, as
  long as the \<open>u32\<close> leaf count does not wrap.
\<close>

locale append_only =
  fixes of_leaves :: "bytes list \<Rightarrow> 'm \<Rightarrow> bool"
    and new :: 'm
    and append :: "bytes \<Rightarrow> 'm \<Rightarrow> 'm result"
  assumes new_of: "of_leaves [] new"
    and append_of: "of_leaves xs m \<Longrightarrow> length xs + 1 < 4294967296 \<Longrightarrow>
      \<exists>m'. append x m = Inr m' \<and> of_leaves (xs @ [x]) m'"
begin

lemma append_leaves:
  "of_leaves xs m \<Longrightarrow> append x m = Inr m' \<Longrightarrow> length xs + 1 < 4294967296 \<Longrightarrow>
   of_leaves (xs @ [x]) m'"
  using append_of [of xs m x] by auto

lemma append_list:
  "of_leaves xs m \<Longrightarrow> length xs + length ys < 4294967296 \<Longrightarrow>
   \<exists>m'. rfold append ys m = Inr m' \<and> of_leaves (xs @ ys) m'"
proof (induction ys arbitrary: xs m)
  case Nil
  then show ?case by simp
next
  case (Cons y ys)
  obtain m1 where m1: "append y m = Inr m1" "of_leaves (xs @ [y]) m1"
    using append_of [OF Cons.prems(1), of y] Cons.prems(2) by auto
  then obtain m' where "rfold append ys m1 = Inr m'" "of_leaves ((xs @ [y]) @ ys) m'"
    using Cons.IH [OF m1(2)] Cons.prems(2) by auto
  with m1 show ?case by simp
qed

lemma build:
  "length ys < 4294967296 \<Longrightarrow> \<exists>m. rfold append ys new = Inr m \<and> of_leaves ys m"
  using append_list [OF new_of, of ys] by simp

end

interpretation guest_range: append_only "mmr_guest_of sha" mmr_guest_new "mmr_guest_append sha" for sha
  by unfold_locales (auto simp: mmr_guest_new_of intro: mmr_guest_append_of)

interpretation native_range: append_only "mmr_native_of sha" mmr_native_new "mmr_native_append sha" for sha
  by unfold_locales (auto simp: mmr_native_new_of intro: mmr_native_append_of)

lemma to_guest_mmr_of:
  assumes "mmr_native_of sha xs n"
  shows "\<exists>g. to_guest_mmr n = Inr g \<and> mmr_guest_of sha xs g"
  using assms
  by (simp add: to_guest_mmr_def mmr_native_of_def mmr_guest_of_def nth_checked_def levels_hd
      get_subroots_levels)

lemma mmr_guest_of_unique: "mmr_guest_of sha xs g \<Longrightarrow> mmr_guest_of sha xs h \<Longrightarrow> g = h"
  by (simp add: mmr_guest_of_def)

end
