(* ===== verification/Pow.thy ===== *)
theory Pow
  imports Prelude
begin

text \<open>
  The proof-of-work arithmetic of \<open>src/circuits-lib/src/header_chain/mod.rs\<close>: network constants,
  compact targets, difficulty adjustment, work, the hash check and the median time. \<open>U256\<close> of the
  \<open>crypto-bigint\<close> crate is the type of 256-bit words: its \<open>wrapping_*\<close> operations are the word
  operations, and a left shift by 256 or more gives zero.
\<close>

unbundle bit_operations_syntax

section \<open>Networks\<close>

text \<open>
  The build-time variable \<open>BITCOIN_NETWORK\<close> selects one network for a whole build; an unsupported
  value fails the build.
\<close>

datatype network = Mainnet | Testnet4 | Signet | Regtest

definition get_network :: "string option \<Rightarrow> network result" where
  "get_network env =
     (case env of
        None \<Rightarrow> Inr Mainnet
      | Some n \<Rightarrow>
          if n = ''mainnet'' then Inr Mainnet
          else if n = ''testnet4'' then Inr Testnet4
          else if n = ''signet'' then Inr Signet
          else if n = ''regtest'' then Inr Regtest
          else Inl (Panic ''Invalid network type''))"

record network_constants =
  max_bits :: u32
  max_target :: u256
  max_target_bytes :: bytes

definition NETWORK_CONSTANTS :: "network \<Rightarrow> network_constants" where
  "NETWORK_CONSTANTS net =
     (case net of
        Signet \<Rightarrow> \<lparr>max_bits = 0x1E0377AE,
          max_target = 0x00000377AE000000000000000000000000000000000000000000000000000000,
          max_target_bytes = [0, 0, 3, 119, 174, 0, 0, 0, 0, 0, 0, 0, 0, 0, 0, 0,
                              0, 0, 0, 0, 0, 0, 0, 0, 0, 0, 0, 0, 0, 0, 0, 0]\<rparr>
      | Regtest \<Rightarrow> \<lparr>max_bits = 0x207FFFFF,
          max_target = 0x7FFFFF0000000000000000000000000000000000000000000000000000000000,
          max_target_bytes = [127, 255, 255, 0, 0, 0, 0, 0, 0, 0, 0, 0, 0, 0, 0, 0,
                              0, 0, 0, 0, 0, 0, 0, 0, 0, 0, 0, 0, 0, 0, 0, 0]\<rparr>
      | Testnet4 \<Rightarrow> \<lparr>max_bits = 0x1D00FFFF,
          max_target = 0x00000000FFFF0000000000000000000000000000000000000000000000000000,
          max_target_bytes = [0, 0, 0, 0, 255, 255, 0, 0, 0, 0, 0, 0, 0, 0, 0, 0,
                              0, 0, 0, 0, 0, 0, 0, 0, 0, 0, 0, 0, 0, 0, 0, 0]\<rparr>
      | Mainnet \<Rightarrow> \<lparr>max_bits = 0x1D00FFFF,
          max_target = 0x00000000FFFF0000000000000000000000000000000000000000000000000000,
          max_target_bytes = [0, 0, 0, 0, 255, 255, 0, 0, 0, 0, 0, 0, 0, 0, 0, 0,
                              0, 0, 0, 0, 0, 0, 0, 0, 0, 0, 0, 0, 0, 0, 0, 0]\<rparr>)"

definition IS_REGTEST :: "network \<Rightarrow> bool" where
  "IS_REGTEST net \<longleftrightarrow> net = Regtest"

definition IS_TESTNET4 :: "network \<Rightarrow> bool" where
  "IS_TESTNET4 net \<longleftrightarrow> net = Testnet4"

definition MINIMUM_WORK_TESTNET :: u256 where
  "MINIMUM_WORK_TESTNET = 0x0000000000000000000000000000000000000000000000000000000100010001"

definition EXPECTED_EPOCH_TIMESPAN :: "network \<Rightarrow> u32" where
  "EXPECTED_EPOCH_TIMESPAN net = (if net = Signet then 60 * 24 * 14 else 60 * 60 * 24 * 14)"

definition BLOCKS_PER_EPOCH :: u32 where
  "BLOCKS_PER_EPOCH = 2016"

section \<open>Times, targets and work\<close>

definition median :: "u32 list \<Rightarrow> u32" where
  "median arr = sort arr ! 5"

definition validate_timestamp :: "u32 \<Rightarrow> u32 list \<Rightarrow> bool" where
  "validate_timestamp block_time prev_11 \<longleftrightarrow> median prev_11 < block_time"

definition bits_to_target :: "u32 \<Rightarrow> bytes" where
  "bits_to_target bits =
     (let size = unat (drop_bit 24 bits); mantissa = bits AND 0x00ffffff in
      if 0x7FFFFF < mantissa then replicate 32 0
      else u256_to_be_bytes
             (if size \<le> 3 then ucast (drop_bit (8 * (3 - size)) mantissa)
              else push_bit (8 * (size - 3)) (ucast mantissa)))"

text \<open>
  \<open>size - 1\<close> is \<open>usize\<close> arithmetic: for \<open>size = 0\<close> it wraps to the largest index, which is out of
  bounds. A target below \<open>2 ^ 15\<close> makes \<open>target[size + 1]\<close> panic.
\<close>

definition target_to_bits :: "bytes \<Rightarrow> u32 result" where
  "target_to_bits target =
     (let target_bits = bit_len (unat (u256_from_be_bytes target));
          size = (263 - target_bits) div 8 in
      rbind (if size = 0 then Inl index_oob else nth_checked target (size - 1)) (\<lambda>b1.
      rbind (nth_checked target size) (\<lambda>b2.
      rbind (nth_checked target (size + 1)) (\<lambda>b3.
      Inr (u32_from_be_bytes [33 - of_nat size, b1, b2, b3])))))"

definition calculate_new_difficulty :: "network \<Rightarrow> u32 \<Rightarrow> u32 \<Rightarrow> u32 \<Rightarrow> bytes" where
  "calculate_new_difficulty net epoch_start last_timestamp current_target =
     (let span = last_timestamp - epoch_start;
          actual_timespan =
            (if span < EXPECTED_EPOCH_TIMESPAN net div 4 then EXPECTED_EPOCH_TIMESPAN net div 4
             else if EXPECTED_EPOCH_TIMESPAN net * 4 < span then EXPECTED_EPOCH_TIMESPAN net * 4
             else span);
          new_target = u256_from_be_bytes (bits_to_target current_target)
                         * ucast actual_timespan div ucast (EXPECTED_EPOCH_TIMESPAN net)
      in u256_to_be_bytes
           (if max_target (NETWORK_CONSTANTS net) < new_target
            then max_target (NETWORK_CONSTANTS net) else new_target))"

fun check_hash_loop :: "bytes \<Rightarrow> bytes \<Rightarrow> nat list \<Rightarrow> unit result" where
  "check_hash_loop hash target [] = Inr ()"
| "check_hash_loop hash target (i # is) =
     (if hash ! (31 - i) < target ! i then Inr ()
      else if target ! i < hash ! (31 - i) then Inl (Panic ''Hash is not valid'')
      else check_hash_loop hash target is)"

definition check_hash_valid :: "bytes \<Rightarrow> bytes \<Rightarrow> unit result" where
  "check_hash_valid hash target_bytes = check_hash_loop hash target_bytes [0 ..< 32]"

definition calculate_work :: "bytes \<Rightarrow> u256" where
  "calculate_work target_bytes =
     (let target = u256_from_be_bytes target_bytes in
      if target = 0 then - 1
      else if target = 1 then - 1
      else if target = - 1 then 1
      else NOT target div (target + 1) + 1)"

section \<open>The hash check compares numbers\<close>

lemma check_hash_loop_compare:
  assumes "length h = 32" "length t = 32" "k \<le> 32"
  shows "check_hash_loop h t [k ..< 32] =
           (if be_nat (drop k (rev h)) \<le> be_nat (drop k t) then Inr () else Inl (Panic ''Hash is not valid''))"
  using assms(3)
proof (induction "32 - k" arbitrary: k)
  case 0
  then show ?case using assms(1,2) by simp
next
  case (Suc n)
  then have k: "k < 32" and n: "n = 32 - Suc k" "Suc k \<le> 32" by auto
  let ?x = "h ! (31 - k)" and ?y = "t ! k"
  let ?X = "be_nat (drop (Suc k) (rev h))" and ?Y = "be_nat (drop (Suc k) t)"
  have "rev h ! k = ?x" using k assms(1) by (simp add: rev_nth)
  then have "drop k (rev h) = ?x # drop (Suc k) (rev h)" "drop k t = ?y # drop (Suc k) t"
    using k assms(1,2) Cons_nth_drop_Suc [of k "rev h"] Cons_nth_drop_Suc [of k t] by simp_all
  then have eqs: "be_nat (drop k (rev h)) = unat ?x * 256 ^ (31 - k) + ?X"
      "be_nat (drop k t) = unat ?y * 256 ^ (31 - k) + ?Y"
    using assms(1,2) by (simp_all add: be_nat_Cons)
  have bounds: "?X < 256 ^ (31 - k)" "?Y < 256 ^ (31 - k)"
    using be_nat_less [of "drop (Suc k) (rev h)"] be_nat_less [of "drop (Suc k) t"] assms(1,2) by simp_all
  have lt: "a * B + X < b * B + Y" if "a < b" "X < B" for a b X Y B :: nat
  proof -
    have "(a + 1) * B \<le> b * B" using that(1) by (intro mult_le_mono1) simp
    with that(2) show ?thesis by simp
  qed
  have up: "[k ..< 32] = k # [Suc k ..< 32]" using k by (simp add: upt_conv_Cons)
  consider (less) "?x < ?y" | (greater) "?y < ?x" | (equal) "?x = ?y" by fastforce
  then show ?case
  proof cases
    case less
    then have "be_nat (drop k (rev h)) < be_nat (drop k t)"
      unfolding eqs using bounds(1) by (intro lt) (simp_all add: word_less_nat_alt)
    with less show ?thesis by (simp add: up)
  next
    case greater
    then have "be_nat (drop k t) < be_nat (drop k (rev h))"
      unfolding eqs using bounds(2) by (intro lt) (simp_all add: word_less_nat_alt)
    with greater show ?thesis by (simp add: up)
  next
    case equal
    with Suc.hyps(1) [OF n] show ?thesis by (simp add: up eqs)
  qed
qed

lemma check_hash_valid_compare:
  "length hash = 32 \<Longrightarrow> length target = 32 \<Longrightarrow>
   check_hash_valid hash target =
     (if le_nat hash \<le> be_nat target then Inr () else Inl (Panic ''Hash is not valid''))"
  using check_hash_loop_compare [of hash target 0] by (simp add: check_hash_valid_def le_nat_def)

section \<open>Work\<close>

lemma two_256_div:
  fixes x :: nat
  assumes "x < 2 ^ 256"
  shows "2 ^ 256 div (x + 1) = (2 ^ 256 - 1 - x) div (x + 1) + 1"
proof -
  have "(2 ^ 256 :: nat) = (2 ^ 256 - 1 - x) + (x + 1)" using assms by simp
  then have "2 ^ 256 div (x + 1) = ((2 ^ 256 - 1 - x) + (x + 1)) div (x + 1)" by simp
  then show ?thesis using div_add_self2 [of "x + 1" "2 ^ 256 - 1 - x"] by simp
qed

lemma unat_calculate_work:
  assumes "length target = 32"
  shows "unat (calculate_work target) =
           (if be_nat target \<le> 1 then 2 ^ 256 - 1 else 2 ^ 256 div (be_nat target + 1))"
proof -
  define t where "t = u256_from_be_bytes target"
  have x: "unat t = be_nat target" using assms by (simp add: t_def unat_u256_from_be_bytes)
  have x_less: "unat t < 2 ^ 256" using unsigned_less [of t] by simp
  have small: "t = 0 \<or> t = 1 \<longleftrightarrow> be_nat target \<le> 1"
    by (auto simp: word_unat_eq_iff x)
  have max: "unat (- 1 :: u256) = 2 ^ 256 - 1" by (simp add: unsigned_minus_1_eq_mask mask_eq_exp_minus_1)
  show ?thesis
  proof (cases "t = 0 \<or> t = 1 \<or> t = - 1")
    case True
    then show ?thesis
      using small max x
      by (auto simp: calculate_work_def t_def [symmetric] Let_def)
  next
    case False
    then have le: "unat t + 1 < 2 ^ 256"
      using x_less max by (metis add.commute less_SucE plus_1_eq_Suc word_unat_eq_iff
          Suc_lessI diff_Suc_1 diff_Suc_eq_diff_pred)
    have "NOT t = - 1 - t" by (simp add: not_eq_complement)
    then have "unat (NOT t) = 2 ^ 256 - 1 - unat t" using max by (simp add: unat_sub)
    moreover have "unat (t + 1) = unat t + 1" using le by (simp add: unat_word_ariths)
    moreover have "(2 ^ 256 - 1 - unat t) div (unat t + 1) + 1 < 2 ^ 256"
    proof -
      have "0 < unat t" using False by (simp add: word_unat_eq_iff)
      moreover have "(2 ^ 256 - 1 - unat t) div (unat t + 1) \<le> 2 ^ 256 - 1 - unat t"
        by (rule div_le_dividend)
      ultimately show ?thesis using x_less by linarith
    qed
    ultimately show ?thesis
      using False small two_256_div [OF x_less] x
      by (simp add: calculate_work_def t_def [symmetric] Let_def unat_word_ariths unat_div)
  qed
qed

section \<open>Compact targets\<close>

lemma length_bits_to_target [simp]: "length (bits_to_target bits) = 32"
  by (simp add: bits_to_target_def Let_def)

lemma be_nat_replicate_0 [simp]: "be_nat (replicate n 0) = 0"
  by (induction n) (simp_all add: be_nat_Cons)

definition compact_value :: "nat \<Rightarrow> nat \<Rightarrow> nat" where
  "compact_value sz mantissa =
     (if 0x7FFFFF < mantissa then 0
      else if sz \<le> 3 then mantissa div 256 ^ (3 - sz)
      else mantissa * 256 ^ (sz - 3) mod 2 ^ 256)"

lemma be_nat_bits_to_target:
  "be_nat (bits_to_target bits) = compact_value (unat bits div 2 ^ 24) (unat bits mod 2 ^ 24)"
proof -
  have size: "unat (drop_bit 24 bits) = unat bits div 2 ^ 24"
    by (simp add: drop_bit_eq_div unat_div)
  have "bits AND 0xffffff = take_bit 24 bits" by (simp add: take_bit_eq_mask mask_eq_exp_minus_1)
  then have mant: "unat (bits AND 0xffffff) = unat bits mod 2 ^ 24"
    by (simp add: take_bit_eq_mod unat_mod)
  have p: "(2 :: nat) ^ (8 * j) = 256 ^ j" for j by (simp add: power_mult)
  have uc: "unat (ucast (w :: u32) :: u256) = unat w" for w
    using unat_u32_less [of w] by (simp add: unsigned_ucast_eq take_bit_nat_eq_self)
  have dr: "unat (drop_bit n w) = unat w div 2 ^ n" for n and w :: u32
  proof -
    have "unat (drop_bit n w) = drop_bit n (take_bit 32 (unat w))" by (simp only: unsigned_drop_bit_eq) simp
    also have "take_bit 32 (unat w) = unat w" using unat_u32_less [of w] by (simp add: take_bit_nat_eq_self)
    finally show ?thesis by (simp only: drop_bit_eq_div)
  qed
  have pu: "unat (push_bit n (w :: u256)) = unat w * 2 ^ n mod 2 ^ 256" for n w
  proof -
    have "unat (push_bit n w) = take_bit 256 (push_bit n (unat w))" by (simp only: unsigned_push_bit_eq) simp
    then show ?thesis by (simp only: push_bit_eq_mult take_bit_eq_mod)
  qed
  show ?thesis
    unfolding bits_to_target_def Let_def compact_value_def size mant [symmetric]
    by (simp only: if_distrib [of be_nat] be_nat_u256_to_be_bytes be_nat_replicate_0 dr pu uc p
        word_less_nat_alt if_distrib [of unat]) simp
qed

lemma bit_len_eqI: "2 ^ b \<le> n \<Longrightarrow> n < 2 ^ Suc b \<Longrightarrow> bit_len n = Suc b"
proof -
  assume n: "2 ^ b \<le> n" "n < 2 ^ Suc b"
  then have "0 < n" by (meson less_le_trans zero_less_numeral zero_less_power)
  from bit_len_bounds [OF this] n have "(2 :: nat) ^ b < 2 ^ bit_len n" "(2 :: nat) ^ (bit_len n - 1) < 2 ^ Suc b"
    by (meson le_less_trans)+
  then have "b < bit_len n" "bit_len n - 1 < Suc b"
    using power_less_imp_less_exp [of "2 :: nat"] by (metis one_less_numeral_iff semiring_norm(76))+
  then show ?thesis by simp
qed

text \<open>Three consecutive bytes of a big-endian number.\<close>

lemma be_nat_slice3:
  assumes "length t = n" "i + 2 < n"
  shows "be_nat [t ! i, t ! (i + 1), t ! (i + 2)] = be_nat t div 256 ^ (n - i - 3) mod 256 ^ 3"
proof -
  let ?w = "[t ! i, t ! (i + 1), t ! (i + 2)]"
  have "drop i t = ?w @ drop (i + 3) t"
    using assms by (simp add: Cons_nth_drop_Suc [symmetric] numeral_3_eq_3)
  then have t: "t = take i t @ ?w @ drop (i + 3) t" using append_take_drop_id [of i t] by simp
  have len: "length (drop (i + 3) t) = n - i - 3" using assms by simp
  have "be_nat t = (be_nat (take i t) * 256 ^ 3 + be_nat ?w) * 256 ^ (n - i - 3) + be_nat (drop (i + 3) t)"
    using arg_cong [OF t, of be_nat] be_nat_append [of "take i t" "?w @ drop (i + 3) t"]
      be_nat_append [of ?w "drop (i + 3) t"] len by (simp add: algebra_simps power_add)
  moreover have "be_nat (drop (i + 3) t) < 256 ^ (n - i - 3)"
    using be_nat_less [of "drop (i + 3) t"] len by simp
  ultimately have "be_nat t div 256 ^ (n - i - 3) = be_nat (take i t) * 256 ^ 3 + be_nat ?w"
    by simp
  moreover have "be_nat ?w < 256 ^ 3" using be_nat_less [of ?w] by simp
  ultimately show ?thesis by simp
qed

lemma target_to_bits_value:
  assumes "length t = 32" "2 ^ 15 \<le> be_nat t" "be_nat t < 2 ^ 255"
    and k: "k = bit_len (be_nat t) div 8"
  shows "2 \<le> k \<and> k \<le> 31 \<and> 2 ^ (8 * k - 1) \<le> be_nat t \<and> be_nat t div 256 ^ (k - 2) < 2 ^ 23 \<and>
         target_to_bits t = Inr (of_nat ((k + 1) * 2 ^ 24 + be_nat t div 256 ^ (k - 2)))"
proof -
  let ?T = "be_nat t" and ?b = "bit_len (be_nat t)"
  have pos: "0 < ?T" using assms(2) by simp
  note bb = bit_len_bounds [OF pos]
  have "(2 :: nat) ^ 15 < 2 ^ ?b" using assms(2) bb by linarith
  then have b16: "16 \<le> ?b" by (simp add: power_strict_increasing_iff del: power_numeral)
  have b255: "?b \<le> 255" using bit_len_le [OF assms(3)] .
  from b16 b255 k have k2: "2 \<le> k" "k \<le> 31" by auto
  have "8 * k \<le> ?b" "?b \<le> 8 * k + 7" using k by auto
  then have "(2 :: nat) ^ (8 * k - 1) \<le> 2 ^ (?b - 1)" "(2 :: nat) ^ ?b \<le> 2 ^ (8 * k + 7)"
    by (auto intro: power_increasing)
  with bb have lo: "2 ^ (8 * k - 1) \<le> ?T" and hi: "?T < 2 ^ (8 * k + 7)"
    by linarith+
  have "(2 :: nat) ^ (8 * k + 7) = 2 ^ 23 * 256 ^ (k - 2)"
  proof -
    have "8 * k + 7 = 23 + 8 * (k - 2)" using k2 by simp
    then show ?thesis by (simp add: power_add power_mult)
  qed
  then have m: "?T div 256 ^ (k - 2) < 2 ^ 23"
    using hi by (simp add: less_mult_imp_div_less)
  obtain r where r: "?b = 8 * k + r" "r < 8"
    using k by (metis mod_less_divisor mult_div_mod_eq zero_less_numeral)
  then have "263 - ?b = 8 * (32 - k) + (7 - r)" using k2 by simp
  then have size: "(263 - ?b) div 8 = 32 - k" using r(2) by simp
  have sl: "be_nat [t ! (31 - k), t ! (32 - k), t ! (33 - k)] = ?T div 256 ^ (k - 2)"
  proof -
    have "31 - k + 1 = 32 - k" "31 - k + 2 = 33 - k" "32 - (31 - k) - 3 = k - 2" "31 - k + 2 < 32"
      using k2 by linarith+
    with be_nat_slice3 [OF assms(1), of "31 - k"] m show ?thesis by simp
  qed
  have top: "unat (33 - of_nat (32 - k) :: u8) = k + 1"
  proof -
    have "(33 - of_nat (32 - k) :: u8) = of_nat (k + 1)" using k2 by (simp add: of_nat_diff)
    then show ?thesis using k2 unat_u8_of_nat [of "k + 1"] by simp
  qed
  have "be_nat [33 - of_nat (32 - k), t ! (31 - k), t ! (32 - k), t ! (33 - k)] =
          (k + 1) * 2 ^ 24 + ?T div 256 ^ (k - 2)"
    using be_nat_Cons [of "33 - of_nat (32 - k)" "[t ! (31 - k), t ! (32 - k), t ! (33 - k)]"] top sl
    by simp
  then have "target_to_bits t = Inr (of_nat ((k + 1) * 2 ^ 24 + ?T div 256 ^ (k - 2)))"
  proof -
    have "32 - k \<noteq> 0" "32 - k - 1 = 31 - k" "32 - k + 1 = 33 - k"
        "31 - k < 32" "32 - k < 32" "33 - k < 32"
      using k2 by linarith+
    with \<open>be_nat [33 - of_nat (32 - k), t ! (31 - k), t ! (32 - k), t ! (33 - k)] = _\<close> show ?thesis
      using assms(1) size
      by (simp only: target_to_bits_def Let_def unat_u256_from_be_bytes nth_checked_def
          u32_from_be_bytes_def rbind_simps if_True if_False refl)
  qed
  with k2 lo m show ?thesis by simp
qed

text \<open>Compacting a target keeps its leading bits and is undone by expansion up to truncation.\<close>

lemma target_to_bits_expand:
  assumes "length t = 32" "2 ^ 15 \<le> be_nat t" "be_nat t < 2 ^ 255"
    and k: "k = bit_len (be_nat t) div 8"
  shows "\<exists>b. target_to_bits t = Inr b \<and>
             be_nat (bits_to_target b) = be_nat t div 256 ^ (k - 2) * 256 ^ (k - 2)"
proof -
  let ?m = "be_nat t div 256 ^ (k - 2)"
  note v = target_to_bits_value [OF assms]
  let ?b = "of_nat ((k + 1) * 2 ^ 24 + ?m) :: u32"
  have "(k + 1) * 2 ^ 24 + ?m < 4294967296" using v by simp
  then have b: "unat ?b = (k + 1) * 2 ^ 24 + ?m" by (rule unat_u32_of_nat)
  have split: "(a * 2 ^ 24 + c) div 2 ^ 24 = a" "(a * 2 ^ 24 + c) mod 2 ^ 24 = c"
    if "c < 2 ^ 23" for a c :: nat using that by simp_all
  have fields: "unat ?b div 2 ^ 24 = k + 1" "unat ?b mod 2 ^ 24 = ?m"
    unfolding b using v by (blast intro: split)+
  have "?m * 256 ^ (k - 2) \<le> be_nat t" by (rule div_times_less_eq_dividend)
  also note assms(3)
  also have "(2 :: nat) ^ 255 < 2 ^ 256" by simp
  finally have "?m * 256 ^ (k - 2) < 2 ^ 256" .
  moreover have "?m * 256 ^ (k - 2) = ?m" if "k + 1 \<le> 3" using that v by simp
  ultimately have "be_nat (bits_to_target ?b) = ?m * 256 ^ (k - 2)"
    unfolding be_nat_bits_to_target fields using v by (simp add: compact_value_def)
  with v show ?thesis by blast
qed

lemma div_mult_gap: "0 < (d :: nat) \<Longrightarrow> n - n div d * d < d"
  by (simp add: minus_div_mult_eq_mod)

lemma trunc_bit_len:
  fixes T :: nat
  assumes "2 ^ (8 * j) \<le> T" "8 * j < bit_len T"
  shows "bit_len (T div 256 ^ j * 256 ^ j) = bit_len T"
proof -
  have pos: "0 < T" using assms(1) by (meson less_le_trans zero_less_numeral zero_less_power)
  obtain b where b: "bit_len T = Suc b" using pos by (simp add: bit_len_pos)
  with bit_len_bounds [OF pos] have T: "2 ^ b \<le> T" "T < 2 ^ Suc b" by simp_all
  have "(2 :: nat) ^ b = 2 ^ (b - 8 * j) * 256 ^ j"
  proof -
    have "b = (b - 8 * j) + 8 * j" using assms(2) b by simp
    then have "(2 :: nat) ^ b = 2 ^ (b - 8 * j) * 2 ^ (8 * j)" by (metis power_add)
    then show ?thesis by (simp add: power_mult)
  qed
  moreover have "2 ^ (b - 8 * j) \<le> T div 256 ^ j"
    using T(1) calculation by (simp add: less_eq_div_iff_mult_less_eq)
  ultimately have "2 ^ b \<le> T div 256 ^ j * 256 ^ j" by simp
  moreover have "T div 256 ^ j * 256 ^ j < 2 ^ Suc b"
    using T(2) div_times_less_eq_dividend [of T "256 ^ j"] by (rule le_less_trans [rotated])
  ultimately show ?thesis unfolding b by (rule bit_len_eqI)
qed

section \<open>Difficulty adjustment\<close>

definition clamp_timespan :: "nat \<Rightarrow> nat \<Rightarrow> nat" where
  "clamp_timespan expected span = max (expected div 4) (min (4 * expected) span)"

lemma expected_timespan_values:
  "unat (EXPECTED_EPOCH_TIMESPAN net) = (if net = Signet then 20160 else 1209600)"
  "unat (EXPECTED_EPOCH_TIMESPAN net div 4) = unat (EXPECTED_EPOCH_TIMESPAN net) div 4"
  "unat (EXPECTED_EPOCH_TIMESPAN net * 4) = 4 * unat (EXPECTED_EPOCH_TIMESPAN net)"
  by (simp_all add: EXPECTED_EPOCH_TIMESPAN_def unat_div)

lemma clamp_timespan_word:
  fixes span :: u32
  shows "unat (if span < EXPECTED_EPOCH_TIMESPAN net div 4 then EXPECTED_EPOCH_TIMESPAN net div 4
               else if EXPECTED_EPOCH_TIMESPAN net * 4 < span then EXPECTED_EPOCH_TIMESPAN net * 4
               else span) = clamp_timespan (unat (EXPECTED_EPOCH_TIMESPAN net)) (unat span)"
  by (simp add: word_less_nat_alt expected_timespan_values(2,3) clamp_timespan_def max_def min_def) auto

lemma unat_ucast_u32_u256 [simp]: "unat (ucast (w :: u32) :: u256) = unat w"
  using unat_u32_less [of w] by (simp add: unsigned_ucast_eq take_bit_nat_eq_self)

lemma max_target_no_overflow:
  "net \<noteq> Regtest \<Longrightarrow>
   unat (max_target (NETWORK_CONSTANTS net)) * (4 * unat (EXPECTED_EPOCH_TIMESPAN net)) < 2 ^ 256"
  by (cases net) (simp_all add: NETWORK_CONSTANTS_def EXPECTED_EPOCH_TIMESPAN_def)

lemma clamp_timespan_le: "clamp_timespan E s \<le> 4 * E"
  by (simp add: clamp_timespan_def)

lemma be_nat_calculate_new_difficulty:
  assumes "net \<noteq> Regtest"
    and "be_nat (bits_to_target bits) \<le> unat (max_target (NETWORK_CONSTANTS net))"
  shows "be_nat (calculate_new_difficulty net start last_time bits) =
           min (unat (max_target (NETWORK_CONSTANTS net)))
               (be_nat (bits_to_target bits) *
                  clamp_timespan (unat (EXPECTED_EPOCH_TIMESPAN net)) (unat (last_time - start))
                div unat (EXPECTED_EPOCH_TIMESPAN net))"
proof -
  let ?E = "EXPECTED_EPOCH_TIMESPAN net" and ?M = "max_target (NETWORK_CONSTANTS net)"
  let ?span = "last_time - start"
  let ?a = "if ?span < ?E div 4 then ?E div 4 else if ?E * 4 < ?span then ?E * 4 else ?span"
  let ?c = "clamp_timespan (unat ?E) (unat ?span)" and ?T = "be_nat (bits_to_target bits)"
  have "?T * ?c \<le> unat ?M * (4 * unat ?E)"
    using assms(2) clamp_timespan_le by (rule mult_le_mono)
  also note max_target_no_overflow [OF assms(1)]
  finally have "unat (u256_from_be_bytes (bits_to_target bits) * ucast ?a) = ?T * ?c"
    by (simp add: unat_word_ariths unat_u256_from_be_bytes clamp_timespan_word)
  then have "unat (u256_from_be_bytes (bits_to_target bits) * ucast ?a div ucast ?E) = ?T * ?c div unat ?E"
    by (simp add: unat_div)
  then show ?thesis
    unfolding calculate_new_difficulty_def Let_def be_nat_u256_to_be_bytes
    by (simp add: word_less_nat_alt min_def)
qed

section \<open>The constants of each network\<close>

lemma max_target_bytes_length [simp]: "length (max_target_bytes (NETWORK_CONSTANTS net)) = 32"
  by (cases net) (simp_all add: NETWORK_CONSTANTS_def)

lemma be_nat_max_target:
  "be_nat (max_target_bytes (NETWORK_CONSTANTS net)) = unat (max_target (NETWORK_CONSTANTS net))"
  by (cases net) (simp_all add: NETWORK_CONSTANTS_def be_nat_Cons)

lemma be_nat_bits_to_target_max:
  "be_nat (bits_to_target (max_bits (NETWORK_CONSTANTS net))) = unat (max_target (NETWORK_CONSTANTS net))"
  by (cases net) (simp_all add: NETWORK_CONSTANTS_def be_nat_bits_to_target compact_value_def)

lemma bit_len_max_target:
  "bit_len (unat (max_target (NETWORK_CONSTANTS net))) =
     (case net of Mainnet \<Rightarrow> 224 | Testnet4 \<Rightarrow> 224 | Signet \<Rightarrow> 234 | Regtest \<Rightarrow> 255)"
  using bit_len_eqI [of 223 "unat (max_target (NETWORK_CONSTANTS net))"]
    bit_len_eqI [of 233 "unat (max_target (NETWORK_CONSTANTS net))"]
    bit_len_eqI [of 254 "unat (max_target (NETWORK_CONSTANTS net))"]
  by (cases net) (simp_all add: NETWORK_CONSTANTS_def)

lemma target_to_bits_max:
  "target_to_bits (max_target_bytes (NETWORK_CONSTANTS net)) = Inr (max_bits (NETWORK_CONSTANTS net))"
  using target_to_bits_value [OF max_target_bytes_length _ _ refl, of net]
  by (cases net) (simp_all add: be_nat_max_target bit_len_max_target, simp_all add: NETWORK_CONSTANTS_def)

section \<open>Properties\<close>

text \<open>
  The proof-of-work check compares numbers. \<open>check_hash_valid\<close>, which walks the two byte
  arrays from opposite ends, accepts exactly when the hash read as a little-endian number is at
  most the target read as a big-endian number, and panics otherwise.
\<close>

theorem check_hash_valid_numeric:
  assumes "length hash = 32" "length target = 32"
  shows "check_hash_valid hash target =
           (if le_nat hash \<le> be_nat target then Inr () else Inl (Panic ''Hash is not valid''))"
  using assms by (rule check_hash_valid_compare)

theorem check_hash_valid_numeric_witness:
  "check_hash_valid (replicate 31 0 @ [1]) (replicate 32 0) = Inl (Panic ''Hash is not valid'') \<and>
   check_hash_valid (5 # replicate 31 0) (replicate 31 0 @ [7]) = Inr ()"
  using check_hash_valid_numeric [of "replicate 31 0 @ [1]" "replicate 32 0"]
    check_hash_valid_numeric [of "5 # replicate 31 0" "replicate 31 0 @ [7]"]
  by (simp add: le_nat_def be_nat_Cons)

text \<open>
  The work of a target. \<open>calculate_work\<close>, computed as \<open>!target / (target + 1) + 1\<close> in 256-bit
  wrapping arithmetic, is the documented \<open>2 ^ 256 / (target + 1)\<close> for every target except 0 and 1,
  for which it is defined as the maximum.
\<close>

theorem calculate_work_quotient:
  assumes "length target = 32"
  shows "unat (calculate_work target) =
           (if be_nat target \<le> 1 then 2 ^ 256 - 1 else 2 ^ 256 div (be_nat target + 1))"
  using assms by (rule unat_calculate_work)

theorem calculate_work_quotient_witness:
  "unat (calculate_work (max_target_bytes (NETWORK_CONSTANTS Mainnet))) = 0x100010001"
  using calculate_work_quotient [of "max_target_bytes (NETWORK_CONSTANTS Mainnet)"]
  by (simp add: NETWORK_CONSTANTS_def be_nat_Cons)

text \<open>
  C13. Compact targets. Every target from \<open>2 ^ 15\<close> up to \<open>2 ^ 255\<close> is compacted without a panic; the
  compact form expands to a target that is not larger and differs by less than one part in
  \<open>2 ^ 15\<close>; and it is a fixed point: compacting the expanded target gives the same bits.
\<close>

theorem target_bits_roundtrip:
  assumes "length t = 32" "2 ^ 15 \<le> be_nat t" "be_nat t < 2 ^ 255"
  shows "\<exists>b. target_to_bits t = Inr b \<and>
             be_nat (bits_to_target b) \<le> be_nat t \<and>
             (be_nat t - be_nat (bits_to_target b)) * 2 ^ 15 < be_nat t \<and>
             target_to_bits (bits_to_target b) = Inr b"
proof -
  define k where "k = bit_len (be_nat t) div 8"
  let ?T = "be_nat t" and ?d = "256 ^ (k - 2) :: nat"
  note v = target_to_bits_value [OF assms k_def]
  obtain b where b: "target_to_bits t = Inr b" and T': "be_nat (bits_to_target b) = ?T div ?d * ?d"
    using target_to_bits_expand [OF assms k_def] by blast
  have exp: "8 * k - 1 = 15 + 8 * (k - 2)" using v by auto
  have lo: "2 ^ 15 * ?d \<le> ?T"
    using v unfolding exp by (simp add: power_add power_mult)
  have gap: "?T - ?T div ?d * ?d < ?d" by (rule div_mult_gap) simp
  then have "(?T - ?T div ?d * ?d) * 2 ^ 15 < ?d * 2 ^ 15" by (rule mult_less_mono1) simp
  with lo have err: "(?T - ?T div ?d * ?d) * 2 ^ 15 < ?T" by simp
  have le: "?T div ?d * ?d \<le> ?T" by (rule div_times_less_eq_dividend)
  have len: "bit_len (?T div ?d * ?d) = bit_len ?T"
  proof (rule trunc_bit_len)
    show "2 ^ (8 * (k - 2)) \<le> ?T" using lo by (simp add: power_mult)
    have "8 * k \<le> bit_len ?T" by (simp add: k_def)
    with v show "8 * (k - 2) < bit_len ?T" by linarith
  qed
  have "2 ^ 15 \<le> ?T div ?d" using lo by (simp add: less_eq_div_iff_mult_less_eq)
  then have "2 ^ 15 * 1 \<le> ?T div ?d * ?d" by (rule mult_le_mono) simp
  moreover have "?T div ?d * ?d < 2 ^ 255" using le assms(3) by (rule le_less_trans)
  ultimately have "target_to_bits (bits_to_target b) =
      Inr (of_nat ((k + 1) * 2 ^ 24 + ?T div ?d * ?d div ?d))"
    using target_to_bits_value [of "bits_to_target b" k] T' len by (simp add: k_def)
  also have "\<dots> = target_to_bits t" using v by simp
  finally show ?thesis using b T' le err by auto
qed

theorem target_bits_roundtrip_witness:
  "\<exists>b. target_to_bits (max_target_bytes (NETWORK_CONSTANTS Signet)) = Inr b \<and>
       target_to_bits (bits_to_target b) = Inr b"
  using target_bits_roundtrip [of "max_target_bytes (NETWORK_CONSTANTS Signet)"]
  by (auto simp: NETWORK_CONSTANTS_def be_nat_Cons)

text \<open>
  C12. Difficulty adjustment. For a current target within the network maximum (not on regtest,
  which never adjusts) and an epoch that ends no earlier than it starts, the new target is the
  old one times the elapsed time over the expected time, with the elapsed time clamped to a
  factor of four both ways, capped at the network maximum; the 256-bit product never wraps.
\<close>

theorem calculate_new_difficulty_exact:
  assumes "net \<noteq> Regtest"
    and "be_nat (bits_to_target bits) \<le> unat (max_target (NETWORK_CONSTANTS net))"
    and "start \<le> last_time"
  shows "be_nat (calculate_new_difficulty net start last_time bits) =
           min (unat (max_target (NETWORK_CONSTANTS net)))
               (be_nat (bits_to_target bits) *
                  clamp_timespan (unat (EXPECTED_EPOCH_TIMESPAN net)) (unat last_time - unat start)
                div unat (EXPECTED_EPOCH_TIMESPAN net))"
  using be_nat_calculate_new_difficulty [OF assms(1,2), of start last_time] assms(3)
  by (simp add: unat_sub)

theorem calculate_new_difficulty_exact_witness:
  "be_nat (calculate_new_difficulty Mainnet 0 604800 0x1C00FFFF) = 0xFFFF * 2 ^ 200 div 2"
  using calculate_new_difficulty_exact [of Mainnet "0x1C00FFFF" 0 604800]
  by (simp add: be_nat_bits_to_target compact_value_def NETWORK_CONSTANTS_def
      expected_timespan_values clamp_timespan_def)

text \<open>
  C14. The elapsed time is a wrapping subtraction. When the last block of an epoch carries an
  earlier time than the first one (by at most \<open>2 ^ 31\<close> seconds), the code adjusts as if the epoch
  had taken four times the expected time, not a quarter: the target is quadrupled (up to the
  maximum).
\<close>

theorem calculate_new_difficulty_wraps:
  assumes "net \<noteq> Regtest"
    and "be_nat (bits_to_target bits) \<le> unat (max_target (NETWORK_CONSTANTS net))"
    and "last_time < start" "unat start - unat last_time \<le> 2 ^ 31"
  shows "be_nat (calculate_new_difficulty net start last_time bits) =
           min (unat (max_target (NETWORK_CONSTANTS net))) (4 * be_nat (bits_to_target bits))"
proof -
  let ?E = "unat (EXPECTED_EPOCH_TIMESPAN net)"
  have "unat (last_time - start) = 2 ^ 32 - (unat start - unat last_time)"
    using assms(3) by (simp add: unat_sub_if' word_less_nat_alt)
  then have "4 * ?E \<le> unat (last_time - start)"
    using assms(4) by (auto simp: expected_timespan_values)
  then have "clamp_timespan ?E (unat (last_time - start)) = 4 * ?E"
    by (simp add: clamp_timespan_def)
  moreover have "0 < ?E" by (simp add: expected_timespan_values)
  ultimately show ?thesis
    using be_nat_calculate_new_difficulty [OF assms(1,2), of start last_time]
    by (simp add: mult.commute mult.left_commute)
qed

theorem calculate_new_difficulty_wraps_witness:
  "be_nat (calculate_new_difficulty Mainnet 1000 999 0x1C00FFFF) = 4 * (0xFFFF * 2 ^ 200)"
  using calculate_new_difficulty_wraps [of Mainnet "0x1C00FFFF" 999 1000]
  by (simp add: be_nat_bits_to_target compact_value_def NETWORK_CONSTANTS_def)

text \<open>
  The network constants are consistent: on every network the bytes, the number and the
  compact form of the maximum target denote the same target, compacting it gives the constant
  bits, and the minimum work of testnet4 is the work of its maximum target.
\<close>

theorem network_constants_consistent:
  "bits_to_target (max_bits (NETWORK_CONSTANTS net)) = max_target_bytes (NETWORK_CONSTANTS net) \<and>
   u256_to_be_bytes (max_target (NETWORK_CONSTANTS net)) = max_target_bytes (NETWORK_CONSTANTS net) \<and>
   target_to_bits (max_target_bytes (NETWORK_CONSTANTS net)) = Inr (max_bits (NETWORK_CONSTANTS net)) \<and>
   calculate_work (max_target_bytes (NETWORK_CONSTANTS Testnet4)) = MINIMUM_WORK_TESTNET"
proof (intro conjI)
  show "bits_to_target (max_bits (NETWORK_CONSTANTS net)) = max_target_bytes (NETWORK_CONSTANTS net)"
    by (rule be_nat_inject [THEN iffD1])
      (simp_all add: max_target_bytes_length be_nat_max_target be_nat_bits_to_target_max)
  show "u256_to_be_bytes (max_target (NETWORK_CONSTANTS net)) = max_target_bytes (NETWORK_CONSTANTS net)"
    by (rule be_nat_inject [THEN iffD1])
      (simp_all add: max_target_bytes_length be_nat_max_target be_nat_u256_to_be_bytes)
  show "target_to_bits (max_target_bytes (NETWORK_CONSTANTS net)) = Inr (max_bits (NETWORK_CONSTANTS net))"
    by (rule target_to_bits_max)
  show "calculate_work (max_target_bytes (NETWORK_CONSTANTS Testnet4)) = MINIMUM_WORK_TESTNET"
    by (simp add: word_unat_eq_iff unat_calculate_work NETWORK_CONSTANTS_def MINIMUM_WORK_TESTNET_def
        be_nat_Cons)
qed

end
