(* ===== verification/Header_Chain.thy ===== *)
theory Header_Chain
  imports Mmr Pow "HOL-Library.Multiset"
begin

text \<open>
  The header chain circuit (\<open>src/circuits-lib/src/header_chain/mod.rs\<close>): block headers, the chain
  state, the validation loop \<open>apply_block_headers\<close> and the recursive circuit around it. The network
  is the build-time parameter \<open>net\<close>, SHA-256 the parameter \<open>sha\<close>, and \<open>verify\<close> stands for the zkVM
  call \<open>env::verify\<close> on an image id and the encoding of a committed output.
\<close>

section \<open>Headers and chain states\<close>

record circuit_block_header =
  version :: i32
  prev_block_hash :: bytes
  merkle_root :: bytes
  header_time :: u32
  header_bits :: u32
  header_nonce :: u32

definition compute_block_hash :: "hasher \<Rightarrow> circuit_block_header \<Rightarrow> bytes" where
  "compute_block_hash sha h =
     (let first_hash_result =
        sha (u32_to_le_bytes (version h) @ prev_block_hash h @ merkle_root h
             @ u32_to_le_bytes (header_time h) @ u32_to_le_bytes (header_bits h)
             @ u32_to_le_bytes (header_nonce h))
      in sha first_hash_result)"

record chain_state =
  block_height :: u32
  total_work :: bytes
  best_block_hash :: bytes
  current_target_bits :: u32
  epoch_start_time :: u32
  prev_11_timestamps :: "u32 list"
  block_hashes_mmr :: mmr_guest

definition chain_state_new :: "network \<Rightarrow> chain_state" where
  "chain_state_new net =
     \<lparr>block_height = - 1, total_work = replicate 32 0, best_block_hash = replicate 32 0,
      current_target_bits = max_bits (NETWORK_CONSTANTS net), epoch_start_time = 0,
      prev_11_timestamps = replicate 11 0, block_hashes_mmr = mmr_guest_new\<rparr>"

definition genesis_state :: "network \<Rightarrow> chain_state" where
  "genesis_state net = chain_state_new net"

definition chain_state_preimage :: "chain_state \<Rightarrow> bytes" where
  "chain_state_preimage s =
     u32_to_le_bytes (block_height s) @ total_work s @ best_block_hash s
     @ u32_to_le_bytes (current_target_bits s) @ u32_to_le_bytes (epoch_start_time s)
     @ concat (map u32_to_le_bytes (prev_11_timestamps s))
     @ concat (subroots (block_hashes_mmr s)) @ u32_to_le_bytes (mmr_size (block_hashes_mmr s))"

definition to_hash :: "hasher \<Rightarrow> chain_state \<Rightarrow> bytes" where
  "to_hash sha s = sha (chain_state_preimage s)"

section \<open>The validation loop\<close>

text \<open>The chain state and the three local variables of \<open>apply_block_headers\<close>.\<close>

record loop_vars =
  self :: chain_state
  current_target_bytes :: bytes
  current_work :: u256
  last_block_time :: u32

definition initial_target :: "network \<Rightarrow> chain_state \<Rightarrow> bytes" where
  "initial_target net s =
     (if IS_REGTEST net then u256_to_be_bytes (max_target (NETWORK_CONSTANTS net))
      else bits_to_target (current_target_bits s))"

definition initial_block_time :: "network \<Rightarrow> chain_state \<Rightarrow> u32" where
  "initial_block_time net s =
     (if IS_TESTNET4 net then
        if block_height s = - 1 then 0 else prev_11_timestamps s ! (unat (block_height s) mod 11)
      else 0)"

text \<open>The target, the expected bits and the work of the next block, whose height is already in the state.\<close>

definition block_target :: "network \<Rightarrow> circuit_block_header \<Rightarrow> loop_vars \<Rightarrow> bytes \<times> u32 \<times> u256" where
  "block_target net h v =
     (let real = (current_target_bytes v, current_target_bits (self v),
                  calculate_work (current_target_bytes v)) in
      if IS_TESTNET4 net then
        if last_block_time v + 1200 < header_time h then
          if block_height (self v) mod BLOCKS_PER_EPOCH = 0 then real
          else (max_target_bytes (NETWORK_CONSTANTS net), max_bits (NETWORK_CONSTANTS net),
                MINIMUM_WORK_TESTNET)
        else real
      else real)"

definition retarget :: "network \<Rightarrow> circuit_block_header \<Rightarrow> loop_vars \<Rightarrow> loop_vars result" where
  "retarget net h v =
     (if \<not> IS_REGTEST net \<and> block_height (self v) mod BLOCKS_PER_EPOCH = BLOCKS_PER_EPOCH - 1
      then (let target = calculate_new_difficulty net (epoch_start_time (self v)) (header_time h)
                           (current_target_bits (self v)) in
            rbind (target_to_bits target) (\<lambda>b.
            Inr (v\<lparr>current_target_bytes := target, self := (self v)\<lparr>current_target_bits := b\<rparr>\<rparr>)))
      else Inr v)"

definition apply_header :: "network \<Rightarrow> hasher \<Rightarrow> circuit_block_header \<Rightarrow> loop_vars \<Rightarrow> loop_vars result" where
  "apply_header net sha h v0 =
     (let s0 = self v0; s = s0\<lparr>block_height := block_height s0 + 1\<rparr>; v = v0\<lparr>self := s\<rparr>;
          (target_to_use, expected_bits, work_to_add) = block_target net h v;
          new_block_hash = compute_block_hash sha h in
      rbind (ensure (prev_block_hash h = best_block_hash s)
               (Panic ''Previous block hash does not match the best block hash'')) (\<lambda>_.
      rbind (if IS_REGTEST net
             then ensure (header_bits h = max_bits (NETWORK_CONSTANTS net))
                    (Panic ''Bits for regtest must be equal to the maximum bits'')
             else ensure (header_bits h = expected_bits)
                    (Panic ''Bits for the block header must match the expected bits'')) (\<lambda>_.
      rbind (check_hash_valid new_block_hash target_to_use) (\<lambda>_.
      rbind (ensure (validate_timestamp (header_time h) (prev_11_timestamps s))
               (Panic ''Timestamp is not valid'')) (\<lambda>_.
      rbind (mmr_guest_append sha new_block_hash (block_hashes_mmr s)) (\<lambda>m.
      retarget net h
        (v\<lparr>self := s\<lparr>block_hashes_mmr := m, best_block_hash := new_block_hash,
             epoch_start_time := (if \<not> IS_REGTEST net \<and> block_height s mod BLOCKS_PER_EPOCH = 0
                                  then header_time h else epoch_start_time s),
             prev_11_timestamps :=
               (prev_11_timestamps s)[unat (block_height s) mod 11 := header_time h]\<rparr>,
           current_work := current_work v + work_to_add,
           last_block_time := (if IS_TESTNET4 net then header_time h else last_block_time v)\<rparr>)))))))"

definition start_loop :: "network \<Rightarrow> chain_state \<Rightarrow> loop_vars" where
  "start_loop net s =
     \<lparr>self = s, current_target_bytes = initial_target net s,
      current_work = u256_from_be_bytes (total_work s), last_block_time = initial_block_time net s\<rparr>"

definition finish_loop :: "loop_vars \<Rightarrow> chain_state" where
  "finish_loop v = (self v)\<lparr>total_work := u256_to_be_bytes (current_work v)\<rparr>"

definition apply_block_headers ::
  "network \<Rightarrow> hasher \<Rightarrow> circuit_block_header list \<Rightarrow> chain_state \<Rightarrow> chain_state result" where
  "apply_block_headers net sha block_headers s =
     rbind (rfold (apply_header net sha) block_headers (start_loop net s)) (\<lambda>v. Inr (finish_loop v))"

section \<open>The circuit\<close>

type_synonym method_id = "u32 list"

record block_header_circuit_output =
  hc_method_id :: method_id
  genesis_state_hash :: bytes
  hc_chain_state :: chain_state

datatype header_chain_prev_proof_type =
  GenesisBlock chain_state | PrevProof block_header_circuit_output

record header_chain_circuit_input =
  input_method_id :: method_id
  prev_proof :: header_chain_prev_proof_type
  block_headers :: "circuit_block_header list"

definition header_chain_circuit ::
  "network \<Rightarrow> hasher \<Rightarrow> (method_id \<Rightarrow> block_header_circuit_output \<Rightarrow> bool) \<Rightarrow>
   header_chain_circuit_input \<Rightarrow> block_header_circuit_output result" where
  "header_chain_circuit net sha verify input =
     rbind (case prev_proof input of
              GenesisBlock gs \<Rightarrow> Inr (to_hash sha gs, gs)
            | PrevProof prev \<Rightarrow>
                rbind (ensure (hc_method_id prev = input_method_id input) (Panic ''Method ID mismatch'')) (\<lambda>_.
                rbind (ensure (verify (input_method_id input) prev) (Panic ''env::verify'')) (\<lambda>_.
                Inr (genesis_state_hash prev, hc_chain_state prev))))
       (\<lambda>(gh, s).
     rbind (apply_block_headers net sha (block_headers input) s) (\<lambda>s'.
     Inr \<lparr>hc_method_id = input_method_id input, genesis_state_hash = gh, hc_chain_state = s'\<rparr>))"

section \<open>What one accepted header establishes\<close>

lemma block_target_indep:
  "block_target net h (v\<lparr>self := s\<lparr>total_work := w\<rparr>\<rparr>) = block_target net h (v\<lparr>self := s\<rparr>)"
  "block_target net h (v\<lparr>current_work := c\<rparr>) = block_target net h v"
  by (simp_all add: block_target_def Let_def)

lemma retarget_fields:
  assumes "retarget net h v = Inr v'"
  shows "best_block_hash (self v') = best_block_hash (self v)"
    and "block_height (self v') = block_height (self v)"
    and "block_hashes_mmr (self v') = block_hashes_mmr (self v)"
    and "prev_11_timestamps (self v') = prev_11_timestamps (self v)"
    and "current_work v' = current_work v"
    and "last_block_time v' = last_block_time v"
    and "total_work (self v') = total_work (self v)"
  using assms by (auto simp: retarget_def Let_def split: if_splits)

lemma apply_header_facts:
  assumes "apply_header net sha h v = Inr v'"
  shows "prev_block_hash h = best_block_hash (self v)"
    and "best_block_hash (self v') = compute_block_hash sha h"
    and "block_height (self v') = block_height (self v) + 1"
    and "mmr_guest_append sha (compute_block_hash sha h) (block_hashes_mmr (self v)) = Inr (block_hashes_mmr (self v'))"
    and "prev_11_timestamps (self v') =
           (prev_11_timestamps (self v))[unat (block_height (self v) + 1) mod 11 := header_time h]"
    and "median (prev_11_timestamps (self v)) < header_time h"
    and "total_work (self v') = total_work (self v)"
    and "last_block_time v' = (if IS_TESTNET4 net then header_time h else last_block_time v)"
  using assms
  by (auto simp: apply_header_def Let_def validate_timestamp_def split: prod.splits
      dest: retarget_fields)

text \<open>A retarget happens exactly at the last height of an epoch, and never on regtest.\<close>

definition retargets :: "network \<Rightarrow> u32 \<Rightarrow> bool" where
  "retargets net height \<longleftrightarrow> net \<noteq> Regtest \<and> height mod 2016 = 2015"

lemma apply_header_same_target:
  assumes "apply_header net sha h v = Inr v'" "\<not> retargets net (block_height (self v) + 1)"
  shows "current_target_bytes v' = current_target_bytes v"
    and "current_target_bits (self v') = current_target_bits (self v)"
  using assms
  by (auto simp: apply_header_def Let_def retarget_def retargets_def IS_REGTEST_def BLOCKS_PER_EPOCH_def
      split: prod.splits if_splits)

end
