(* ===== verification/Header_Chain_Proofs.thy ===== *)
theory Header_Chain_Proofs
  imports Header_Chain
begin

text \<open>
  The properties of the header chain: the invariant that ties height, best hash and block hash
  range together, proof of work and median time of every accepted header, the accumulated work,
  independence of batch boundaries within an epoch, and the meaning of a recursive proof.
\<close>

section \<open>The chain invariant\<close>

text \<open>\<open>linked sha prev hs\<close>: the headers form a chain on top of the block hash \<open>prev\<close>.\<close>

fun linked :: "hasher \<Rightarrow> bytes \<Rightarrow> circuit_block_header list \<Rightarrow> bool" where
  "linked sha prev [] \<longleftrightarrow> True"
| "linked sha prev (h # hs) \<longleftrightarrow> prev_block_hash h = prev \<and> linked sha (compute_block_hash sha h) hs"

text \<open>
  \<open>chain_inv sha xs s\<close>: the state \<open>s\<close> is one reached after the blocks with hashes \<open>xs\<close>. The height
  is the number of blocks minus one (\<open>u32::MAX\<close> before the first block).
\<close>

definition chain_inv :: "hasher \<Rightarrow> bytes list \<Rightarrow> chain_state \<Rightarrow> bool" where
  "chain_inv sha xs s \<longleftrightarrow>
     mmr_guest_of sha xs (block_hashes_mmr s) \<and>
     block_height s = of_nat (length xs) - 1 \<and>
     best_block_hash s = (if xs = [] then replicate 32 0 else last xs) \<and>
     length (prev_11_timestamps s) = 11 \<and> length (total_work s) = 32"

lemma apply_headers_linked:
  "rfold (apply_header net sha) hs v = Inr v' \<Longrightarrow>
     linked sha (best_block_hash (self v)) hs \<and>
     best_block_hash (self v') = (if hs = [] then best_block_hash (self v) else compute_block_hash sha (last hs)) \<and>
     block_height (self v') = block_height (self v) + of_nat (length hs) \<and>
     length (prev_11_timestamps (self v')) = length (prev_11_timestamps (self v)) \<and>
     rfold (mmr_guest_append sha) (map (compute_block_hash sha) hs) (block_hashes_mmr (self v)) =
       Inr (block_hashes_mmr (self v'))"
proof (induction hs arbitrary: v)
  case Nil
  then show ?case by simp
next
  case (Cons h hs)
  then obtain v1 where v1: "apply_header net sha h v = Inr v1"
    and rest: "rfold (apply_header net sha) hs v1 = Inr v'" by auto
  from Cons.IH [OF rest] apply_header_facts [OF v1] show ?case by auto
qed

lemma apply_block_headers_inv:
  assumes "chain_inv sha xs s" "apply_block_headers net sha hs s = Inr s'"
    and "length xs + length hs < 4294967296"
  shows "chain_inv sha (xs @ map (compute_block_hash sha) hs) s' \<and> linked sha (best_block_hash s) hs"
proof -
  obtain v where v: "rfold (apply_header net sha) hs (start_loop net s) = Inr v" and s': "s' = finish_loop v"
    using assms(2) by (auto simp: apply_block_headers_def)
  note f = apply_headers_linked [OF v, simplified start_loop_def loop_vars.simps]
  obtain m where "rfold (mmr_guest_append sha) (map (compute_block_hash sha) hs) (block_hashes_mmr s) = Inr m"
      "mmr_guest_of sha (xs @ map (compute_block_hash sha) hs) m"
    using guest_range.append_list [of sha xs "block_hashes_mmr s" "map (compute_block_hash sha) hs"] assms
    by (auto simp: chain_inv_def)
  with f assms(1) show ?thesis
    by (auto simp: chain_inv_def s' finish_loop_def last_map)
qed

lemma chain_inv_genesis: "chain_inv sha [] (genesis_state net)"
  by (simp add: chain_inv_def genesis_state_def chain_state_new_def mmr_guest_new_of)

section \<open>Proof of work\<close>

text \<open>The target against which a header is checked is the one its own bits denote.\<close>

lemma apply_header_target:
  assumes "apply_header net sha h v = Inr v'"
    and "be_nat (current_target_bytes v) = be_nat (initial_target net (self v))"
  obtains t b w where
    "block_target net h (v\<lparr>self := (self v)\<lparr>block_height := block_height (self v) + 1\<rparr>\<rparr>) = (t, b, w)"
    "be_nat t = be_nat (bits_to_target (header_bits h))"
proof -
  let ?v = "v\<lparr>self := (self v)\<lparr>block_height := block_height (self v) + 1\<rparr>\<rparr>"
  obtain t b w where t: "block_target net h ?v = (t, b, w)" by (cases "block_target net h ?v") auto
  moreover have "be_nat t = be_nat (bits_to_target (header_bits h))"
    using t assms be_nat_bits_to_target_max [of net] be_nat_max_target [of net]
    by (auto simp: apply_header_def block_target_def Let_def initial_target_def IS_REGTEST_def
        IS_TESTNET4_def be_nat_u256_to_be_bytes split: if_splits)
  ultimately show thesis by (rule that)
qed

lemma apply_header_pow:
  assumes "apply_header net sha h v = Inr v'" "digest32 sha" "length (current_target_bytes v) = 32"
    and "be_nat (current_target_bytes v) = be_nat (initial_target net (self v))"
  shows "le_nat (compute_block_hash sha h) \<le> be_nat (bits_to_target (header_bits h))"
proof -
  let ?v = "v\<lparr>self := (self v)\<lparr>block_height := block_height (self v) + 1\<rparr>\<rparr>"
  obtain t b w where t: "block_target net h ?v = (t, b, w)" "be_nat t = be_nat (bits_to_target (header_bits h))"
    by (rule apply_header_target [OF assms(1,4)])
  have "length (compute_block_hash sha h) = 32"
    using assms(2) by (simp add: compute_block_hash_def Let_def)
  moreover have "length t = 32"
    using t(1) assms(3) by (auto simp: block_target_def Let_def split: if_splits)
  moreover have "check_hash_valid (compute_block_hash sha h) t = Inr ()"
    using assms(1) t(1) by (auto simp: apply_header_def Let_def)
  ultimately show ?thesis using t(2) by (auto simp: check_hash_valid_compare split: if_splits)
qed

lemma target_stays:
  assumes "rfold (apply_header net sha) hs v = Inr v'"
    and "\<forall>j < length hs. \<not> retargets net (block_height (self v) + 1 + of_nat j)"
  shows "current_target_bytes v' = current_target_bytes v \<and>
         current_target_bits (self v') = current_target_bits (self v)"
  using assms
proof (induction hs arbitrary: v)
  case Nil
  then show ?case by simp
next
  case (Cons h hs)
  then obtain v1 where v1: "apply_header net sha h v = Inr v1"
    and rest: "rfold (apply_header net sha) hs v1 = Inr v'" by auto
  have "\<not> retargets net (block_height (self v) + 1)" using Cons.prems(2) by fastforce
  note same = apply_header_same_target [OF v1 this]
  have "\<not> retargets net (block_height (self v1) + 1 + of_nat j)" if "j < length hs" for j
    using Cons.prems(2) [rule_format, of "Suc j"] that apply_header_facts(3) [OF v1]
    by (simp add: add.commute add.left_commute)
  with Cons.IH [OF rest] same show ?case by simp
qed

section \<open>Batches\<close>

text \<open>The loop neither reads nor writes \<open>total_work\<close>; it is stored once at the end.\<close>

definition set_total_work :: "bytes \<Rightarrow> loop_vars \<Rightarrow> loop_vars" where
  "set_total_work w v = v\<lparr>self := (self v)\<lparr>total_work := w\<rparr>\<rparr>"

lemma retarget_set_total_work:
  "retarget net h (set_total_work w v) = rbind (retarget net h v) (\<lambda>v'. Inr (set_total_work w v'))"
  by (cases "target_to_bits (calculate_new_difficulty net (epoch_start_time (self v)) (header_time h)
        (current_target_bits (self v)))")
    (simp_all add: retarget_def set_total_work_def Let_def)

lemma block_target_set_total_work:
  "block_target net h (set_total_work w v) = block_target net h v"
  by (simp add: block_target_def set_total_work_def Let_def)

lemma apply_header_set_total_work:
  "apply_header net sha h (set_total_work w v) =
     rbind (apply_header net sha h v) (\<lambda>v'. Inr (set_total_work w v'))"
proof -
  let ?v = "v\<lparr>self := (self v)\<lparr>block_height := block_height (self v) + 1\<rparr>\<rparr>"
  let ?w = "(set_total_work w v)\<lparr>self := (self (set_total_work w v))\<lparr>block_height := block_height (self (set_total_work w v)) + 1\<rparr>\<rparr>"
  obtain t b c where t: "block_target net h ?v = (t, b, c)" by (cases "block_target net h ?v") auto
  have "?w = set_total_work w ?v" by (simp add: set_total_work_def)
  then have t': "block_target net h ?w = (t, b, c)" using t by (simp add: block_target_set_total_work)
  show ?thesis
    unfolding apply_header_def Let_def t t' prod.case rbind_assoc retarget_set_total_work [symmetric]
    by (cases v; cases "self v") (simp add: set_total_work_def)
qed

lemma apply_headers_set_total_work:
  "rfold (apply_header net sha) hs (set_total_work w v) =
     rbind (rfold (apply_header net sha) hs v) (\<lambda>v'. Inr (set_total_work w v'))"
proof (induction hs arbitrary: v)
  case Nil
  then show ?case by simp
next
  case (Cons h hs)
  then show ?case
    by (cases "apply_header net sha h v") (simp_all add: apply_header_set_total_work)
qed

lemma finish_set_total_work [simp]: "finish_loop (set_total_work w v) = finish_loop v"
  by (simp add: finish_loop_def set_total_work_def)

text \<open>
  After headers that do not complete an epoch, the local variables of the loop are what a fresh
  call would compute from the stored state.
\<close>

lemma restart_loop:
  assumes run: "rfold (apply_header net sha) hs (start_loop net s) = Inr v"
    and quiet: "\<forall>j < length hs. \<not> retargets net (block_height s + 1 + of_nat j)"
    and height: "hs = [] \<or> block_height s + of_nat (length hs) \<noteq> - 1"
    and len: "length (prev_11_timestamps s) = 11"
  shows "start_loop net (finish_loop v) = set_total_work (u256_to_be_bytes (current_work v)) v"
proof -
  have t: "current_target_bytes v = initial_target net s" "current_target_bits (self v) = current_target_bits s"
    using target_stays [OF run] quiet by (simp_all add: start_loop_def)
  have time: "last_block_time v = initial_block_time net (self v)"
  proof (cases hs rule: rev_cases)
    case Nil
    with run show ?thesis by (auto simp: start_loop_def)
  next
    case (snoc hs0 h)
    then obtain v0 where v0: "rfold (apply_header net sha) hs0 (start_loop net s) = Inr v0"
      and h: "apply_header net sha h v0 = Inr v"
      using run by (auto simp: rfold_append)
    have "block_height (self v) \<noteq> - 1"
      using height snoc apply_headers_linked [OF run] by (simp add: start_loop_def)
    moreover have "length (prev_11_timestamps (self v0)) = 11"
      using apply_headers_linked [OF v0] len by (simp add: start_loop_def)
    moreover have "last_block_time v = 0" if "\<not> IS_TESTNET4 net"
    proof (rule rfold_invariant [OF run, where P = "\<lambda>v. last_block_time v = 0"])
      show "last_block_time (start_loop net s) = 0"
        using that by (simp add: start_loop_def initial_block_time_def)
      show "last_block_time b = 0" if "last_block_time a = 0" "apply_header net sha x a = Inr b" for x a b
        using that \<open>\<not> IS_TESTNET4 net\<close> apply_header_facts(8) by simp
    qed
    ultimately show ?thesis
      using apply_header_facts(3,5,8) [OF h] by (simp add: initial_block_time_def)
  qed
  from t time show ?thesis
    by (simp add: start_loop_def finish_loop_def set_total_work_def initial_target_def
        initial_block_time_def)
qed

lemma apply_block_headers_append:
  assumes "\<forall>j < length hs1. \<not> retargets net (block_height s + 1 + of_nat j)"
    and "hs1 = [] \<or> block_height s + of_nat (length hs1) \<noteq> - 1"
    and "length (prev_11_timestamps s) = 11"
  shows "apply_block_headers net sha (hs1 @ hs2) s =
           rbind (apply_block_headers net sha hs1 s) (apply_block_headers net sha hs2)"
proof (cases "rfold (apply_header net sha) hs1 (start_loop net s)")
  case (Inl e)
  then show ?thesis by (simp add: apply_block_headers_def rfold_append)
next
  case (Inr v)
  then show ?thesis
    using restart_loop [OF Inr assms]
    by (cases "rfold (apply_header net sha) hs2 v")
      (simp_all add: apply_block_headers_def rfold_append apply_headers_set_total_work)
qed

section \<open>Work\<close>

lemma block_target_work:
  assumes "block_target net h v = (t, b, w)"
  shows "w = calculate_work t"
proof -
  have "MINIMUM_WORK_TESTNET = calculate_work (max_target_bytes (NETWORK_CONSTANTS Testnet4))"
    by (simp add: word_unat_eq_iff unat_calculate_work NETWORK_CONSTANTS_def MINIMUM_WORK_TESTNET_def be_nat_Cons)
  then show ?thesis using assms by (auto simp: block_target_def Let_def IS_TESTNET4_def split: if_splits)
qed

lemma calculate_work_cong: "be_nat t = be_nat t' \<Longrightarrow> calculate_work t = calculate_work t'"
  by (simp add: calculate_work_def u256_from_be_bytes_def)

lemma apply_header_work:
  assumes "apply_header net sha h v = Inr v'"
    and "be_nat (current_target_bytes v) = be_nat (initial_target net (self v))"
  shows "current_work v' = current_work v + calculate_work (bits_to_target (header_bits h))"
proof -
  let ?v = "v\<lparr>self := (self v)\<lparr>block_height := block_height (self v) + 1\<rparr>\<rparr>"
  obtain t b w where t: "block_target net h ?v = (t, b, w)" "be_nat t = be_nat (bits_to_target (header_bits h))"
    by (rule apply_header_target [OF assms])
  have "w = calculate_work (bits_to_target (header_bits h))"
    using block_target_work [OF t(1)] calculate_work_cong [OF t(2)] by simp
  then show ?thesis using assms(1) t(1) by (auto simp: apply_header_def Let_def dest: retarget_fields)
qed

lemma apply_headers_work:
  assumes "rfold (apply_header net sha) hs v = Inr v'" "current_target_bytes v = initial_target net (self v)"
    and "\<forall>j. Suc j < length hs \<longrightarrow> \<not> retargets net (block_height (self v) + 1 + of_nat j)"
  shows "current_work v' = current_work v + sum_list (map (\<lambda>h. calculate_work (bits_to_target (header_bits h))) hs)"
  using assms
proof (induction hs arbitrary: v' rule: rev_induct)
  case Nil
  then show ?case by simp
next
  case (snoc h hs)
  then obtain v1 where v1: "rfold (apply_header net sha) hs v = Inr v1"
    and h: "apply_header net sha h v1 = Inr v'" by (auto simp: rfold_append)
  have "\<forall>j < length hs. \<not> retargets net (block_height (self v) + 1 + of_nat j)"
    using snoc.prems(3) by simp
  from target_stays [OF v1 this] assms(2) have "current_target_bytes v1 = initial_target net (self v1)"
    by (simp add: initial_target_def)
  then show ?case using snoc apply_header_work [OF h] v1 by (simp add: add.assoc)
qed

section \<open>The header after the end of an epoch\<close>

text \<open>
  The first block of an epoch is checked against the target that the loop holds, on testnet4 too,
  and does not change it.
\<close>

lemma first_of_epoch_iff:
  assumes "net \<noteq> Regtest" "(block_height (self v) + 1) mod BLOCKS_PER_EPOCH = 0"
  shows "(\<exists>v'. apply_header net sha h v = Inr v') \<longleftrightarrow>
     prev_block_hash h = best_block_hash (self v) \<and> header_bits h = current_target_bits (self v) \<and>
     check_hash_valid (compute_block_hash sha h) (current_target_bytes v) = Inr () \<and>
     validate_timestamp (header_time h) (prev_11_timestamps (self v)) \<and>
     (\<exists>m. mmr_guest_append sha (compute_block_hash sha h) (block_hashes_mmr (self v)) = Inr m)"
  using assms by (auto simp: apply_header_def Let_def block_target_def IS_REGTEST_def retarget_def BLOCKS_PER_EPOCH_def)

lemma epoch_end_next:
  assumes "retargets net height"
  shows "net \<noteq> Regtest" "(height + 1) mod BLOCKS_PER_EPOCH = 0"
proof -
  show "net \<noteq> Regtest" using assms by (simp add: retargets_def IS_REGTEST_def)
  have m: "unat height mod 2016 = 2015"
    using assms by (simp add: retargets_def BLOCKS_PER_EPOCH_def word_unat_eq_iff unat_mod)
  have "unat height < 4294967296" using unat_u32_less [of height] by simp
  then have "unat height \<noteq> 4294967295" using m by auto
  with \<open>unat height < 4294967296\<close> have "unat (height + 1) = unat height + 1" by (simp add: unat_word_ariths)
  moreover have "(unat height + 1) mod 2016 = 0" using m by (simp add: mod_Suc)
  ultimately show "(height + 1) mod BLOCKS_PER_EPOCH = 0"
    by (simp add: BLOCKS_PER_EPOCH_def word_unat_eq_iff unat_mod)
qed

lemma length_calculate_new_difficulty [simp]: "length (calculate_new_difficulty net a b c) = 32"
  by (simp add: calculate_new_difficulty_def Let_def)

lemma header_after_epoch_end:
  assumes first: "apply_header net sha h1 (start_loop net s) = Inr v1" and last: "retargets net (block_height s + 1)"
    and second: "apply_header net sha h2 v1 = Inr v2" and digest: "digest32 sha"
  shows "le_nat (compute_block_hash sha h2) \<le>
       be_nat (calculate_new_difficulty net (epoch_start_time s) (header_time h1) (current_target_bits s))"
    and "(\<exists>v. apply_header net sha h2 (start_loop net (finish_loop v1)) = Inr v) \<longleftrightarrow>
       le_nat (compute_block_hash sha h2) \<le> be_nat (bits_to_target (header_bits h2))"
proof -
  let ?T = "calculate_new_difficulty net (epoch_start_time s) (header_time h1) (current_target_bits s)"
  note epoch = epoch_end_next [OF last]
  have v1: "block_height (self v1) = block_height s + 1" "current_target_bytes v1 = ?T"
    using first last epoch(1)
    by (auto simp: apply_header_def Let_def start_loop_def retarget_def retargets_def IS_REGTEST_def BLOCKS_PER_EPOCH_def
        split: prod.splits)
  have next1: "(block_height (self v1) + 1) mod BLOCKS_PER_EPOCH = 0" using epoch(2) v1(1) by simp
  have next2: "(block_height (self (start_loop net (finish_loop v1))) + 1) mod BLOCKS_PER_EPOCH = 0"
    using next1 by (simp add: start_loop_def finish_loop_def)
  have checks: "prev_block_hash h2 = best_block_hash (self v1)" "header_bits h2 = current_target_bits (self v1)"
      "check_hash_valid (compute_block_hash sha h2) ?T = Inr ()"
      "validate_timestamp (header_time h2) (prev_11_timestamps (self v1))"
      "\<exists>m. mmr_guest_append sha (compute_block_hash sha h2) (block_hashes_mmr (self v1)) = Inr m"
    using first_of_epoch_iff [OF epoch(1) next1, of sha h2] second v1(2) by auto
  have len: "length (compute_block_hash sha h2) = 32"
    using digest by (simp add: compute_block_hash_def Let_def)
  show "le_nat (compute_block_hash sha h2) \<le> be_nat ?T"
    using checks(3) check_hash_valid_compare [OF len, of ?T] by (simp split: if_splits)
  show "(\<exists>v. apply_header net sha h2 (start_loop net (finish_loop v1)) = Inr v) \<longleftrightarrow>
       le_nat (compute_block_hash sha h2) \<le> be_nat (bits_to_target (header_bits h2))"
    unfolding first_of_epoch_iff [OF epoch(1) next2]
    using checks epoch(1)
    by (simp add: start_loop_def finish_loop_def initial_target_def IS_REGTEST_def check_hash_valid_compare [OF len])
qed

section \<open>The ring buffer of timestamps\<close>

lemma ring_times:
  assumes "rfold (apply_header net sha) hs v = Inr v'" "length (prev_11_timestamps (self v)) = 11"
    and "unat (block_height (self v) + 1) + length hs \<le> 4294967296"
    and "j < length hs" "length hs \<le> j + 11"
  shows "prev_11_timestamps (self v') ! ((unat (block_height (self v) + 1) + j) mod 11) = header_time (hs ! j)"
  using assms
proof (induction hs arbitrary: j v' rule: rev_induct)
  case Nil
  then show ?case by simp
next
  case (snoc h hs)
  let ?n = "unat (block_height (self v) + 1)"
  obtain v1 where v1: "rfold (apply_header net sha) hs v = Inr v1"
    and h: "apply_header net sha h v1 = Inr v'" using snoc.prems(1) by (auto simp: rfold_append)
  have len: "length (prev_11_timestamps (self v1)) = 11"
    using apply_headers_linked [OF v1] snoc.prems(2) by simp
  have "block_height (self v1) + 1 = of_nat (?n + length hs)"
    using apply_headers_linked [OF v1] by (simp add: algebra_simps)
  moreover have "unat (of_nat (?n + length hs) :: u32) = ?n + length hs"
    using snoc.prems(3) by (intro unat_u32_of_nat) simp
  ultimately have pos: "unat (block_height (self v1) + 1) = ?n + length hs" by (simp only:)
  note upd = apply_header_facts(5) [OF h, unfolded pos]
  show ?case
  proof (cases "j = length hs")
    case True
    then show ?thesis using upd len by simp
  next
    case False
    then have j: "j < length hs" "length hs \<le> j + 11" "length hs < j + 11" using snoc.prems(4,5) by auto
    have "(?n + length hs) mod 11 \<noteq> (?n + j) mod 11"
      using ring_pos_eq [of j "length hs" 11 ?n] j by auto
    then show ?thesis
      using snoc.IH [OF v1 snoc.prems(2) _ j(1,2)] snoc.prems(3) upd j(1) by (simp add: nth_append)
  qed
qed

section \<open>Median time past\<close>

lemma mset_ring:
  assumes "length ring = 11"
    and "\<And>j. j < 11 \<Longrightarrow> ring ! ((n + j) mod 11) = ts ! j" "length ts = 11"
  shows "mset ring = mset ts"
proof -
  note inj = ring_pos_inj [of n 11]
  have "(\<lambda>j. (n + j) mod 11) ` {..< 11} = {..< 11}"
    by (rule endo_inj_surj) (use inj in auto)
  then have ix: "image_mset (\<lambda>j. (n + j) mod 11) (mset_set {..< 11}) = mset_set {..< 11}"
    using image_mset_mset_set [OF inj] by simp
  have "image_mset (nth ring) (mset_set {..< 11}) =
        image_mset (nth ring) (image_mset (\<lambda>j. (n + j) mod 11) (mset_set {..< 11}))"
    unfolding ix ..
  also have "\<dots> = image_mset (\<lambda>j. ring ! ((n + j) mod 11)) (mset_set {..< 11})"
    by (simp add: multiset.map_comp comp_def)
  also have "\<dots> = image_mset (nth ts) (mset_set {..< 11})"
    using assms(2) by (intro image_mset_cong) simp
  finally have "mset (map (nth ring) [0 ..< 11]) = mset (map (nth ts) [0 ..< 11])"
    by (simp add: atLeast0LessThan [symmetric])
  moreover have "map (nth ring) [0 ..< 11] = ring" "map (nth ts) [0 ..< 11] = ts"
    using assms(1,3) map_nth [of ring] map_nth [of ts] by simp_all
  ultimately show ?thesis by (simp only:)
qed

lemma median_mset: "mset xs = mset ys \<Longrightarrow> median xs = median ys"
  unfolding median_def using properties_for_sort [of "sort ys" xs] by simp

lemma accepted_after_median:
  assumes run: "rfold (apply_header net sha) hs v = Inr v'"
    and len: "length (prev_11_timestamps (self v)) = 11"
    and height: "unat (block_height (self v) + 1) + length hs \<le> 4294967296"
    and i: "11 \<le> i" "i < length hs"
  shows "median (map header_time (take 11 (drop (i - 11) hs))) < header_time (hs ! i)"
proof -
  obtain u w where u: "rfold (apply_header net sha) (take i hs) v = Inr u"
    and w: "apply_header net sha (hs ! i) u = Inr w"
    using rfold_at [OF run i(2)] by blast
  let ?n = "unat (block_height (self v) + 1) + (i - 11)" and ?ts = "map header_time (take 11 (drop (i - 11) hs))"
  have "mset (prev_11_timestamps (self u)) = mset ?ts"
  proof (rule mset_ring [where n = ?n])
    show "length (prev_11_timestamps (self u)) = 11" using apply_headers_linked [OF u] len by simp
    show "length ?ts = 11" using i by simp
    fix j :: nat assume j: "j < 11"
    have "prev_11_timestamps (self u) ! ((unat (block_height (self v) + 1) + (i - 11 + j)) mod 11)
            = header_time (take i hs ! (i - 11 + j))"
      by (rule ring_times [OF u len]) (use height i j in simp_all)
    then show "prev_11_timestamps (self u) ! ((?n + j) mod 11) = ?ts ! j"
      using i j by (simp add: add.assoc)
  qed
  from median_mset [OF this] apply_header_facts(6) [OF w] show ?thesis by simp
qed

section \<open>Commitment to a state\<close>

definition chain_wf :: "chain_state \<Rightarrow> bool" where
  "chain_wf s \<longleftrightarrow> length (total_work s) = 32 \<and> length (best_block_hash s) = 32 \<and>
     length (prev_11_timestamps s) = 11 \<and> (\<forall>r \<in> set (subroots (block_hashes_mmr s)). length r = 32)"

lemma length_concat_fixed: "\<forall>x \<in> set xs. length x = n \<Longrightarrow> length (concat xs) = n * length xs"
  by (induction xs) auto

lemma concat_fixed_inject:
  assumes "concat xs = concat ys" "\<forall>x \<in> set xs. length x = n" "\<forall>y \<in> set ys. length y = n" "0 < n"
  shows "xs = ys"
proof -
  have "n * length xs = n * length ys"
    using assms(1) length_concat_fixed [OF assms(2)] length_concat_fixed [OF assms(3)] by (simp only:)
  then have "length xs = length ys" using assms(4) by simp
  with assms(1-3) show ?thesis
    by (intro concat_injective) (fastforce dest: set_zip_leftD set_zip_rightD)+
qed

lemma chain_state_preimage_inject:
  assumes "chain_wf s" "chain_wf t" "chain_state_preimage s = chain_state_preimage t"
  shows "s = t"
proof -
  have ts: "length (concat (map u32_to_le_bytes xs)) = 4 * length xs" for xs
    using length_concat_fixed [of "map u32_to_le_bytes xs" 4] by simp
  note e = assms(3) [unfolded chain_state_preimage_def]
  have parts: "block_height s = block_height t" "total_work s = total_work t"
      "best_block_hash s = best_block_hash t" "current_target_bits s = current_target_bits t"
      "epoch_start_time s = epoch_start_time t"
      "concat (map u32_to_le_bytes (prev_11_timestamps s)) = concat (map u32_to_le_bytes (prev_11_timestamps t))"
    and tail: "concat (subroots (block_hashes_mmr s)) @ u32_to_le_bytes (mmr_size (block_hashes_mmr s)) =
      concat (subroots (block_hashes_mmr t)) @ u32_to_le_bytes (mmr_size (block_hashes_mmr t))"
    using e assms(1,2) ts by (simp_all add: chain_wf_def append_eq_append_conv)
  have "map u32_to_le_bytes (prev_11_timestamps s) = map u32_to_le_bytes (prev_11_timestamps t)"
    by (rule concat_fixed_inject [OF parts(6), of 4]) auto
  then have times: "prev_11_timestamps s = prev_11_timestamps t"
    by (rule map_injective) (simp add: inj_def)
  have "concat (subroots (block_hashes_mmr s)) = concat (subroots (block_hashes_mmr t))"
    and size: "mmr_size (block_hashes_mmr s) = mmr_size (block_hashes_mmr t)"
    using tail by (simp_all add: append_eq_append_conv)
  then have "subroots (block_hashes_mmr s) = subroots (block_hashes_mmr t)"
    by (intro concat_fixed_inject [of _ _ 32]) (use assms(1,2) in \<open>auto simp: chain_wf_def\<close>)
  with parts times size show ?thesis by (simp add: chain_state.equality mmr_guest.equality)
qed

section \<open>Recursive proofs\<close>

text \<open>
  \<open>hc_receipt net sha m0 other out\<close>: the output \<open>out\<close> was committed by a run of this circuit, built
  with image id \<open>m0\<close>. The host may let the circuit verify receipts of this circuit under \<open>m0\<close>, and
  receipts \<open>other m out\<close> of arbitrary other programs under their own image ids \<open>m\<close>.
\<close>

inductive hc_receipt ::
  "network \<Rightarrow> hasher \<Rightarrow> method_id \<Rightarrow> (method_id \<Rightarrow> block_header_circuit_output \<Rightarrow> bool) \<Rightarrow>
   block_header_circuit_output \<Rightarrow> bool"
  for net sha m0 other where
  run: "header_chain_circuit net sha verify input = Inr out \<Longrightarrow>
        (\<forall>m r. verify m r \<longrightarrow> (if m = m0 then hc_receipt net sha m0 other r else other m r)) \<Longrightarrow>
        hc_receipt net sha m0 other out"

lemma header_chain_circuit_cases:
  assumes "header_chain_circuit net sha verify input = Inr out"
  obtains (genesis) gs where "prev_proof input = GenesisBlock gs" "genesis_state_hash out = to_hash sha gs"
      "apply_block_headers net sha (block_headers input) gs = Inr (hc_chain_state out)"
      "hc_method_id out = input_method_id input"
    | (prev) prev where "prev_proof input = PrevProof prev" "verify (hc_method_id out) prev"
      "hc_method_id prev = hc_method_id out" "genesis_state_hash out = genesis_state_hash prev"
      "apply_block_headers net sha (block_headers input) (hc_chain_state prev) = Inr (hc_chain_state out)"
  using assms
  by (cases "prev_proof input") (auto simp: header_chain_circuit_def)

lemma hc_receipt_trace:
  assumes "hc_receipt net sha m0 other out" "hc_method_id out = m0"
  shows "\<exists>gs batches. genesis_state_hash out = to_hash sha gs \<and>
           rfold (apply_block_headers net sha) batches gs = Inr (hc_chain_state out)"
  using assms
proof (induction rule: hc_receipt.induct)
  case (run verify input out)
  from run.hyps show ?case
  proof (cases rule: header_chain_circuit_cases)
    case (genesis gs)
    then have "rfold (apply_block_headers net sha) [block_headers input] gs = Inr (hc_chain_state out)" by simp
    with genesis show ?thesis by blast
  next
    case (prev prev)
    then have "hc_method_id prev = m0" using run.prems by simp
    with prev(2) run.IH run.prems obtain gs batches where
      "genesis_state_hash prev = to_hash sha gs"
      "rfold (apply_block_headers net sha) batches gs = Inr (hc_chain_state prev)"
      by metis
    with prev have "genesis_state_hash out = to_hash sha gs"
      "rfold (apply_block_headers net sha) (batches @ [block_headers input]) gs = Inr (hc_chain_state out)"
      by (simp_all add: rfold_append)
    then show ?thesis by blast
  qed
qed

section \<open>Concrete chains\<close>

text \<open>
  On regtest with a hash that is always zero every well-linked header with a new largest time is
  accepted: \<open>demo_chain n\<close> is a chain of \<open>n\<close> such headers on the genesis state.
\<close>

definition demo_header :: "u32 \<Rightarrow> circuit_block_header" where
  "demo_header t = \<lparr>version = 1, prev_block_hash = replicate 32 0, merkle_root = replicate 32 0,
     header_time = t, header_bits = 0x207FFFFF, header_nonce = 0\<rparr>"

lemma demo_hash [simp]: "compute_block_hash zero_sha h = replicate 32 0"
  by (simp add: compute_block_hash_def zero_sha_def Let_def)

lemma zero_hash_valid: "length t = 32 \<Longrightarrow> check_hash_valid (replicate 32 0) t = Inr ()"
  by (simp add: check_hash_valid_compare le_nat_def)

lemma median_less: "length xs = 11 \<Longrightarrow> \<forall>x \<in> set xs. x < t \<Longrightarrow> median xs < t"
  using nth_mem [of 5 "sort xs"] by (simp add: median_def)

lemma demo_accepts:
  assumes "best_block_hash (self v) = replicate 32 0" "length (current_target_bytes v) = 32"
    and "length (prev_11_timestamps (self v)) = 11" "\<forall>x \<in> set (prev_11_timestamps (self v)). x < t"
    and "mmr_guest_of zero_sha xs (block_hashes_mmr (self v))" "length xs + 1 < 4294967296"
  shows "\<exists>v'. apply_header Regtest zero_sha (demo_header t) v = Inr v' \<and>
     best_block_hash (self v') = replicate 32 0 \<and> length (current_target_bytes v') = 32 \<and>
     length (prev_11_timestamps (self v')) = 11 \<and> (\<forall>x \<in> set (prev_11_timestamps (self v')). x \<le> t) \<and>
     mmr_guest_of zero_sha (xs @ [replicate 32 0]) (block_hashes_mmr (self v'))"
proof -
  have med: "median (prev_11_timestamps (self v)) < t" using assms(3,4) by (rule median_less)
  obtain m where m: "mmr_guest_append zero_sha (replicate 32 0) (block_hashes_mmr (self v)) = Inr m"
      "mmr_guest_of zero_sha (xs @ [replicate 32 0]) m"
    using guest_range.append_of [OF assms(5,6)] by blast
  have ring: "\<forall>x \<in> set ((prev_11_timestamps (self v))[i := t]). x \<le> t" for i
    using assms(4) set_update_subset_insert [of "prev_11_timestamps (self v)" i t] by fastforce
  show ?thesis
    using assms(1-3) m med ring
    by (simp add: apply_header_def block_target_def Let_def IS_TESTNET4_def IS_REGTEST_def retarget_def
        demo_header_def zero_hash_valid validate_timestamp_def ensure_def NETWORK_CONSTANTS_def)
qed

definition demo_chain :: "nat \<Rightarrow> circuit_block_header list" where
  "demo_chain n = map (\<lambda>i. demo_header (of_nat (Suc i))) [0 ..< n]"

lemma demo_chain_accepted:
  "n < 4294967295 \<Longrightarrow> \<exists>v. rfold (apply_header Regtest zero_sha) (demo_chain n) (start_loop Regtest (genesis_state Regtest)) = Inr v \<and>
     best_block_hash (self v) = replicate 32 0 \<and> length (current_target_bytes v) = 32 \<and>
     length (prev_11_timestamps (self v)) = 11 \<and> (\<forall>x \<in> set (prev_11_timestamps (self v)). x \<le> of_nat n) \<and>
     mmr_guest_of zero_sha (replicate n (replicate 32 0)) (block_hashes_mmr (self v))"
proof (induction n)
  case 0
  then show ?case
    by (simp add: demo_chain_def start_loop_def genesis_state_def chain_state_new_def
        initial_target_def IS_REGTEST_def mmr_guest_new_of)
next
  case (Suc n)
  then obtain v where v: "rfold (apply_header Regtest zero_sha) (demo_chain n) (start_loop Regtest (genesis_state Regtest)) = Inr v"
     "best_block_hash (self v) = replicate 32 0" "length (current_target_bytes v) = 32"
     "length (prev_11_timestamps (self v)) = 11" "\<forall>x \<in> set (prev_11_timestamps (self v)). x \<le> of_nat n"
     "mmr_guest_of zero_sha (replicate n (replicate 32 0)) (block_hashes_mmr (self v))" by auto
  have lt: "(of_nat n :: u32) < of_nat (Suc n)"
    unfolding word_less_nat_alt using Suc.prems unat_u32_of_nat [of n] unat_u32_of_nat [of "Suc n"] by linarith
  then have "\<forall>x \<in> set (prev_11_timestamps (self v)). x < of_nat (Suc n)"
    using v(5) by (meson le_less_trans)
  from demo_accepts [OF v(2,3,4) this v(6)] Suc.prems obtain v' where
    v': "apply_header Regtest zero_sha (demo_header (of_nat (Suc n))) v = Inr v'"
     "best_block_hash (self v') = replicate 32 0" "length (current_target_bytes v') = 32"
     "length (prev_11_timestamps (self v')) = 11" "\<forall>x \<in> set (prev_11_timestamps (self v')). x \<le> of_nat (Suc n)"
     "mmr_guest_of zero_sha (replicate n (replicate 32 0) @ [replicate 32 0]) (block_hashes_mmr (self v'))" by auto
  then show ?case using v(1)
    by (auto simp: demo_chain_def rfold_append replicate_append_same simp del: of_nat_Suc)
qed

lemma demo_run: "n < 4294967295 \<Longrightarrow> \<exists>s'. apply_block_headers Regtest zero_sha (demo_chain n) (genesis_state Regtest) = Inr s'"
  using demo_chain_accepted [of n] by (auto simp: apply_block_headers_def)

lemma sum_same_bits: "\<forall>h \<in> set hs. header_bits h = b \<Longrightarrow> (\<Sum>h\<leftarrow>hs. f (header_bits h)) = length hs * f b"
  for f :: "u32 \<Rightarrow> nat"
  by (induction hs) simp_all

text \<open>
  A mainnet state one block before the end of an epoch, and a hash (the same for every header)
  between the truncated and the exact new target.
\<close>

definition split_hash :: bytes where
  "split_hash = nat_le 32 (0xFFFF * 5 * 2 ^ 200 div 7)"

definition split_state :: chain_state where
  "split_state = \<lparr>block_height = 2014, total_work = replicate 32 0, best_block_hash = split_hash,
     current_target_bits = 0x1C00FFFF, epoch_start_time = 0, prev_11_timestamps = replicate 11 0,
     block_hashes_mmr = mmr_guest_new\<rparr>"

definition split_header :: "u32 \<Rightarrow> u32 \<Rightarrow> circuit_block_header" where
  "split_header t b = \<lparr>version = 1, prev_block_hash = split_hash, merkle_root = replicate 32 0,
     header_time = t, header_bits = b, header_nonce = 0\<rparr>"

definition split_vars :: loop_vars where
  "split_vars = \<lparr>self = split_state\<lparr>block_height := 2015, current_target_bits := 0x1C00B6DA,
       prev_11_timestamps := (replicate 11 0)[2 := 864000],
       block_hashes_mmr := \<lparr>subroots = [split_hash], mmr_size = 1\<rparr>\<rparr>,
     current_target_bytes = calculate_new_difficulty Mainnet 0 864000 0x1C00FFFF,
     current_work = calculate_work (bits_to_target 0x1C00FFFF), last_block_time = 0\<rparr>"

lemma split_hash_value: "length split_hash = 32" "le_nat split_hash = 0xFFFF * 5 * 2 ^ 200 div 7"
  by (simp_all add: split_hash_def le_nat_nat_le)

lemma split_targets:
  "be_nat (bits_to_target 0x1C00FFFF) = 0xFFFF * 2 ^ 200"
  "be_nat (bits_to_target 0x1C00B6DA) = 0xB6DA * 2 ^ 200"
  "be_nat (calculate_new_difficulty Mainnet 0 864000 0x1C00FFFF) = 0xFFFF * 5 * 2 ^ 200 div 7"
  by (simp_all add: be_nat_bits_to_target compact_value_def be_nat_calculate_new_difficulty
      NETWORK_CONSTANTS_def expected_timespan_values clamp_timespan_def)

lemma split_bits: "target_to_bits (calculate_new_difficulty Mainnet 0 864000 0x1C00FFFF) = Inr 0x1C00B6DA"
proof -
  let ?t = "calculate_new_difficulty Mainnet 0 864000 0x1C00FFFF"
  have "bit_len (be_nat ?t) = 216" unfolding split_targets using bit_len_eqI [of 215] by simp
  then show ?thesis
    using target_to_bits_value [of ?t 27] split_targets(3) by simp
qed

lemma split_check:
  "check_hash_valid split_hash (bits_to_target 0x1C00FFFF) = Inr ()"
  "check_hash_valid split_hash (calculate_new_difficulty Mainnet 0 864000 0x1C00FFFF) = Inr ()"
  "check_hash_valid split_hash (bits_to_target 0x1C00B6DA) = Inl (Panic ''Hash is not valid'')"
  by (simp_all add: check_hash_valid_compare split_hash_value split_targets)

lemma split_compute [simp]: "compute_block_hash (\<lambda>_. split_hash) h = split_hash"
  by (simp add: compute_block_hash_def Let_def)

lemma split_first:
  "apply_header Mainnet (\<lambda>_. split_hash) (split_header 864000 0x1C00FFFF) (start_loop Mainnet split_state) = Inr split_vars"
  by (simp add: apply_header_def split_header_def start_loop_def split_state_def Let_def block_target_def
      IS_TESTNET4_def IS_REGTEST_def initial_target_def initial_block_time_def split_check ensure_def
      validate_timestamp_def median_def mmr_guest_append_def mmr_append_loop.simps mmr_guest_new_def
      retarget_def BLOCKS_PER_EPOCH_def split_bits split_vars_def u256_from_be_bytes_def)

lemma split_median: "median ((replicate 11 0)[2 := 864000]) < 864001"
  by (rule median_less) (auto simp: set_conv_nth nth_list_update)

lemma split_second:
  "\<exists>v. apply_header Mainnet (\<lambda>_. split_hash) (split_header 864001 0x1C00B6DA) split_vars = Inr v"
  by (simp add: apply_header_def split_header_def split_vars_def split_state_def Let_def block_target_def
      IS_TESTNET4_def IS_REGTEST_def split_check ensure_def
      validate_timestamp_def split_median mmr_guest_append_def mmr_append_loop.simps mmr_guest_new_def
      retarget_def BLOCKS_PER_EPOCH_def)

section \<open>Properties\<close>

text \<open>
  C2. The chain invariant. Accepting a batch of headers keeps the invariant of the state: the
  block hash range is the Merkle mountain range over the hashes of all blocks, the height is their
  number minus one, the best hash is the last of them; and the accepted headers form a chain on
  the previous best block.
\<close>

theorem apply_block_headers_invariant:
  assumes "chain_inv sha xs s" "apply_block_headers net sha hs s = Inr s'"
    and "length xs + length hs < 4294967296"
  shows "chain_inv sha (xs @ map (compute_block_hash sha) hs) s' \<and> linked sha (best_block_hash s) hs"
  using assms by (rule apply_block_headers_inv)

theorem apply_block_headers_invariant_witness:
  "\<exists>s'. chain_inv zero_sha ([] @ map (compute_block_hash zero_sha) (demo_chain 3)) s' \<and>
        linked zero_sha (best_block_hash (genesis_state Regtest)) (demo_chain 3)"
proof -
  obtain s' where s': "apply_block_headers Regtest zero_sha (demo_chain 3) (genesis_state Regtest) = Inr s'"
    using demo_run [of 3] by auto
  show ?thesis
    using apply_block_headers_invariant [OF chain_inv_genesis s'] by (auto simp: demo_chain_def)
qed

text \<open>
  C3. Proof of work. In a batch, every header up to and including the first one that completes an
  epoch has a hash at most the target that its own bits denote, on every network.
\<close>

theorem accepted_headers_have_work:
  assumes "apply_block_headers net sha hs s = Inr s'" "digest32 sha" "i < length hs"
    and "\<forall>j < i. \<not> retargets net (block_height s + 1 + of_nat j)"
  shows "le_nat (compute_block_hash sha (hs ! i)) \<le> be_nat (bits_to_target (header_bits (hs ! i)))"
proof -
  obtain v where v: "rfold (apply_header net sha) hs (start_loop net s) = Inr v"
    using assms(1) by (auto simp: apply_block_headers_def)
  obtain u w where u: "rfold (apply_header net sha) (take i hs) (start_loop net s) = Inr u"
    and w: "apply_header net sha (hs ! i) u = Inr w"
    using rfold_at [OF v assms(3)] by blast
  have "current_target_bytes u = initial_target net s" "current_target_bits (self u) = current_target_bits s"
    using target_stays [OF u] assms(3,4) by (simp_all add: start_loop_def)
  then show ?thesis
    by (intro apply_header_pow [OF w assms(2)]) (simp_all add: initial_target_def)
qed

theorem accepted_headers_have_work_witness:
  "le_nat (compute_block_hash zero_sha (demo_chain 3 ! 2)) \<le> be_nat (bits_to_target (header_bits (demo_chain 3 ! 2)))"
proof -
  obtain s' where s': "apply_block_headers Regtest zero_sha (demo_chain 3) (genesis_state Regtest) = Inr s'"
    using demo_run [of 3] by auto
  show ?thesis
    by (rule accepted_headers_have_work [OF s' digest32_zero_sha]) (simp_all add: demo_chain_def retargets_def)
qed

text \<open>
  C4. Median time past. In an accepted batch every header with at least eleven predecessors in the
  batch is later than the median time of the eleven headers before it: the ring buffer of the
  state, indexed by the height modulo 11, holds exactly those times.
\<close>

theorem accepted_headers_after_median:
  assumes "apply_block_headers net sha hs s = Inr s'" "length (prev_11_timestamps s) = 11"
    and "unat (block_height s + 1) + length hs \<le> 4294967296" "11 \<le> i" "i < length hs"
  shows "median (map header_time (take 11 (drop (i - 11) hs))) < header_time (hs ! i)"
proof -
  obtain v where v: "rfold (apply_header net sha) hs (start_loop net s) = Inr v"
    using assms(1) by (auto simp: apply_block_headers_def)
  show ?thesis by (rule accepted_after_median [OF v]) (use assms in \<open>simp_all add: start_loop_def\<close>)
qed

theorem accepted_headers_after_median_witness:
  "median (map header_time (take 11 (drop 1 (demo_chain 15)))) < header_time (demo_chain 15 ! 12)"
proof -
  obtain s' where s': "apply_block_headers Regtest zero_sha (demo_chain 15) (genesis_state Regtest) = Inr s'"
    using demo_run [of 15] by auto
  show ?thesis
    using accepted_headers_after_median [OF s', of 12]
    by (simp add: demo_chain_def genesis_state_def chain_state_new_def)
qed

text \<open>
  C6. Accumulated work. On every network, a batch that completes an epoch at most with its last
  header adds to the total work, for each of its headers, the work of the target that the bits of
  this header denote (on testnet4 this is the minimum work for a block that may use the maximum
  target after a gap of twenty minutes). The sum is taken modulo \<open>2 ^ 256\<close>.
\<close>

theorem apply_block_headers_work:
  assumes "apply_block_headers net sha hs s = Inr s'"
    and "\<forall>j. Suc j < length hs \<longrightarrow> \<not> retargets net (block_height s + 1 + of_nat j)"
  shows "be_nat (total_work s') =
           (be_nat (total_work s) + (\<Sum>h\<leftarrow>hs. unat (calculate_work (bits_to_target (header_bits h))))) mod 2 ^ 256"
proof -
  obtain v where v: "rfold (apply_header net sha) hs (start_loop net s) = Inr v"
    and s': "s' = finish_loop v"
    using assms(1) by (auto simp: apply_block_headers_def)
  have words: "sum_list (map f hs) = of_nat (\<Sum>h\<leftarrow>hs. unat (f h))" for f :: "circuit_block_header \<Rightarrow> u256"
    by (induction hs) simp_all
  have "current_work v = u256_from_be_bytes (total_work s) + (\<Sum>h\<leftarrow>hs. calculate_work (bits_to_target (header_bits h)))"
    using apply_headers_work [OF v] assms(2) by (simp add: start_loop_def initial_target_def)
  also have "\<dots> = of_nat (be_nat (total_work s) + (\<Sum>h\<leftarrow>hs. unat (calculate_work (bits_to_target (header_bits h)))))"
    by (simp add: u256_from_be_bytes_def words)
  finally have work: "current_work v = \<dots>" .
  have "total_work s' = u256_to_be_bytes (current_work v)" by (simp add: s' finish_loop_def)
  then show ?thesis by (simp only: be_nat_u256_to_be_bytes work unat_u256_of_nat)
qed

theorem apply_block_headers_work_witness:
  "\<exists>s'. apply_block_headers Regtest zero_sha (demo_chain 3) (genesis_state Regtest) = Inr s' \<and>
        be_nat (total_work s') = 6"
proof -
  obtain s' where s': "apply_block_headers Regtest zero_sha (demo_chain 3) (genesis_state Regtest) = Inr s'"
    using demo_run [of 3] by auto
  have "be_nat (total_work (genesis_state Regtest)) = 0"
    by (simp add: genesis_state_def chain_state_new_def)
  moreover have "unat (calculate_work (bits_to_target 0x207FFFFF)) = 2"
    by (simp add: unat_calculate_work be_nat_bits_to_target compact_value_def)
  moreover have "\<forall>h \<in> set (demo_chain 3). header_bits h = 0x207FFFFF" "length (demo_chain 3) = 3"
    by (simp_all add: demo_chain_def demo_header_def)
  note sum_same_bits [OF this(1), of "\<lambda>b. unat (calculate_work (bits_to_target b))", unfolded this(2)]
  ultimately show ?thesis using apply_block_headers_work [OF s'] s' by (simp add: retargets_def)
qed

text \<open>
  C5. Batch boundaries do not matter within an epoch. If the first part of a batch does not
  complete an epoch, proving the two parts one after the other gives the same result, state or
  panic, as proving them in one batch.
\<close>

theorem apply_block_headers_split:
  assumes "\<forall>j < length hs1. \<not> retargets net (block_height s + 1 + of_nat j)"
    and "hs1 = [] \<or> block_height s + of_nat (length hs1) \<noteq> - 1"
    and "length (prev_11_timestamps s) = 11"
  shows "apply_block_headers net sha (hs1 @ hs2) s =
           rbind (apply_block_headers net sha hs1 s) (apply_block_headers net sha hs2)"
  using assms by (rule apply_block_headers_append)

theorem apply_block_headers_split_witness:
  "apply_block_headers Regtest zero_sha (demo_chain 2 @ demo_chain 5) (genesis_state Regtest) =
     rbind (apply_block_headers Regtest zero_sha (demo_chain 2) (genesis_state Regtest))
       (apply_block_headers Regtest zero_sha (demo_chain 5))"
  by (rule apply_block_headers_split)
    (simp_all add: retargets_def demo_chain_def genesis_state_def chain_state_new_def)

text \<open>
  C7. Batch boundaries at the end of an epoch. After the block that completes an epoch the loop goes
  on with the exact new target, while a new batch starts from the truncated target that the compact
  bits denote. So when the first of two accepted headers completes an epoch, the hash of the second
  is at most the exact new target, and the same two headers are accepted one batch after the other
  if and only if this hash is also at most the target that its own bits denote.
\<close>

theorem batch_split_at_epoch_end:
  assumes "apply_block_headers net sha [h1, h2] s = Inr s'" "retargets net (block_height s + 1)" "digest32 sha"
  shows "le_nat (compute_block_hash sha h2) \<le>
       be_nat (calculate_new_difficulty net (epoch_start_time s) (header_time h1) (current_target_bits s)) \<and>
     ((\<exists>s2. rbind (apply_block_headers net sha [h1] s) (apply_block_headers net sha [h2]) = Inr s2) \<longleftrightarrow>
       le_nat (compute_block_hash sha h2) \<le> be_nat (bits_to_target (header_bits h2)))"
proof -
  obtain v1 v2 where v: "apply_header net sha h1 (start_loop net s) = Inr v1" "apply_header net sha h2 v1 = Inr v2"
    using assms(1) by (auto simp: apply_block_headers_def)
  show ?thesis
    using header_after_epoch_end [OF v(1) assms(2) v(2) assms(3)] v(1) by (auto simp: apply_block_headers_def)
qed

theorem batch_split_at_epoch_end_witness:
  "\<exists>sha h1 h2 s s'. apply_block_headers Mainnet sha [h1, h2] s = Inr s' \<and>
     \<not> (\<exists>s2. rbind (apply_block_headers Mainnet sha [h1] s) (apply_block_headers Mainnet sha [h2]) = Inr s2)"
proof -
  let ?h1 = "split_header 864000 0x1C00FFFF" and ?h2 = "split_header 864001 0x1C00B6DA"
  obtain s' where s': "apply_block_headers Mainnet (\<lambda>_. split_hash) [?h1, ?h2] split_state = Inr s'"
    using split_second by (auto simp: apply_block_headers_def split_first)
  have "digest32 (\<lambda>_. split_hash)" by (simp add: digest32_def split_hash_value)
  moreover have "retargets Mainnet (block_height split_state + 1)"
    by (simp add: retargets_def split_state_def IS_REGTEST_def BLOCKS_PER_EPOCH_def)
  moreover have "be_nat (bits_to_target (header_bits ?h2)) < le_nat (compute_block_hash (\<lambda>_. split_hash) ?h2)"
    by (simp add: split_header_def split_targets split_hash_value)
  ultimately show ?thesis using batch_split_at_epoch_end [OF s'] s' by (meson leD)
qed

text \<open>
  C1. A recursive proof goes back to a genesis state. If the output of a run of this circuit
  carries the image id of this circuit, its chain state results from the state committed to by
  its genesis hash by accepted batches of headers. The host may supply receipts of other programs
  under other image ids: the method id check excludes them.
\<close>

theorem header_chain_proof_trace:
  assumes "hc_receipt net sha m0 other out" "hc_method_id out = m0"
  shows "\<exists>gs batches. genesis_state_hash out = to_hash sha gs \<and>
           rfold (apply_block_headers net sha) batches gs = Inr (hc_chain_state out)"
  using assms by (rule hc_receipt_trace)

theorem header_chain_proof_trace_witness:
  "\<exists>(out :: block_header_circuit_output) gs batches. hc_method_id out = [7] \<and> genesis_state_hash out = to_hash zero_sha gs \<and>
     rfold (apply_block_headers Regtest zero_sha) batches gs = Inr (hc_chain_state out)"
proof -
  obtain s' where s': "apply_block_headers Regtest zero_sha (demo_chain 3) (genesis_state Regtest) = Inr s'"
    using demo_run [of 3] by auto
  define out where
    "out = \<lparr>hc_method_id = [7], genesis_state_hash = to_hash zero_sha (genesis_state Regtest), hc_chain_state = s'\<rparr>"
  let ?input = "\<lparr>input_method_id = [7], prev_proof = GenesisBlock (genesis_state Regtest), block_headers = demo_chain 3\<rparr>"
  have "header_chain_circuit Regtest zero_sha (\<lambda>_ _. False) ?input = Inr out"
    using s' by (simp add: header_chain_circuit_def out_def)
  then have r: "hc_receipt Regtest zero_sha [7] (\<lambda>_ _. False) out" by (rule hc_receipt.run) simp
  have m: "hc_method_id out = [7]" by (simp add: out_def)
  from header_chain_proof_trace [OF r m] m show ?thesis by blast
qed

text \<open>
  C11. The state hash commits to the state. Two well-formed chain states whose encodings are not a
  collision of SHA-256 have the same hash only if they are equal; the variable number of subroots
  causes no ambiguity.
\<close>

theorem to_hash_commits:
  assumes "chain_wf s" "chain_wf t"
    and "inj_on sha {chain_state_preimage s, chain_state_preimage t}"
    and "to_hash sha s = to_hash sha t"
  shows "s = t"
proof (rule chain_state_preimage_inject [OF assms(1,2)])
  show "chain_state_preimage s = chain_state_preimage t"
    by (rule inj_onD [OF assms(3)]) (use assms(4) in \<open>simp_all add: to_hash_def\<close>)
qed

theorem to_hash_commits_witness:
  "to_hash toy_sha (genesis_state Mainnet) = to_hash toy_sha (chain_state_new Mainnet) \<and>
   genesis_state Mainnet = chain_state_new Mainnet"
  using to_hash_commits [of "genesis_state Mainnet" "chain_state_new Mainnet" toy_sha]
  by (simp add: chain_wf_def genesis_state_def chain_state_new_def mmr_guest_new_def)

end
