(* ===== verification/Mmr_Proofs.thy ===== *)
theory Mmr_Proofs
  imports Mmr
begin

text \<open>
  Inclusion proofs of the Merkle mountain ranges: every proof \<open>MMRNative::generate_proof\<close> returns
  verifies against both structures, and a proof that \<open>MMRGuest::verify_proof\<close> accepts is about a
  leaf that was appended.
\<close>

unbundle bit_operations_syntax

section \<open>Generated proofs verify\<close>

text \<open>
  The siblings on the way from leaf \<open>i\<close> to its peak, and the position of that peak, by
  recursion over the levels.
\<close>

function sibling_path :: "hasher \<Rightarrow> bytes list \<Rightarrow> nat \<Rightarrow> bytes list" where
  "sibling_path sha xs i =
     (if length xs \<le> i \<or> (i = length xs - 1 \<and> odd (length xs)) then []
      else xs ! (if even i then i + 1 else i - 1) # sibling_path sha (pairs sha xs) (i div 2))"
  by pat_completeness auto
termination
  by (relation "measure (\<lambda>(sha, xs, i). length xs)") auto

declare sibling_path.simps [simp del]

function peak_pos :: "hasher \<Rightarrow> bytes list \<Rightarrow> nat \<Rightarrow> nat" where
  "peak_pos sha xs i =
     (if length xs \<le> i \<or> (i = length xs - 1 \<and> odd (length xs)) then length (peaks sha (pairs sha xs))
      else peak_pos sha (pairs sha xs) (i div 2))"
  by pat_completeness auto
termination
  by (relation "measure (\<lambda>(sha, xs, i). length xs)") auto

declare peak_pos.simps [simp del]

lemma leaf_cases:
  assumes "i < length (xs :: bytes list)"
  obtains (peak) "i = length xs - 1" "odd (length xs)"
    | (inner) "\<not> (i = length xs - 1 \<and> odd (length xs))" "i div 2 < length xs div 2"
      "(if even i then i + 1 else i - 1) < length xs" "2 \<le> length xs"
proof (cases "i = length xs - 1 \<and> odd (length xs)")
  case True
  then show ?thesis using peak by blast
next
  case False
  have "i div 2 < length xs div 2" using assms False by presburger
  moreover have "even i \<Longrightarrow> i + 1 < length xs" using assms False by presburger
  then have "(if even i then i + 1 else i - 1) < length xs" using assms by auto
  moreover have "2 \<le> length xs" using assms False by presburger
  ultimately show ?thesis using False inner by blast
qed

lemma generate_proof_loop_path:
  assumes "i < length xs" "length xs < 4294967296"
  shows "generate_proof_loop (pre @ levels sha xs) (of_nat i) (length pre) acc =
         Inr (acc @ sibling_path sha xs i)"
  using assms
proof (induction sha xs i arbitrary: pre acc rule: sibling_path.induct)
  case (1 sha xs i)
  have lv: "(pre @ levels sha xs) ! length pre = xs"
    by (simp add: nth_append levels_hd)
  have stop_iff: "(of_nat i :: u32) = of_nat (length xs) - 1 \<longleftrightarrow> i = length xs - 1"
  proof -
    have "unat (of_nat i :: u32) = i" using 1(2,3) by (intro unat_u32_of_nat) simp
    moreover have "unat (of_nat (length xs - 1) :: u32) = length xs - 1"
      using 1(3) by (intro unat_u32_of_nat) simp
    moreover have "(of_nat (length xs) :: u32) - 1 = of_nat (length xs - 1)"
      using 1(2) by simp
    ultimately show ?thesis by metis
  qed
  from \<open>i < length xs\<close> show ?case
  proof (cases rule: leaf_cases)
    case peak
    then have "length xs mod 2 = 1" by presburger
    moreover have "sibling_path sha xs i = []"
      using peak by (subst sibling_path.simps) simp
    ultimately show ?thesis
      using peak(1) by (subst generate_proof_loop.simps) (simp add: lv stop_iff del: One_nat_def)
  next
    case inner
    let ?s = "if even i then i + 1 else i - 1"
    have sib: "(if (of_nat i :: u32) mod 2 = 0 then of_nat i + 1 else of_nat i - 1) = (of_nat ?s :: u32)"
      using 1 by (auto simp: u32_mod2_eq_0 elim!: oddE)
    have us: "unat (of_nat ?s :: u32) = ?s" using inner 1 by (intro unat_u32_of_nat) linarith
    have dv: "(of_nat i :: u32) div 2 = of_nat (i div 2)"
      using 1(2,3) by (intro u32_of_nat_div2) simp
    have stop: "\<not> (i = length xs - 1 \<and> length xs mod 2 = 1)"
      using inner(1) by presburger
    have "generate_proof_loop (pre @ levels sha xs) (of_nat i) (length pre) acc =
          generate_proof_loop ((pre @ [xs]) @ levels sha (pairs sha xs)) (of_nat (i div 2))
            (length (pre @ [xs])) (acc @ [xs ! ?s])"
      using stop inner(3) us
      by (subst generate_proof_loop.simps, unfold lv stop_iff sib Let_def dv)
        (auto simp: levels_rec [OF inner(4)])
    also have "\<dots> = Inr ((acc @ [xs ! ?s]) @ sibling_path sha (pairs sha xs) (i div 2))"
      using 1 inner by (intro 1(1)) auto
    also have "(acc @ [xs ! ?s]) @ sibling_path sha (pairs sha xs) (i div 2) = acc @ sibling_path sha xs i"
      using inner(1) 1(2) by (subst (2) sibling_path.simps) (simp del: One_nat_def)
    finally show ?thesis .
  qed
qed

text \<open>Replaying the path from the leaf ends at the peak at \<open>peak_pos\<close>.\<close>

lemma bit_select: "k < 32 \<Longrightarrow> (idx :: u32) AND push_bit (k mod 32) 1 = 0 \<longleftrightarrow> \<not> bit idx k"
  by (simp add: push_bit_eq_mult and_exp_eq_0_iff_not_bit)

lemma mmr_replay_path:
  assumes "i < length xs" "k + length (sibling_path sha xs i) \<le> 32"
    and "\<And>j. j < length (sibling_path sha xs i) \<Longrightarrow> bit idx (k + j) \<longleftrightarrow> odd (i div 2 ^ j)"
  shows "peak_pos sha xs i < length (peaks sha xs) \<and>
         mmr_replay sha idx k (sibling_path sha xs i) (xs ! i) = peaks sha xs ! peak_pos sha xs i"
  using assms
proof (induction sha xs i arbitrary: k rule: sibling_path.induct)
  case (1 sha xs i)
  from \<open>i < length xs\<close> show ?case
  proof (cases rule: leaf_cases)
    case peak
    then have "xs \<noteq> []" by auto
    with peak have "xs ! i = last xs" by (simp add: last_conv_nth)
    moreover have "sibling_path sha xs i = []"
      using peak by (subst sibling_path.simps) simp
    moreover have "peak_pos sha xs i = length (peaks sha (pairs sha xs))"
      using peak by (subst peak_pos.simps) simp
    ultimately show ?thesis
      using peak(2) by (simp add: peaks_odd)
  next
    case inner
    let ?s = "if even i then i + 1 else i - 1" and ?p = "sibling_path sha (pairs sha xs) (i div 2)"
    have path: "sibling_path sha xs i = xs ! ?s # ?p"
      using inner(1) 1(2) by (subst sibling_path.simps) (simp del: One_nat_def)
    have pos: "peak_pos sha xs i = peak_pos sha (pairs sha xs) (i div 2)"
      using inner(1) 1(2) by (subst peak_pos.simps) auto
    have k: "k < 32" using 1(3) path by simp
    have bit0: "bit idx k \<longleftrightarrow> odd i" using 1(4) [of 0] path by simp
    have step: "(if idx AND push_bit (k mod 32) 1 = 0 then hash_pair sha (xs ! i) (xs ! ?s)
                 else hash_pair sha (xs ! ?s) (xs ! i)) = pairs sha xs ! (i div 2)"
      unfolding bit_select [OF k] bit0 using inner(2) by (auto simp: pairs_nth elim!: oddE)
    have "peak_pos sha (pairs sha xs) (i div 2) < length (peaks sha (pairs sha xs)) \<and>
        mmr_replay sha idx (Suc k) ?p (pairs sha xs ! (i div 2)) =
        peaks sha (pairs sha xs) ! peak_pos sha (pairs sha xs) (i div 2)"
    proof (rule 1(1))
      show "\<not> (length xs \<le> i \<or> i = length xs - 1 \<and> odd (length xs))" using inner 1(2) by simp
      show "i div 2 < length (pairs sha xs)" using inner by simp
      show "Suc k + length ?p \<le> 32" using 1(3) path by simp
      show "bit idx (Suc k + j) \<longleftrightarrow> odd (i div 2 div 2 ^ j)" if "j < length ?p" for j
        using 1(4) [of "Suc j"] path that by (simp add: div_mult2_eq)
    qed
    moreover have "peaks sha xs = peaks sha (pairs sha xs) @ (if odd (length xs) then [last xs] else [])"
      by (auto simp: peaks_odd peaks_even)
    ultimately show ?thesis using step by (simp add: path pos nth_append)
  qed
qed


text \<open>The length of the path and the position of the peak, read off the binary digits.\<close>

lemma length_sibling_path:
  "i < length xs \<Longrightarrow> bit_len (length xs XOR i) = Suc (length (sibling_path sha xs i))"
proof (induction sha xs i rule: sibling_path.induct)
  case (1 sha xs i)
  from \<open>i < length xs\<close> show ?case
  proof (cases rule: leaf_cases)
    case peak
    then obtain m where m: "length xs = 2 * m + 1" by (blast elim: oddE)
    have "length xs XOR i = 1"
      using peak(1) m by (simp add: xor_nat_rec [of "Suc (2 * m)" "2 * m"])
    moreover have "sibling_path sha xs i = []"
      using peak by (subst sibling_path.simps) simp
    ultimately show ?thesis by (simp add: bit_len_pos)
  next
    case inner
    have path: "sibling_path sha xs i = xs ! (if even i then i + 1 else i - 1) #
                  sibling_path sha (pairs sha xs) (i div 2)"
      using inner(1) 1(2) by (subst sibling_path.simps) auto
    have half: "(length xs XOR i) div 2 = length xs div 2 XOR i div 2"
      by (rule bit_eqI) (simp add: bit_Suc [symmetric] bit_xor_iff)
    have "length xs XOR i \<noteq> 0"
    proof
      assume "length xs XOR i = 0"
      then have "length xs = i" by (simp add: bit_eq_iff bit_xor_iff)
      with 1(2) show False by simp
    qed
    then show ?thesis
      using 1(1) inner 1(2) by (simp add: path bit_len_pos half)
  qed
qed

lemma length_peaks:
  "length (peaks sha xs) = length (filter (bit (length xs)) [0 ..< bit_len (length xs)])"
proof (induction sha xs rule: peaks.induct)
  case (1 sha xs)
  show ?case
  proof (cases "xs = []")
    case False
    let ?n = "length xs"
    have "[0 ..< bit_len ?n] = 0 # map Suc [0 ..< bit_len (?n div 2)]"
      using False by (simp add: bit_len_pos map_Suc_upt upt_conv_Cons del: upt_Suc)
    then have "length (filter (bit ?n) [0 ..< bit_len ?n]) =
        (if odd ?n then 1 else 0) + length (filter (bit (?n div 2)) [0 ..< bit_len (?n div 2)])"
      by (simp add: filter_map comp_def bit_Suc bit_0)
    with 1(1) [OF False] False show ?thesis
      by (subst peaks.simps) simp
  qed simp
qed

lemma filter_bit_shift:
  "0 < n \<Longrightarrow> length (filter (bit (n :: nat)) [Suc a ..< bit_len n]) =
     length (filter (bit (n div 2)) [a ..< bit_len (n div 2)])"
proof -
  assume "0 < n"
  then have "[Suc a ..< bit_len n] = map Suc [a ..< bit_len (n div 2)]"
    by (simp add: bit_len_pos map_Suc_upt)
  then show ?thesis by (simp add: filter_map comp_def bit_Suc)
qed

lemma peak_pos_bits:
  "i < length xs \<Longrightarrow>
   peak_pos sha xs i =
     length (filter (bit (length xs)) [Suc (length (sibling_path sha xs i)) ..< bit_len (length xs)])"
proof (induction sha xs i rule: sibling_path.induct)
  case (1 sha xs i)
  have pos: "0 < length xs" using 1(2) by linarith
  from \<open>i < length xs\<close> show ?case
  proof (cases rule: leaf_cases)
    case peak
    have "sibling_path sha xs i = []"
      using peak by (subst sibling_path.simps) simp
    moreover have "peak_pos sha xs i = length (peaks sha (pairs sha xs))"
      using peak by (subst peak_pos.simps) simp
    ultimately show ?thesis
      using filter_bit_shift [OF pos, of 0] by (simp add: length_peaks)
  next
    case inner
    have "sibling_path sha xs i = xs ! (if even i then i + 1 else i - 1) #
                  sibling_path sha (pairs sha xs) (i div 2)"
      using inner(1) 1(2) by (subst sibling_path.simps) auto
    moreover have "peak_pos sha xs i = peak_pos sha (pairs sha xs) (i div 2)"
      using inner(1) 1(2) by (subst peak_pos.simps) auto
    ultimately show ?thesis
      using 1(1) inner 1(2) by (simp add: filter_bit_shift [OF pos])
  qed
qed


lemma helper_word:
  assumes "0 < bit_len n" "bit_len n \<le> 32"
  shows "(31 - of_nat (32 - bit_len n) :: u64) = of_nat (bit_len n - 1)"
proof -
  have "(31 :: u64) = of_nat 31" by simp
  also have "(of_nat 31 :: u64) - of_nat (32 - bit_len n) = of_nat (31 - (32 - bit_len n))"
    using assms by (intro of_nat_diff [symmetric]) linarith
  also have "31 - (32 - bit_len n) = bit_len n - 1" using assms by linarith
  finally show ?thesis .
qed

lemma get_helpers_from_index_levels:
  assumes "nodes m = levels sha xs" "i < length xs" "length xs < 4294967296"
  defines "d \<equiv> length (sibling_path sha xs i)"
  shows "get_helpers_from_index m (of_nat i) = (peak_pos sha xs i, take_bit d (of_nat i))" and "d < 32"
proof -
  let ?n = "length xs"
  have bounds: "?n < 2 ^ 32" "i < 2 ^ 32" using assms(2,3) by simp_all
  have xor: "unat ((of_nat ?n :: u32) XOR of_nat i) = ?n XOR i"
    using assms(2,3) by (simp add: unsigned_xor_eq)
  have "?n XOR i < 2 ^ 32"
    using unat_u32_less [of "of_nat ?n XOR of_nat i"] xor by simp
  then have len: "bit_len (?n XOR i) = Suc d" "bit_len (?n XOR i) \<le> 32"
    using length_sibling_path [OF assms(2)] bit_len_le by (simp_all add: d_def)
  then show "d < 32" by simp
  have "0 < ?n" using assms(2) by linarith
  then have lenn: "0 < bit_len ?n" "bit_len ?n \<le> 32"
    using bit_len_le [OF bounds(1)] by (auto simp: bit_len_pos)
  have x: "(31 - of_nat (leading_zeros (of_nat ?n XOR of_nat i)) :: u64) = of_nat d"
    unfolding leading_zeros_def xor using helper_word [of "?n XOR i"] len by simp
  have z: "(31 - of_nat (leading_zeros (of_nat ?n)) :: u64) = of_nat (bit_len ?n - 1)"
    unfolding leading_zeros_def using helper_word [of ?n] lenn assms(3) by simp
  have d: "unat (of_nat d :: u64) = d" "unat (of_nat d + 1 :: u64) = Suc d"
    using len unat_u64_of_nat [of d] unat_u64_of_nat [of "Suc d"] by (simp_all add: add.commute)
  have u: "unat (of_nat (bit_len ?n - 1) :: u64) + 1 = bit_len ?n"
    using lenn unat_u64_of_nat [of "bit_len ?n - 1"] by simp
  have mask: "(of_nat i :: u32) AND (push_bit (d mod 32) 1 - 1) = take_bit d (of_nat i)"
    using len by (simp add: take_bit_eq_mask mask_eq_exp_minus_1 push_bit_eq_mult)
  have sel: "filter (\<lambda>j. bit (of_nat ?n :: u64) (j mod 64)) [Suc d ..< bit_len ?n] =
             filter (bit ?n) [Suc d ..< bit_len ?n]"
    using lenn by (intro filter_cong) (auto simp: bit_of_nat_iff)
  show "get_helpers_from_index m (of_nat i) = (peak_pos sha xs i, take_bit d (of_nat i))"
    unfolding get_helpers_from_index_def assms(1) levels_hd Let_def x z d u mask sel
    using peak_pos_bits [OF assms(2), of sha] by (simp add: d_def)
qed

lemma generate_proof_of:
  assumes "mmr_native_of sha xs m" "i < length xs"
  shows "generate_proof m (of_nat i) =
           Inr (xs ! i, \<lparr>subroot_idx = peak_pos sha xs i,
                         internal_idx = take_bit (length (sibling_path sha xs i)) (of_nat i),
                         inclusion_proof = sibling_path sha xs i\<rparr>)"
  using assms generate_proof_loop_path [of i xs "[]" sha "[]"]
    get_helpers_from_index_levels(1) [of m sha xs i]
  by (auto simp: generate_proof_def mmr_native_of_def nth_checked_def levels_hd ensure_def)

lemma generated_proof_replays:
  assumes "i < length xs" "length xs < 4294967296"
  shows "peak_pos sha xs i < length (peaks sha xs) \<and>
         mmr_replay sha (take_bit (length (sibling_path sha xs i)) (of_nat i)) 0 (sibling_path sha xs i)
           (xs ! i) = peaks sha xs ! peak_pos sha xs i"
proof -
  let ?d = "length (sibling_path sha xs i)"
  have d: "?d < 32"
    using get_helpers_from_index_levels(2) [of "\<lparr>nodes = levels sha xs\<rparr>" sha xs i] assms by simp
  show ?thesis
  proof (rule mmr_replay_path)
    show "bit (take_bit ?d (of_nat i :: u32)) (0 + j) \<longleftrightarrow> odd (i div 2 ^ j)" if "j < ?d" for j
    proof -
      have "bit (take_bit ?d (of_nat i :: u32)) j \<longleftrightarrow> bit i j"
        using that d by (simp add: bit_take_bit_iff bit_of_nat_iff)
      then show ?thesis by (simp add: bit_iff_odd [of i])
    qed
  qed (use assms d in simp_all)
qed


section \<open>Only appended leaves verify\<close>

text \<open>
  The strings hashed while the range was built and while a proof is replayed. Collision
  freeness is asked of exactly these strings.
\<close>

fun pair_strings :: "bytes list \<Rightarrow> bytes list" where
  "pair_strings (x # y # xs) = (x @ y) # pair_strings xs"
| "pair_strings _ = []"

function mmr_strings :: "hasher \<Rightarrow> bytes list \<Rightarrow> bytes list" where
  "mmr_strings sha xs =
     (if length xs \<le> 1 then [] else pair_strings xs @ mmr_strings sha (pairs sha xs))"
  by pat_completeness auto
termination
  by (relation "measure (\<lambda>(sha, xs). length xs)") auto

declare mmr_strings.simps [simp del]

fun replay_strings :: "hasher \<Rightarrow> u32 \<Rightarrow> nat \<Rightarrow> bytes list \<Rightarrow> bytes \<Rightarrow> bytes list" where
  "replay_strings sha idx i [] current_hash = []"
| "replay_strings sha idx i (sibling # rest) current_hash =
     (let s = (if idx AND push_bit (i mod 32) 1 = 0 then current_hash @ sibling
               else sibling @ current_hash)
      in s # replay_strings sha idx (Suc i) rest (sha s))"

lemma pair_strings_nth:
  "j < length xs div 2 \<Longrightarrow> xs ! (2 * j) @ xs ! (2 * j + 1) \<in> set (pair_strings xs)"
proof (induction xs arbitrary: j rule: pair_strings.induct)
  case (1 x y xs)
  then show ?case by (cases j) auto
qed auto

lemma child_index:
  fixes n :: nat
  assumes "j < n div 2 ^ Suc k"
  shows "2 * j < n div 2 ^ k" and "2 * j + 1 < n div 2 ^ k"
proof -
  have "n div 2 ^ Suc k = n div 2 ^ k div 2"
    by (simp add: power_Suc2 div_mult2_eq del: power_Suc)
  with assms have "j < n div 2 ^ k div 2" by simp
  then show "2 * j < n div 2 ^ k" and "2 * j + 1 < n div 2 ^ k" by linarith+
qed

lemma mmr_strings_lvl:
  "j < length xs div 2 ^ Suc k \<Longrightarrow>
   lvl sha k xs ! (2 * j) @ lvl sha k xs ! (2 * j + 1) \<in> set (mmr_strings sha xs)"
proof (induction k arbitrary: xs)
  case 0
  then have "\<not> length xs \<le> 1" by (cases "length xs") auto
  with 0 show ?case
    using pair_strings_nth [of j xs] by (subst mmr_strings.simps) simp
next
  case (Suc k)
  then have "\<not> length xs \<le> 1"
    by (metis div_less le_less_trans less_nat_zero_code one_less_numeral_iff one_less_power
        semiring_norm(76) zero_less_Suc)
  moreover have "lvl sha k (pairs sha xs) ! (2 * j) @ lvl sha k (pairs sha xs) ! (2 * j + 1)
        \<in> set (mmr_strings sha (pairs sha xs))"
    using Suc.prems by (intro Suc.IH) (simp add: div_mult2_eq [symmetric])
  ultimately show ?case
    by (subst mmr_strings.simps) (simp add: lvl_pairs)
qed

lemma mmr_replay_snoc:
  "mmr_replay sha idx i (ss @ [s]) c =
     (let c' = mmr_replay sha idx i ss c in
      if idx AND push_bit ((i + length ss) mod 32) 1 = 0 then hash_pair sha c' s
      else hash_pair sha s c')"
  by (induction ss arbitrary: i c) simp_all

lemma replay_strings_snoc:
  "replay_strings sha idx i (ss @ [s]) c =
     replay_strings sha idx i ss c @
     [let c' = mmr_replay sha idx i ss c in
      if idx AND push_bit ((i + length ss) mod 32) 1 = 0 then c' @ s else s @ c']"
  by (induction ss arbitrary: i c) (simp_all add: Let_def hash_pair_def if_distrib)

lemma peaks_in_lvl: "p \<in> set (peaks sha xs) \<Longrightarrow> \<exists>k j. j < length xs div 2 ^ k \<and> p = lvl sha k xs ! j"
proof (induction sha xs rule: peaks.induct)
  case (1 sha xs)
  then have ne: "xs \<noteq> []" by auto
  from 1(2) ne consider "p \<in> set (peaks sha (pairs sha xs))" | "p = last xs"
    by (subst (asm) peaks.simps) (auto split: if_splits)
  then show ?case
  proof cases
    case 1
    then obtain k j where "j < length (pairs sha xs) div 2 ^ k" "p = lvl sha k (pairs sha xs) ! j"
      using "1.IH" ne by blast
    then show ?thesis
      by (intro exI [of _ "Suc k"] exI [of _ j]) (simp add: lvl_pairs div_mult2_eq)
  next
    case 2
    then show ?thesis
      using ne by (intro exI [of _ 0] exI [of _ "length xs - 1"]) (simp add: last_conv_nth)
  qed
qed

lemma length_lvl_nth:
  assumes "digest32 sha" "\<forall>x \<in> set xs. length x = 32" "j < length xs div 2 ^ k"
  shows "length (lvl sha k xs ! j) = 32"
proof (cases k)
  case 0
  with assms show ?thesis by simp
next
  case (Suc k')
  with assms show ?thesis by (simp add: lvl_nth del: length_lvl)
qed

text \<open>
  From a node of the forest back to the start of the replay: every step down is forced, because
  the string hashed on the path is the string hashed when the node was built.
\<close>

lemma mmr_replay_sound:
  assumes dig: "digest32 sha"
    and inj: "inj_on sha (set (mmr_strings sha (map sha ds)) \<union> set (replay_strings sha idx 0 ss (sha d))
                \<union> set ds \<union> {d})"
    and len: "\<forall>s \<in> set ds. length s = 32" "length d = 32" "\<forall>s \<in> set ss. length s = 32"
    and hit: "j < length ds div 2 ^ k" "mmr_replay sha idx 0 ss (sha d) = lvl sha k (map sha ds) ! j"
  shows "d \<in> set ds"
  using inj len(3) hit
proof (induction ss arbitrary: k j rule: rev_induct)
  case Nil
  let ?xs = "map sha ds"
  show ?case
  proof (cases k)
    case 0
    with Nil have eq: "sha d = sha (ds ! j)" and mem: "ds ! j \<in> set ds" by auto
    from Nil(1) eq have "d = ds ! j" by (rule inj_onD) (simp_all add: mem)
    with mem show ?thesis by simp
  next
    case (Suc k')
    let ?a = "lvl sha k' ?xs ! (2 * j)" and ?b = "lvl sha k' ?xs ! (2 * j + 1)"
    have eq: "sha d = sha (?a @ ?b)"
      using Nil(3,4) Suc by (simp add: lvl_nth hash_pair_def del: length_lvl)
    have mem: "?a @ ?b \<in> set (mmr_strings sha ?xs)"
      using Nil(3) Suc by (intro mmr_strings_lvl) simp
    from Nil(1) eq have "d = ?a @ ?b" by (rule inj_onD) (use mem in simp_all)
    moreover have "length ?a = 32"
      using child_index [of j "length ds" k'] Nil(3) Suc
      by (intro length_lvl_nth [OF dig]) (auto simp: dig)
    moreover have "length ?b = 32"
      using child_index [of j "length ds" k'] Nil(3) Suc
      by (intro length_lvl_nth [OF dig]) (auto simp: dig)
    ultimately show ?thesis using len(2) by simp
  qed
next
  case (snoc s ss)
  let ?xs = "map sha ds" and ?c = "mmr_replay sha idx 0 ss (sha d)"
  let ?str = "if idx AND push_bit (length ss mod 32) 1 = 0 then ?c @ s else s @ ?c"
  have out: "mmr_replay sha idx 0 (ss @ [s]) (sha d) = sha ?str"
    by (simp add: mmr_replay_snoc Let_def hash_pair_def)
  have str: "?str \<in> set (replay_strings sha idx 0 (ss @ [s]) (sha d))"
    by (simp add: replay_strings_snoc Let_def)
  have inj': "inj_on sha (set (mmr_strings sha ?xs) \<union> set (replay_strings sha idx 0 ss (sha d))
                \<union> set ds \<union> {d})"
    by (rule inj_on_subset [OF snoc(2)]) (auto simp: replay_strings_snoc)
  have lc: "length ?c = 32"
    by (cases ss rule: rev_cases) (simp_all add: dig mmr_replay_snoc Let_def)
  have ls: "length s = 32" using snoc(3) by simp
  show ?case
  proof (cases k)
    case 0
    then have eq: "sha ?str = sha (ds ! j)" and mem: "ds ! j \<in> set ds"
      using snoc(4,5) out by simp_all
    from snoc(2) eq have str_eq: "?str = ds ! j" by (rule inj_onD) (use str mem in simp_all)
    have "length ?str = 64" using lc ls by simp
    then have "length (ds ! j) = 64" unfolding str_eq .
    then show ?thesis using len(1) mem by auto
  next
    case (Suc k')
    let ?a = "lvl sha k' ?xs ! (2 * j)" and ?b = "lvl sha k' ?xs ! (2 * j + 1)"
    have jj: "2 * j < length ds div 2 ^ k'" "2 * j + 1 < length ds div 2 ^ k'"
      using child_index [of j "length ds" k'] snoc(4) Suc by auto
    have sheq: "sha ?str = sha (?a @ ?b)"
      using snoc(4,5) out Suc by (simp add: lvl_nth hash_pair_def del: length_lvl)
    have mem: "?a @ ?b \<in> set (mmr_strings sha ?xs)"
      using snoc(4) Suc by (intro mmr_strings_lvl) simp
    from snoc(2) sheq have eq: "?str = ?a @ ?b" by (rule inj_onD) (use str mem in simp_all)
    have la: "length ?a = 32"
      using jj by (intro length_lvl_nth [OF dig]) (auto simp: dig)
    have "?c = ?a \<or> ?c = ?b"
      using eq la lc ls by (auto split: if_splits)
    then show ?thesis
      using snoc.IH [OF inj', of "2 * j" k'] snoc.IH [OF inj', of "2 * j + 1" k'] snoc(3) jj by auto
  qed
qed

lemma mmr_guest_verify_sound:
  assumes "digest32 sha" "mmr_guest_of sha (map sha ds) m" "mmr_guest_verify_proof sha m (sha d) p"
    and "inj_on sha (set (mmr_strings sha (map sha ds)) \<union>
           set (replay_strings sha (internal_idx p) 0 (inclusion_proof p) (sha d)) \<union> set ds \<union> {d})"
    and "\<forall>s \<in> set ds. length s = 32" "length d = 32" "\<forall>s \<in> set (inclusion_proof p). length s = 32"
  shows "d \<in> set ds"
proof -
  have "mmr_replay sha (internal_idx p) 0 (inclusion_proof p) (sha d) \<in> set (peaks sha (map sha ds))"
    using assms(2,3)
    by (auto simp: mmr_guest_of_def mmr_guest_verify_proof_def list_get_def split: if_splits)
      (metis nth_mem)
  then obtain k j where "j < length (map sha ds) div 2 ^ k"
      "mmr_replay sha (internal_idx p) 0 (inclusion_proof p) (sha d) = lvl sha k (map sha ds) ! j"
    using peaks_in_lvl by blast
  with mmr_replay_sound [OF assms(1,4,5,6,7)] show ?thesis by simp
qed

section \<open>Properties\<close>

text \<open>
  C9. The two ranges agree. Appending any list of fewer than \<open>2 ^ 32\<close> leaves to a new \<open>MMRGuest\<close>
  and to a new \<open>MMRNative\<close> succeeds in both (no \<open>unwrap\<close> or index panics), converting the native
  range with \<open>to_guest_mmr\<close> gives exactly the guest range, and its size is the number of leaves.
\<close>

theorem mmr_guest_native_agree:
  assumes "length leaves < 4294967296"
  shows "\<exists>g n. rfold (mmr_guest_append sha) leaves mmr_guest_new = Inr g \<and>
               rfold (mmr_native_append sha) leaves mmr_native_new = Inr n \<and>
               to_guest_mmr n = Inr g \<and> unat (mmr_size g) = length leaves"
proof -
  obtain g where g: "rfold (mmr_guest_append sha) leaves mmr_guest_new = Inr g"
      "mmr_guest_of sha leaves g"
    using guest_range.build [OF assms, of sha] by blast
  obtain n where n: "rfold (mmr_native_append sha) leaves mmr_native_new = Inr n"
      "mmr_native_of sha leaves n"
    using native_range.build [OF assms, of sha] by blast
  obtain g' where g': "to_guest_mmr n = Inr g'" "mmr_guest_of sha leaves g'"
    using to_guest_mmr_of [OF n(2)] by blast
  with g(2) have "g' = g" by (blast intro: mmr_guest_of_unique)
  moreover have "unat (mmr_size g) = length leaves"
    using g(2) assms by (simp add: mmr_guest_of_def)
  ultimately show ?thesis using g n g' by blast
qed

theorem mmr_guest_native_agree_witness:
  "\<exists>g n. rfold (mmr_guest_append toy_sha) [[1], [2], [3]]
             mmr_guest_new = Inr g \<and>
         rfold (mmr_native_append toy_sha) [[1], [2], [3]]
             mmr_native_new = Inr n \<and>
         to_guest_mmr n = Inr g \<and> unat (mmr_size g) = 3"
  using mmr_guest_native_agree [of "[[1], [2], [3]]" toy_sha]
  by (simp del: rfold.simps add: numeral_3_eq_3)

text \<open>
  C10. Inclusion proofs are complete. In a native range that represents a list of leaves,
  \<open>generate_proof\<close> returns for every index below the number of leaves the leaf at that index and
  a proof that the native range and the guest range over the same leaves both accept.
\<close>

theorem mmr_proof_complete:
  assumes "mmr_native_of sha leaves n" "mmr_guest_of sha leaves g" "i < length leaves"
  shows "\<exists>p. generate_proof n (of_nat i) = Inr (leaves ! i, p) \<and>
             mmr_guest_verify_proof sha g (leaves ! i) p \<and>
             mmr_native_verify_proof sha n (leaves ! i) p"
proof -
  let ?p = "\<lparr>subroot_idx = peak_pos sha leaves i,
             internal_idx = take_bit (length (sibling_path sha leaves i)) (of_nat i),
             inclusion_proof = sibling_path sha leaves i\<rparr>"
  have "generate_proof n (of_nat i) = Inr (leaves ! i, ?p)"
    using assms(1,3) by (rule generate_proof_of)
  moreover have "mmr_guest_verify_proof sha g (leaves ! i) ?p"
    using assms(2) generated_proof_replays [OF assms(3), of sha]
    by (simp add: mmr_guest_verify_proof_def mmr_guest_of_def list_get_def)
  moreover have "mmr_native_verify_proof sha n (leaves ! i) ?p"
    using assms(1) generated_proof_replays [OF assms(3), of sha] get_subroots_levels [of n sha leaves]
    by (simp add: mmr_native_verify_proof_def mmr_native_of_def list_get_def get_subroot_def)
  ultimately show ?thesis by blast
qed

theorem mmr_proof_complete_witness:
  "\<exists>n g p. mmr_native_of toy_sha [[1], [2], [3], [4], [5]] n \<and>
           mmr_guest_of toy_sha [[1], [2], [3], [4], [5]] g \<and>
           generate_proof n 2 = Inr ([3], p) \<and> mmr_guest_verify_proof toy_sha g [3] p"
proof -
  let ?xs = "[[1], [2], [3], [4], [5]] :: bytes list"
  obtain n where n: "mmr_native_of toy_sha ?xs n"
    using native_range.build [of ?xs toy_sha] by auto
  obtain g where g: "mmr_guest_of toy_sha ?xs g"
    using guest_range.build [of ?xs toy_sha] by auto
  from mmr_proof_complete [OF n g, of 2] obtain p where
    "generate_proof n 2 = Inr ([3], p)" "mmr_guest_verify_proof toy_sha g [3] p"
    by auto
  with n g show ?thesis by blast
qed

text \<open>
  C8. Inclusion proofs are sound. Let the leaves of the guest range be digests of 32-byte strings,
  as block hashes are (the outer SHA-256 of a double SHA-256). If \<open>verify_proof\<close> accepts a proof
  for such a digest, whatever the index, position and path length in the proof, and SHA-256 has
  no collision among the strings hashed to build the range and to replay the proof, then the
  leaf is one of those appended.
\<close>

theorem mmr_proof_sound:
  assumes "digest32 sha" "mmr_guest_of sha (map sha ds) g" "mmr_guest_verify_proof sha g (sha d) p"
    and "inj_on sha (set (mmr_strings sha (map sha ds)) \<union>
           set (replay_strings sha (internal_idx p) 0 (inclusion_proof p) (sha d)) \<union> set ds \<union> {d})"
    and "\<forall>s \<in> set ds. length s = 32" "length d = 32" "\<forall>s \<in> set (inclusion_proof p). length s = 32"
  shows "sha d \<in> set (map sha ds)"
  using mmr_guest_verify_sound [OF assms] by simp

theorem mmr_proof_sound_witness:
  "let ds = [replicate 32 7, replicate 32 8]; x = toy_sha (replicate 32 7); y = toy_sha (replicate 32 8);
       g = \<lparr>subroots = [hash_pair toy_sha x y], mmr_size = 2\<rparr>;
       p = \<lparr>subroot_idx = 0, internal_idx = 1, inclusion_proof = [x]\<rparr>
   in mmr_guest_verify_proof toy_sha g y p \<and> y \<in> set (map toy_sha ds)"
proof -
  let ?d = "replicate 32 7 :: bytes" and ?e = "replicate 32 8 :: bytes"
  let ?x = "toy_sha ?d" and ?y = "toy_sha ?e"
  let ?g = "\<lparr>subroots = [hash_pair toy_sha ?x ?y], mmr_size = 2\<rparr>"
  let ?p = "\<lparr>subroot_idx = 0, internal_idx = 1, inclusion_proof = [?x]\<rparr>"
  have g: "mmr_guest_of toy_sha (map toy_sha [?d, ?e]) ?g"
    by (simp add: mmr_guest_of_def peaks.simps)
  have v: "mmr_guest_verify_proof toy_sha ?g ?y ?p"
    by (simp add: mmr_guest_verify_proof_def list_get_def)
  have strs: "set (mmr_strings toy_sha (map toy_sha [?d, ?e])) = {?x @ ?y}"
      "set (replay_strings toy_sha 1 0 [?x] ?y) = {?x @ ?y}"
    by (simp_all add: mmr_strings.simps)
  have neq: "?x \<noteq> ?y" "toy_sha (?x @ ?y) \<noteq> ?x" "toy_sha (?x @ ?y) \<noteq> ?y"
    by (simp_all add: toy_sha_def)
  have inj: "inj_on toy_sha (set (mmr_strings toy_sha (map toy_sha [?d, ?e])) \<union>
      set (replay_strings toy_sha (internal_idx ?p) 0 (inclusion_proof ?p) ?y) \<union> set [?d, ?e] \<union> {?e})"
    unfolding mmr_inclusion_proof.simps strs using neq by (simp add: inj_on_def)
  have "?y \<in> set (map toy_sha [?d, ?e])"
    by (rule mmr_proof_sound [OF digest32_toy_sha g v inj]) simp_all
  with v show ?thesis by (simp add: Let_def)
qed

text \<open>
  C15. \<open>generate_proof\<close> fails with the documented errors and only then: on a range that represents a
  list of leaves it returns the empty-range error when there are no leaves, the out-of-bounds
  error when the index is at or above the number of leaves, and a proof otherwise.
\<close>

theorem generate_proof_errors:
  assumes "mmr_native_of sha leaves n"
  shows "(leaves = [] \<longrightarrow> generate_proof n index = Inl (Err ''MMR Native is empty'')) \<and>
         (leaves \<noteq> [] \<and> length leaves \<le> unat index \<longrightarrow>
            generate_proof n index = Inl (Err ''Index out of bounds'')) \<and>
         (unat index < length leaves \<longrightarrow> (\<exists>r. generate_proof n index = Inr r))"
proof -
  have "nodes n ! 0 = leaves" "nodes n \<noteq> []"
    using assms by (simp_all add: mmr_native_of_def levels_hd)
  then show ?thesis
    using generate_proof_of [OF assms, of "unat index"]
    by (auto simp: generate_proof_def nth_checked_def ensure_def)
qed

theorem generate_proof_errors_witness:
  "mmr_native_of toy_sha [] mmr_native_new \<and>
   generate_proof mmr_native_new 0 = Inl (Err ''MMR Native is empty'')"
  using generate_proof_errors [OF mmr_native_new_of, of 0] mmr_native_new_of by simp

end
