(* ===== verification/Circuit_Tx.thy ===== *)
theory Circuit_Tx
  imports Hashes
begin

text \<open>
  Transactions as the circuits see them (\<open>src/circuits-lib/src/bridge_circuit/transaction.rs\<close> and the
  wrappers of \<open>structs.rs\<close>): the identifiers, and the hand-written borsh encodings. The encodings of
  integers, arrays and vectors are those of the \<open>borsh\<close> crate, a parameter \<open>B\<close>; the consensus
  encodings of the parts of a transaction are those of the \<open>bitcoin\<close> crate, a parameter \<open>E\<close>.
\<close>

section \<open>Transactions\<close>

record out_point =
  op_txid :: bytes
  op_vout :: u32

record tx_in =
  previous_output :: out_point
  script_sig :: bytes
  sequence :: u32
  witness :: "bytes list"

record tx_out =
  txo_value :: u64
  script_pubkey :: bytes

record transaction =
  tx_version :: i32
  lock_time :: u32
  tx_input :: "tx_in list"
  tx_output :: "tx_out list"

record consensus =
  enc_version :: "i32 \<Rightarrow> bytes"
  enc_input :: "tx_in list \<Rightarrow> bytes"
  enc_output :: "tx_out list \<Rightarrow> bytes"
  enc_lock_time :: "u32 \<Rightarrow> bytes"

definition tx_bytes :: "consensus \<Rightarrow> transaction \<Rightarrow> bytes" where
  "tx_bytes E tx = enc_version E (tx_version tx) @ enc_input E (tx_input tx)
                   @ enc_output E (tx_output tx) @ enc_lock_time E (lock_time tx)"

definition mid_state_txid :: "hasher \<Rightarrow> consensus \<Rightarrow> transaction \<Rightarrow> bytes" where
  "mid_state_txid sha E tx = calculate_sha256 sha (tx_bytes E tx)"

definition circuit_txid :: "hasher \<Rightarrow> consensus \<Rightarrow> transaction \<Rightarrow> bytes" where
  "circuit_txid sha E tx = calculate_sha256 sha (mid_state_txid sha E tx)"

section \<open>Readers and writers\<close>

text \<open>A reader consumes a prefix of the bytes; \<open>None\<close> is an I/O error.\<close>

type_synonym 'a reader = "bytes \<Rightarrow> ('a \<times> bytes) option"

definition de_bind :: "'a reader \<Rightarrow> ('a \<Rightarrow> 'b reader) \<Rightarrow> 'b reader" where
  "de_bind r f bs = (case r bs of None \<Rightarrow> None | Some (x, rest) \<Rightarrow> f x rest)"

definition de_return :: "'a \<Rightarrow> 'a reader" where
  "de_return x bs = Some (x, bs)"

primrec de_n :: "nat \<Rightarrow> 'a reader \<Rightarrow> 'a list reader" where
  "de_n 0 r = de_return []"
| "de_n (Suc n) r = de_bind r (\<lambda>x. de_bind (de_n n r) (\<lambda>xs. de_return (x # xs)))"

record borsh =
  ser_i32 :: "i32 \<Rightarrow> bytes"
  de_i32 :: "i32 reader"
  ser_u32 :: "u32 \<Rightarrow> bytes"
  de_u32 :: "u32 reader"
  ser_u64 :: "u64 \<Rightarrow> bytes"
  de_u64 :: "u64 reader"
  ser_usize :: "nat \<Rightarrow> bytes"
  de_usize :: "nat reader"
  ser_array32 :: "bytes \<Rightarrow> bytes"
  de_array32 :: "bytes reader"
  ser_vec_u8 :: "bytes \<Rightarrow> bytes"
  de_vec_u8 :: "bytes reader"
  ser_vec_vec_u8 :: "bytes list \<Rightarrow> bytes"
  de_vec_vec_u8 :: "bytes list reader"

definition serialize_txin :: "borsh \<Rightarrow> tx_in \<Rightarrow> bytes" where
  "serialize_txin B i =
     ser_array32 B (op_txid (previous_output i)) @ ser_u32 B (op_vout (previous_output i))
     @ ser_vec_u8 B (script_sig i) @ ser_u32 B (sequence i) @ ser_vec_vec_u8 B (witness i)"

definition deserialize_txin :: "borsh \<Rightarrow> tx_in reader" where
  "deserialize_txin B =
     de_bind (de_array32 B) (\<lambda>txid.
     de_bind (de_u32 B) (\<lambda>vout.
     de_bind (de_vec_u8 B) (\<lambda>script.
     de_bind (de_u32 B) (\<lambda>sq.
     de_bind (de_vec_vec_u8 B) (\<lambda>w.
     de_return \<lparr>previous_output = \<lparr>op_txid = txid, op_vout = vout\<rparr>, script_sig = script,
                sequence = sq, witness = w\<rparr>)))))"

definition serialize_txout :: "borsh \<Rightarrow> tx_out \<Rightarrow> bytes" where
  "serialize_txout B out = ser_u64 B (txo_value out) @ ser_vec_u8 B (script_pubkey out)"

definition deserialize_txout :: "borsh \<Rightarrow> tx_out reader" where
  "deserialize_txout B =
     de_bind (de_u64 B) (\<lambda>v.
     de_bind (de_vec_u8 B) (\<lambda>script.
     de_return \<lparr>txo_value = v, script_pubkey = script\<rparr>))"

definition serialize_transaction :: "borsh \<Rightarrow> transaction \<Rightarrow> bytes" where
  "serialize_transaction B tx =
     ser_i32 B (tx_version tx) @ ser_u32 B (lock_time tx)
     @ ser_usize B (length (tx_input tx)) @ concat (map (serialize_txin B) (tx_input tx))
     @ ser_usize B (length (tx_output tx)) @ concat (map (serialize_txout B) (tx_output tx))"

definition deserialize_transaction :: "borsh \<Rightarrow> transaction reader" where
  "deserialize_transaction B =
     de_bind (de_i32 B) (\<lambda>version.
     de_bind (de_u32 B) (\<lambda>lt.
     de_bind (de_usize B) (\<lambda>input_len.
     de_bind (de_n input_len (deserialize_txin B)) (\<lambda>inputs.
     de_bind (de_usize B) (\<lambda>output_len.
     de_bind (de_n output_len (deserialize_txout B)) (\<lambda>outputs.
     de_return \<lparr>tx_version = version, lock_time = lt, tx_input = inputs, tx_output = outputs\<rparr>))))))"

definition serialize_witness :: "borsh \<Rightarrow> bytes list \<Rightarrow> bytes" where
  "serialize_witness B w = ser_vec_vec_u8 B w"

definition deserialize_witness :: "borsh \<Rightarrow> bytes list reader" where
  "deserialize_witness B = de_bind (de_vec_vec_u8 B) de_return"

text \<open>\<open>CircuitTxid\<close> writes the fixed-size array and reads a vector.\<close>

definition serialize_circuit_txid :: "borsh \<Rightarrow> bytes \<Rightarrow> bytes" where
  "serialize_circuit_txid B txid = ser_array32 B txid"

definition deserialize_circuit_txid :: "borsh \<Rightarrow> bytes reader" where
  "deserialize_circuit_txid B =
     de_bind (de_vec_u8 B) (\<lambda>data rest. if length data = 32 then Some (data, rest) else None)"

section \<open>The interface of a codec\<close>

text \<open>A writer and a reader that undoes it on every valid value, whatever follows.\<close>

locale codec =
  fixes ser :: "'a \<Rightarrow> bytes" and de :: "'a reader" and valid :: "'a \<Rightarrow> bool"
  assumes roundtrip: "valid x \<Longrightarrow> de (ser x @ rest) = Some (x, rest)"
begin

lemma bind_roundtrip: "valid x \<Longrightarrow> de_bind de f (ser x @ rest) = f x rest"
  by (simp add: de_bind_def roundtrip)

lemma list_roundtrip:
  "\<forall>x \<in> set xs. valid x \<Longrightarrow> de_n (length xs) de (concat (map ser xs) @ rest) = Some (xs, rest)"
proof (induction xs)
  case Nil
  then show ?case by (simp add: de_return_def)
next
  case (Cons x xs)
  have "de_n (length xs) de (concat (map ser xs) @ rest) = Some (xs, rest)"
    using Cons by simp
  then have "de_bind (de_n (length xs) de) (\<lambda>ys. de_return (x # ys)) (concat (map ser xs) @ rest)
      = Some (x # xs, rest)"
    by (simp add: de_bind_def [of "de_n (length xs) de"] de_return_def)
  with Cons.prems show ?case by (simp add: bind_roundtrip)
qed

lemma list_bind_roundtrip:
  "\<forall>x \<in> set xs. valid x \<Longrightarrow> de_bind (de_n (length xs) de) f (concat (map ser xs) @ rest) = f xs rest"
  by (simp add: de_bind_def [of "de_n (length xs) de"] list_roundtrip)

lemma encoding_inject: "valid x \<Longrightarrow> valid y \<Longrightarrow> ser x = ser y \<Longrightarrow> x = y"
  using roundtrip [of x "[]"] roundtrip [of y "[]"] by simp

end

text \<open>The documented round trips of the crate, for values that fit its length fields.\<close>

definition vec_fits :: "'a list \<Rightarrow> bool" where
  "vec_fits xs \<longleftrightarrow> length xs < 4294967296"

definition borsh_laws :: "borsh \<Rightarrow> bool" where
  "borsh_laws B \<longleftrightarrow>
     codec (ser_i32 B) (de_i32 B) (\<lambda>_. True) \<and> codec (ser_u32 B) (de_u32 B) (\<lambda>_. True) \<and>
     codec (ser_u64 B) (de_u64 B) (\<lambda>_. True) \<and>
     codec (ser_usize B) (de_usize B) (\<lambda>n. n < 18446744073709551616) \<and>
     codec (ser_array32 B) (de_array32 B) (\<lambda>x. length x = 32) \<and>
     codec (ser_vec_u8 B) (de_vec_u8 B) vec_fits \<and>
     codec (ser_vec_vec_u8 B) (de_vec_vec_u8 B) (\<lambda>w. vec_fits w \<and> (\<forall>x \<in> set w. vec_fits x))"

definition valid_txin :: "tx_in \<Rightarrow> bool" where
  "valid_txin i \<longleftrightarrow> length (op_txid (previous_output i)) = 32 \<and> vec_fits (script_sig i) \<and>
     vec_fits (witness i) \<and> (\<forall>x \<in> set (witness i). vec_fits x)"

definition valid_txout :: "tx_out \<Rightarrow> bool" where
  "valid_txout out \<longleftrightarrow> vec_fits (script_pubkey out)"

definition valid_transaction :: "transaction \<Rightarrow> bool" where
  "valid_transaction tx \<longleftrightarrow>
     length (tx_input tx) < 18446744073709551616 \<and> length (tx_output tx) < 18446744073709551616 \<and>
     (\<forall>i \<in> set (tx_input tx). valid_txin i) \<and> (\<forall>out \<in> set (tx_output tx). valid_txout out)"

lemma borsh_binds:
  assumes "borsh_laws B"
  shows "de_bind (de_i32 B) f1 (ser_i32 B v @ rest) = f1 v rest"
    and "de_bind (de_u32 B) f2 (ser_u32 B a @ rest) = f2 a rest"
    and "de_bind (de_u64 B) f3 (ser_u64 B b @ rest) = f3 b rest"
    and "n < 18446744073709551616 \<Longrightarrow> de_bind (de_usize B) f4 (ser_usize B n @ rest) = f4 n rest"
    and "length x = 32 \<Longrightarrow> de_bind (de_array32 B) f5 (ser_array32 B x @ rest) = f5 x rest"
    and "vec_fits y \<Longrightarrow> de_bind (de_vec_u8 B) f6 (ser_vec_u8 B y @ rest) = f6 y rest"
    and "vec_fits w \<Longrightarrow> \<forall>u \<in> set w. vec_fits u \<Longrightarrow>
         de_bind (de_vec_vec_u8 B) f7 (ser_vec_vec_u8 B w @ rest) = f7 w rest"
  using assms unfolding borsh_laws_def by (auto intro: codec.bind_roundtrip)

lemma txin_codec: "borsh_laws B \<Longrightarrow> codec (serialize_txin B) (deserialize_txin B) valid_txin"
  by unfold_locales
    (simp add: serialize_txin_def deserialize_txin_def valid_txin_def borsh_binds de_return_def)

lemma txout_codec: "borsh_laws B \<Longrightarrow> codec (serialize_txout B) (deserialize_txout B) valid_txout"
  by unfold_locales
    (simp add: serialize_txout_def deserialize_txout_def valid_txout_def borsh_binds de_return_def)

lemma witness_codec:
  "borsh_laws B \<Longrightarrow> codec (serialize_witness B) (deserialize_witness B) (\<lambda>w. vec_fits w \<and> (\<forall>x \<in> set w. vec_fits x))"
  by unfold_locales (simp add: serialize_witness_def deserialize_witness_def borsh_binds de_return_def)

lemma transaction_codec:
  assumes "borsh_laws B"
  shows "codec (serialize_transaction B) (deserialize_transaction B) valid_transaction"
proof
  fix tx rest assume "valid_transaction tx"
  then show "deserialize_transaction B (serialize_transaction B tx @ rest) = Some (tx, rest)"
    using assms
    by (simp add: serialize_transaction_def deserialize_transaction_def valid_transaction_def
        borsh_binds de_return_def codec.list_bind_roundtrip [OF txin_codec [OF assms]]
        codec.list_bind_roundtrip [OF txout_codec [OF assms]])
qed

section \<open>The borsh format\<close>

text \<open>
  The encodings of the borsh specification: little-endian integers, arrays without and vectors with
  a 4-byte length. They satisfy the laws.
\<close>

definition de_take :: "nat \<Rightarrow> bytes reader" where
  "de_take n bs = (if n \<le> length bs then Some (take n bs, drop n bs) else None)"

definition spec_ser_vec :: "bytes \<Rightarrow> bytes" where
  "spec_ser_vec x = nat_le 4 (length x) @ x"

definition spec_de_vec :: "bytes reader" where
  "spec_de_vec = de_bind (de_take 4) (\<lambda>n. de_take (le_nat n))"

definition borsh_spec :: borsh where
  "borsh_spec =
     \<lparr>ser_i32 = u32_to_le_bytes, de_i32 = de_bind (de_take 4) (\<lambda>x. de_return (u32_from_le_bytes x)),
      ser_u32 = u32_to_le_bytes, de_u32 = de_bind (de_take 4) (\<lambda>x. de_return (u32_from_le_bytes x)),
      ser_u64 = (\<lambda>w. nat_le 8 (unat w)), de_u64 = de_bind (de_take 8) (\<lambda>x. de_return (of_nat (le_nat x))),
      ser_usize = nat_le 8, de_usize = de_bind (de_take 8) (\<lambda>x. de_return (le_nat x)),
      ser_array32 = (\<lambda>x. x), de_array32 = de_take 32,
      ser_vec_u8 = spec_ser_vec, de_vec_u8 = spec_de_vec,
      ser_vec_vec_u8 = (\<lambda>w. nat_le 4 (length w) @ concat (map spec_ser_vec w)),
      de_vec_vec_u8 = de_bind (de_take 4) (\<lambda>n. de_n (le_nat n) spec_de_vec)\<rparr>"

lemma de_take_append: "length x = n \<Longrightarrow> de_take n (x @ rest) = Some (x, rest)"
  by (simp add: de_take_def)

lemma de_take_bind: "length x = n \<Longrightarrow> de_bind (de_take n) f (x @ rest) = f x rest"
  by (simp add: de_bind_def de_take_append)

lemma le_nat_len: "n < 4294967296 \<Longrightarrow> le_nat (nat_le 4 n) = n"
  by (simp add: le_nat_nat_le)

lemma spec_vec_codec: "codec spec_ser_vec spec_de_vec vec_fits"
  by unfold_locales
    (simp add: spec_ser_vec_def spec_de_vec_def vec_fits_def de_take_bind de_take_append le_nat_len)

lemma borsh_spec_laws: "borsh_laws borsh_spec"
proof -
  have u64: "unat (w :: u64) < 256 ^ 8" for w using unsigned_less [of w] by simp
  show ?thesis
    unfolding borsh_laws_def
    by (intro conjI; unfold_locales)
      (simp_all add: borsh_spec_def de_take_bind de_take_append de_return_def u32_from_to_le_bytes
        le_nat_nat_le u64 [simplified] vec_fits_def le_nat_len codec.roundtrip [OF spec_vec_codec]
        codec.list_roundtrip [OF spec_vec_codec])
qed

interpretation borsh_vec: codec spec_ser_vec spec_de_vec vec_fits
  by (rule spec_vec_codec)

interpretation borsh_tx: codec "serialize_transaction borsh_spec" "deserialize_transaction borsh_spec" valid_transaction
  by (rule transaction_codec [OF borsh_spec_laws])

section \<open>Properties\<close>

text \<open>
  C21. Transactions survive the circuit's encoding. For any encoding of integers, arrays and vectors
  with the round trips of borsh, reading back a written transaction gives the same transaction and
  leaves exactly the bytes that follow, and two transactions with the same encoding are equal.
\<close>

theorem transaction_roundtrip:
  assumes "borsh_laws B" "valid_transaction tx" "valid_transaction tx'"
  shows "deserialize_transaction B (serialize_transaction B tx @ rest) = Some (tx, rest) \<and>
         (serialize_transaction B tx = serialize_transaction B tx' \<longrightarrow> tx = tx')"
  using codec.roundtrip [OF transaction_codec [OF assms(1)] assms(2)]
    codec.encoding_inject [OF transaction_codec [OF assms(1)] assms(2,3)] by blast

definition demo_tx :: transaction where
  "demo_tx = \<lparr>tx_version = 2, lock_time = 0,
     tx_input = [\<lparr>previous_output = \<lparr>op_txid = replicate 32 1, op_vout = 0\<rparr>, script_sig = [],
                  sequence = 5, witness = [[1, 2], [3]]\<rparr>],
     tx_output = [\<lparr>txo_value = 1000, script_pubkey = [81]\<rparr>, \<lparr>txo_value = 7, script_pubkey = []\<rparr>]\<rparr>"

theorem transaction_roundtrip_witness:
  "deserialize_transaction borsh_spec (serialize_transaction borsh_spec demo_tx @ [9]) = Some (demo_tx, [9])"
  using transaction_roundtrip [OF borsh_spec_laws, of demo_tx demo_tx "[9]"]
  by (simp add: valid_transaction_def demo_tx_def valid_txin_def valid_txout_def vec_fits_def)

text \<open>
  C22. A \<open>CircuitTxid\<close> cannot be read back. It is written as a fixed-size array, which borsh writes
  without a length, and read as a vector, which borsh reads as a 4-byte length and that many bytes:
  reading the 32 bytes written for any transaction id fails.
\<close>

theorem circuit_txid_no_roundtrip:
  assumes "ser_array32 B txid = txid" "length txid = 32"
    and "\<forall>bs x rest. de_vec_u8 B bs = Some (x, rest) \<longrightarrow> bs = nat_le 4 (length x) @ x @ rest"
  shows "deserialize_circuit_txid B (serialize_circuit_txid B txid) = None"
proof (cases "de_vec_u8 B txid")
  case None
  then show ?thesis using assms(1)
    by (simp add: deserialize_circuit_txid_def serialize_circuit_txid_def de_bind_def)
next
  case (Some p)
  obtain x rest where p: "p = (x, rest)" by (cases p)
  with Some assms(3) have "txid = nat_le 4 (length x) @ x @ rest" by blast
  then have "32 = 4 + length x + length rest"
    using assms(2) by (metis length_append length_nat_le add.assoc)
  then have "length x \<noteq> 32" by linarith
  with Some p assms(1) show ?thesis
    by (simp add: deserialize_circuit_txid_def serialize_circuit_txid_def de_bind_def)
qed

lemma spec_de_vec_format:
  assumes "spec_de_vec bs = Some (x, rest)"
  shows "bs = nat_le 4 (length x) @ x @ rest"
proof -
  from assms have len: "4 \<le> length bs" and n: "le_nat (take 4 bs) \<le> length (drop 4 bs)"
    and x: "x = take (le_nat (take 4 bs)) (drop 4 bs)" "rest = drop (le_nat (take 4 bs)) (drop 4 bs)"
    by (auto simp: spec_de_vec_def de_bind_def de_take_def split: if_splits)
  have "nat_le 4 (length x) = take 4 bs"
    using nat_le_le_nat [of "take 4 bs" 4] len n x(1) by simp
  moreover have "x @ rest = drop 4 bs" unfolding x by (rule append_take_drop_id)
  ultimately show ?thesis by (simp only: append_take_drop_id)
qed

theorem circuit_txid_no_roundtrip_witness:
  "deserialize_circuit_txid borsh_spec (serialize_circuit_txid borsh_spec (replicate 32 0)) = None"
proof (rule circuit_txid_no_roundtrip)
  show "\<forall>bs x rest. de_vec_u8 borsh_spec bs = Some (x, rest) \<longrightarrow> bs = nat_le 4 (length x) @ x @ rest"
    using spec_de_vec_format by (simp add: borsh_spec_def)
qed (simp_all add: borsh_spec_def)

end
