(* ===== verification/Merkle_Tree.thy ===== *)
theory Merkle_Tree
  imports Circuit_Tx
begin

text \<open>
  Merkle trees of transactions (\<open>src/circuits-lib/src/bridge_circuit/merkle_tree.rs\<close>): the standard
  Bitcoin tree, the mid-state tree whose nodes are the inner SHA-256 digests of the standard ones,
  and inclusion proofs on the mid-state tree.
\<close>

section \<open>Trees and proofs\<close>

record bitcoin_merkle_tree =
  tree_nodes :: "bytes list list"

definition standard_pair :: "hasher \<Rightarrow> bytes \<Rightarrow> bytes \<Rightarrow> bytes" where
  "standard_pair sha left right = calculate_double_sha256 sha (left @ right)"

definition mid_state_pair :: "hasher \<Rightarrow> bytes \<Rightarrow> bytes \<Rightarrow> bytes" where
  "mid_state_pair sha left right = calculate_sha256 sha (calculate_sha256 sha left @ calculate_sha256 sha right)"

text \<open>One round of the \<open>while prev_level_size > 1\<close> loop: the pairs, then an odd last node with itself.\<close>

fun next_level :: "(bytes \<Rightarrow> bytes \<Rightarrow> bytes) \<Rightarrow> bytes list \<Rightarrow> bytes list result" where
  "next_level pair (l # r # rest) =
     rbind (ensure (l \<noteq> r) (Panic ''Duplicate hashes in the Merkle tree, indicating mutation'')) (\<lambda>_.
     rbind (next_level pair rest) (\<lambda>ns. Inr (pair l r # ns)))"
| "next_level pair [l] = Inr [pair l l]"
| "next_level pair [] = Inr []"

lemma next_level_length: "next_level pair xs = Inr ys \<Longrightarrow> length ys = (length xs + 1) div 2"
  by (induction pair xs arbitrary: ys rule: next_level.induct) auto

function build_levels :: "(bytes \<Rightarrow> bytes \<Rightarrow> bytes) \<Rightarrow> bytes list \<Rightarrow> bytes list list result" where
  "build_levels pair prev =
     (if length prev \<le> 1 then Inr [prev]
      else case next_level pair prev of
             Inl e \<Rightarrow> Inl e
           | Inr next \<Rightarrow> rbind (build_levels pair next) (\<lambda>levels. Inr (prev # levels)))"
  by pat_completeness auto
termination
  by (relation "measure (\<lambda>(pair, prev). length prev)") (auto dest!: next_level_length [OF sym] next_level_length)

declare build_levels.simps [simp del]

definition merkle_tree_new :: "hasher \<Rightarrow> bytes list \<Rightarrow> bitcoin_merkle_tree result" where
  "merkle_tree_new sha txids =
     (if length txids = 1 then Inr \<lparr>tree_nodes = [txids]\<rparr>
      else rbind (build_levels (standard_pair sha) txids) (\<lambda>levels. Inr \<lparr>tree_nodes = levels\<rparr>))"

definition merkle_root_of :: "bitcoin_merkle_tree \<Rightarrow> bytes result" where
  "merkle_root_of t =
     rbind (nth_checked (tree_nodes t) (length (tree_nodes t) - 1)) (\<lambda>top. nth_checked top 0)"

definition new_mid_state :: "hasher \<Rightarrow> consensus \<Rightarrow> transaction list \<Rightarrow> bitcoin_merkle_tree result" where
  "new_mid_state sha E transactions =
     (if length transactions = 1 then Inr \<lparr>tree_nodes = [[mid_state_txid sha E (transactions ! 0)]]\<rparr>
      else rbind (build_levels (mid_state_pair sha) (map (mid_state_txid sha E) transactions))
             (\<lambda>levels. Inr \<lparr>tree_nodes = levels\<rparr>))"

text \<open>The loop over the levels below the top, from the leaves upwards.\<close>

fun idx_path_loop :: "bytes list list \<Rightarrow> u32 \<Rightarrow> bytes list result" where
  "idx_path_loop (level # upper # rest) i =
     rbind (if i mod 2 = 1 then nth_checked level (unat i - 1)
            else if of_nat (length level) - 1 = i then nth_checked level (unat i)
            else nth_checked level (unat (i + 1))) (\<lambda>sibling.
     rbind (idx_path_loop (upper # rest) (i div 2)) (\<lambda>path. Inr (sibling # path)))"
| "idx_path_loop [level] i = Inr []"
| "idx_path_loop [] i = Inr []"

definition get_idx_path :: "bitcoin_merkle_tree \<Rightarrow> u32 \<Rightarrow> bytes list result" where
  "get_idx_path t index =
     rbind (nth_checked (tree_nodes t) 0) (\<lambda>leaves.
     rbind (ensure (index < of_nat (length leaves))
              (Panic ''Index out of bounds when trying to get path from mid-state Merkle tree'')) (\<lambda>_.
     idx_path_loop (tree_nodes t) index))"

record block_inclusion_proof =
  proof_idx :: u32
  merkle_proof :: "bytes list"

definition generate_inclusion_proof :: "bitcoin_merkle_tree \<Rightarrow> u32 \<Rightarrow> block_inclusion_proof result" where
  "generate_inclusion_proof t idx =
     rbind (get_idx_path t idx) (\<lambda>path. Inr \<lparr>proof_idx = idx, merkle_proof = path\<rparr>)"

fun get_root_loop :: "hasher \<Rightarrow> u32 \<Rightarrow> bytes list \<Rightarrow> bytes \<Rightarrow> (u32 \<times> bytes) result" where
  "get_root_loop sha index [] combined_hash = Inr (index, combined_hash)"
| "get_root_loop sha index (sibling # rest) combined_hash =
     (let processed_sibling_hash = calculate_sha256 sha sibling;
          processed_combined_hash = calculate_sha256 sha combined_hash in
      if index mod 2 = 0 then
        get_root_loop sha (index div 2) rest
          (calculate_sha256 sha (processed_combined_hash @ processed_sibling_hash))
      else
        rbind (ensure (processed_sibling_hash \<noteq> processed_combined_hash)
                 (Panic ''Merkle proof is invalid: left hash matches combined hash'')) (\<lambda>_.
        get_root_loop sha (index div 2) rest
          (calculate_sha256 sha (processed_sibling_hash @ processed_combined_hash))))"

definition get_root :: "hasher \<Rightarrow> block_inclusion_proof \<Rightarrow> bytes \<Rightarrow> bytes result" where
  "get_root sha p mid_txid =
     rbind (get_root_loop sha (proof_idx p) (merkle_proof p) mid_txid) (\<lambda>(index, combined_hash).
     if index \<noteq> 0 then Inr (replicate 32 0) else Inr (calculate_sha256 sha combined_hash))"

definition calculate_root_with_merkle_proof :: "hasher \<Rightarrow> bytes \<Rightarrow> block_inclusion_proof \<Rightarrow> bytes result" where
  "calculate_root_with_merkle_proof sha mid_txid p = get_root sha p mid_txid"

section \<open>Levels\<close>

lemma next_level_nth:
  assumes "next_level pair xs = Inr ys" "j < length ys"
  shows "ys ! j = pair (xs ! (2 * j)) (xs ! (if 2 * j + 1 < length xs then 2 * j + 1 else 2 * j))"
  using assms
proof (induction pair xs arbitrary: ys j rule: next_level.induct)
  case (1 pair l r rest)
  then obtain ns where ns: "next_level pair rest = Inr ns" "ys = pair l r # ns" "l \<noteq> r" by auto
  show ?case
  proof (cases j)
    case 0
    then show ?thesis using ns by simp
  next
    case (Suc k)
    then have "k < length ns" using 1(3) ns by simp
    from "1.IH" [OF ns(1) this] Suc ns show ?thesis by (simp add: ensure_def)
  qed
qed auto

lemma next_level_distinct:
  assumes "next_level pair xs = Inr ys" "2 * j + 1 < length xs"
  shows "xs ! (2 * j) \<noteq> xs ! (2 * j + 1)"
  using assms
proof (induction pair xs arbitrary: ys j rule: next_level.induct)
  case (1 pair l r rest)
  then obtain ns where ns: "next_level pair rest = Inr ns" "l \<noteq> r" by auto
  show ?case
  proof (cases j)
    case 0
    then show ?thesis using ns by simp
  next
    case (Suc k)
    with 1(3) have "2 * k + 1 < length rest" by simp
    from "1.IH" [OF ns(1) this] Suc show ?thesis by simp
  qed
qed auto

lemma build_levels_cases:
  assumes "build_levels pair prev = Inr levels"
  obtains (top) "length prev \<le> 1" "levels = [prev]"
    | (below) nxt rest where "1 < length prev" "next_level pair prev = Inr nxt"
        "build_levels pair nxt = Inr rest" "levels = prev # rest"
  using assms
  by (subst (asm) build_levels.simps) (auto split: if_splits sum.splits)

lemma build_levels_hd: "build_levels pair prev = Inr levels \<Longrightarrow> levels \<noteq> [] \<and> hd levels = prev"
  by (erule build_levels_cases) auto

lemma build_levels_step:
  assumes "build_levels pair prev = Inr levels" "Suc k < length levels"
  shows "next_level pair (levels ! k) = Inr (levels ! Suc k) \<and> 1 < length (levels ! k)"
  using assms
proof (induction k arbitrary: prev levels)
  case 0
  from 0(1) show ?case
  proof (cases rule: build_levels_cases)
    case (below nxt rest)
    have "nxt = rest ! 0" using build_levels_hd [OF below(3)] hd_conv_nth [of rest] by simp
    with below show ?thesis by simp
  qed (use 0 in simp)
next
  case (Suc k)
  from Suc.prems(1) show ?case
  proof (cases rule: build_levels_cases)
    case (below nxt rest)
    then show ?thesis using Suc.IH [OF below(3)] Suc.prems(2) by simp
  qed (use Suc in simp)
qed

lemma build_levels_top:
  "build_levels pair prev = Inr levels \<Longrightarrow> prev \<noteq> [] \<Longrightarrow> length (last levels) = 1"
proof (induction pair prev arbitrary: levels rule: build_levels.induct)
  case (1 pair prev)
  from 1(2) show ?case
  proof (cases rule: build_levels_cases)
    case top
    with 1(3) show ?thesis by (cases prev) auto
  next
    case (below nxt rest)
    have "nxt \<noteq> []" using next_level_length [OF below(2)] below(1) by auto
    then show ?thesis
      using 1(1) [of nxt] below build_levels_hd [OF below(3)] by simp
  qed
qed

section \<open>The mid-state tree and the standard tree\<close>

lemma next_level_mid:
  "next_level (standard_pair sha) (map sha xs) = Inr ys \<Longrightarrow>
   \<exists>zs. next_level (mid_state_pair sha) xs = Inr zs \<and> ys = map sha zs"
proof (induction "mid_state_pair sha" xs arbitrary: ys rule: next_level.induct)
  case (1 l r rest)
  then obtain ns where ns: "next_level (standard_pair sha) (map sha rest) = Inr ns"
      "ys = standard_pair sha (sha l) (sha r) # ns" "sha l \<noteq> sha r" by auto
  then have "l \<noteq> r" by auto
  with "1.hyps" [OF ns(1)] ns show ?case
    by (force simp: standard_pair_def mid_state_pair_def calculate_sha256_def calculate_double_sha256_def ensure_def)
qed (auto simp: standard_pair_def mid_state_pair_def calculate_sha256_def calculate_double_sha256_def)

lemma build_levels_mid:
  "build_levels (standard_pair sha) (map sha xs) = Inr levels \<Longrightarrow>
   \<exists>mids. build_levels (mid_state_pair sha) xs = Inr mids \<and> levels = map (map sha) mids"
proof (induction "length xs" arbitrary: xs levels rule: less_induct)
  case less
  from less.prems show ?case
  proof (cases rule: build_levels_cases)
    case top
    then show ?thesis by (subst build_levels.simps) simp
  next
    case (below nxt rest)
    obtain zs where zs: "next_level (mid_state_pair sha) xs = Inr zs" "nxt = map sha zs"
      using next_level_mid [OF below(2)] by blast
    have "length zs < length xs" using next_level_length [OF zs(1)] below(1) by simp
    from less.hyps [OF this] below(3) zs(2) obtain mids where
      "build_levels (mid_state_pair sha) zs = Inr mids" "rest = map (map sha) mids" by blast
    with below zs show ?thesis by (subst build_levels.simps) simp
  qed
qed

section \<open>Inclusion proofs are complete\<close>

lemma u32_half: "unat (i div 2 :: u32) = unat i div 2"
  by (simp add: unat_div)

lemma u32_last_index:
  assumes "0 < n" "n < 4294967296"
  shows "(of_nat n - 1 = (i :: u32)) \<longleftrightarrow> n - 1 = unat i"
proof -
  have "(of_nat n - 1 :: u32) = of_nat (n - 1)" using assms(1) by (simp add: of_nat_diff)
  then have "unat (of_nat n - 1 :: u32) = n - 1" using assms(2) by simp
  then show ?thesis by (simp only: word_unat_eq_iff)
qed

lemma u32_succ: "unat (i :: u32) + 1 < 4294967296 \<Longrightarrow> unat (i + 1) = unat i + 1"
  by (simp add: unat_word_ariths)

lemma u32_parity: "(i :: u32) mod 2 = 1 \<longleftrightarrow> odd (unat i)" "(i :: u32) mod 2 = 0 \<longleftrightarrow> even (unat i)"
  by (simp_all add: u32_mod2_eq_1 u32_mod2_eq_0)

lemma idx_path_complete:
  assumes "build_levels (mid_state_pair sha) xs = Inr levels"
    and "build_levels (standard_pair sha) (map sha xs) = Inr slevels"
    and "unat i < length xs" "length xs < 4294967296"
  shows "\<exists>path. idx_path_loop levels i = Inr path \<and>
           get_root_loop sha i path (xs ! unat i) = Inr (0, last levels ! 0)"
  using assms
proof (induction "length xs" arbitrary: xs levels slevels i rule: less_induct)
  case less
  from less.prems(1) show ?case
  proof (cases rule: build_levels_cases)
    case top
    with less.prems(3) have "i = 0" by (simp add: word_unat_eq_iff)
    with top show ?thesis by simp
  next
    case (below nxt rest)
    obtain snxt srest where s: "next_level (standard_pair sha) (map sha xs) = Inr snxt"
        "build_levels (standard_pair sha) snxt = Inr srest"
      using less.prems(2) below(1) by (cases rule: build_levels_cases) auto
    have snxt: "snxt = map sha nxt" using next_level_mid [OF s(1)] below(2) by auto
    have len: "length nxt = (length xs + 1) div 2" by (rule next_level_length [OF below(2)])
    let ?i = "unat i"
    have half: "?i div 2 < length nxt" using len less.prems(3) by linarith
    have rest: "rest \<noteq> []" "last rest = last levels"
      using build_levels_hd [OF below(3)] below(4) by auto
    have "length nxt < length xs" "length nxt < 4294967296" using len below(1) less.prems(4) by linarith+
    from less.hyps [OF this(1) below(3) s(2) [unfolded snxt], of "i div 2"] half this(2)
    obtain path where path: "idx_path_loop rest (i div 2) = Inr path"
        "get_root_loop sha (i div 2) path (nxt ! (?i div 2)) = Inr (0, last levels ! 0)"
      using rest by (auto simp: u32_half)
    have nth: "nxt ! (?i div 2) = mid_state_pair sha (xs ! (2 * (?i div 2)))
        (xs ! (if 2 * (?i div 2) + 1 < length xs then 2 * (?i div 2) + 1 else 2 * (?i div 2)))"
      by (rule next_level_nth [OF below(2) half])
    obtain upper rest' where rest_eq: "rest = upper # rest'" using rest(1) by (cases rest) auto
    show ?thesis
    proof (cases "odd ?i")
      case True
      then have ix: "2 * (?i div 2) = ?i - 1" "2 * (?i div 2) + 1 = ?i" "?i - 1 < length xs"
        using less.prems(3) by auto
      have "sha (xs ! (?i - 1)) \<noteq> sha (xs ! ?i)"
        using next_level_distinct [OF s(1), of "?i div 2"] ix less.prems(3) by simp
      with True ix path nth less.prems(3) show ?thesis
        by (auto simp: below(4) rest_eq u32_parity ensure_def mid_state_pair_def
            calculate_sha256_def Let_def)
    next
      case False
      then have ix: "2 * (?i div 2) = ?i" by simp
      have last: "(of_nat (length xs) - 1 = i) \<longleftrightarrow> \<not> ?i + 1 < length xs"
      proof -
        have "0 < length xs" using less.prems(3) by linarith
        from u32_last_index [OF this less.prems(4), of i] less.prems(3) show ?thesis by linarith
      qed
      have succ: "?i + 1 < length xs \<Longrightarrow> unat (i + 1) = ?i + 1"
        using u32_succ [of i] less.prems(4) by linarith
      from False ix path nth less.prems(3) last succ show ?thesis
        by (cases "?i + 1 < length xs")
          (auto simp: below(4) rest_eq u32_parity mid_state_pair_def calculate_sha256_def Let_def)
    qed
  qed
qed

section \<open>Inclusion proofs are sound\<close>

text \<open>
  The strings hashed to build the levels of a mid-state tree, and those hashed to replay a proof:
  the nodes themselves and the 64-byte concatenations of two digests.
\<close>

fun pair_preimages :: "hasher \<Rightarrow> bytes list \<Rightarrow> bytes list" where
  "pair_preimages sha (l # r # rest) = (sha l @ sha r) # pair_preimages sha rest"
| "pair_preimages sha [l] = [sha l @ sha l]"
| "pair_preimages sha [] = []"

definition mid_tree_strings :: "hasher \<Rightarrow> bytes list list \<Rightarrow> bytes list" where
  "mid_tree_strings sha levels = concat levels @ concat (map (pair_preimages sha) (butlast levels))"

definition step_preimage :: "hasher \<Rightarrow> u32 \<Rightarrow> bytes \<Rightarrow> bytes \<Rightarrow> bytes" where
  "step_preimage sha index sibling combined =
     (if index mod 2 = 0 then sha combined @ sha sibling else sha sibling @ sha combined)"

fun get_root_strings :: "hasher \<Rightarrow> u32 \<Rightarrow> bytes list \<Rightarrow> bytes \<Rightarrow> bytes list" where
  "get_root_strings sha index [] combined = [combined]"
| "get_root_strings sha index (sibling # rest) combined =
     combined # sibling # step_preimage sha index sibling combined
     # get_root_strings sha (index div 2) rest (sha (step_preimage sha index sibling combined))"

lemma get_root_loop_Cons:
  assumes "get_root_loop sha index (sibling # rest) combined = Inr r"
  shows "get_root_loop sha (index div 2) rest (sha (step_preimage sha index sibling combined)) = Inr r"
    and "index mod 2 \<noteq> 0 \<Longrightarrow> sha sibling \<noteq> sha combined"
  using assms
  by (auto simp: Let_def step_preimage_def calculate_sha256_def split: if_splits)

lemma get_root_loop_append:
  "get_root_loop sha index (xs @ ys) c =
     rbind (get_root_loop sha index xs c) (\<lambda>(i, c'). get_root_loop sha i ys c')"
  by (induction sha index xs c rule: get_root_loop.induct)
    (auto simp: Let_def ensure_def)

lemma pair_preimages_nth:
  "2 * j < length xs \<Longrightarrow>
   sha (xs ! (2 * j)) @ sha (xs ! (if 2 * j + 1 < length xs then 2 * j + 1 else 2 * j)) \<in> set (pair_preimages sha xs)"
proof (induction sha xs arbitrary: j rule: pair_preimages.induct)
  case (1 sha l r rest)
  show ?case
  proof (cases j)
    case (Suc k)
    with "1.prems" have "2 * k < length rest" by simp
    from "1.IH" [OF this] Suc show ?thesis by (cases "Suc (2 * k) < length rest") simp_all
  qed simp
qed auto

lemma level_in_strings:
  "lv \<in> set levels \<Longrightarrow> set lv \<subseteq> set (mid_tree_strings sha levels)"
  "Suc k < length levels \<Longrightarrow> set (pair_preimages sha (levels ! k)) \<subseteq> set (mid_tree_strings sha levels)"
  using nth_mem [of k "butlast levels"] by (auto simp: mid_tree_strings_def nth_butlast)

lemma get_root_strings_member:
  "combined \<in> set (get_root_strings sha index path combined)"
  by (cases path) auto

text \<open>One level down: if the combined digest is a node, the two children were its inputs.\<close>

lemma step_down:
  assumes inj: "inj_on sha D" and len: "digest32 sha"
    and lv: "next_level (mid_state_pair sha) lv = Inr nxt" "set lv \<subseteq> D" "set (pair_preimages sha lv) \<subseteq> D"
    and node: "unat (index div 2) < length nxt" "sha (step_preimage sha index sibling combined) = nxt ! unat (index div 2)"
    and D: "combined \<in> D" "sibling \<in> D" "step_preimage sha index sibling combined \<in> D"
    and noneq: "index mod 2 \<noteq> 0 \<Longrightarrow> sha sibling \<noteq> sha combined"
  shows "unat index < length lv \<and> combined = lv ! unat index"
proof -
  let ?j = "unat index div 2"
  let ?a = "lv ! (2 * ?j)" and ?b = "lv ! (if 2 * ?j + 1 < length lv then 2 * ?j + 1 else 2 * ?j)"
  have j: "2 * ?j < length lv" "?j < length nxt"
    using node(1) next_level_length [OF lv(1)] by (auto simp: u32_half)
  have nth: "nxt ! ?j = sha (sha ?a @ sha ?b)"
    using next_level_nth [OF lv(1) j(2)] by (simp only: mid_state_pair_def calculate_sha256_def)
  have pre: "sha ?a @ sha ?b \<in> D" using pair_preimages_nth [OF j(1), of sha] lv(3) by blast
  have ab: "?a \<in> D" "?b \<in> D" using j(1) lv(2) by auto
  have "sha (step_preimage sha index sibling combined) = sha (sha ?a @ sha ?b)"
    using node(2) nth by (simp only: u32_half)
  then have eq: "step_preimage sha index sibling combined = sha ?a @ sha ?b"
    by (rule inj_onD [OF inj _ D(3) pre])
  show ?thesis
  proof (cases "even (unat index)")
    case True
    then have "sha combined = sha ?a" using eq len by (simp add: step_preimage_def u32_parity)
    then have "combined = ?a" by (rule inj_onD [OF inj _ D(1) ab(1)])
    with True j show ?thesis by simp
  next
    case False
    then have "sha sibling = sha ?a" "sha combined = sha ?b"
      using eq len by (simp_all add: step_preimage_def u32_parity)
    moreover have "sha sibling \<noteq> sha combined" using noneq False by (simp add: u32_parity)
    ultimately have "2 * ?j + 1 < length lv" by (auto split: if_splits)
    moreover have "2 * ?j + 1 = unat index" using False by simp
    moreover have "combined = ?b" using \<open>sha combined = sha ?b\<close> by (rule inj_onD [OF inj _ D(1) ab(2)])
    ultimately show ?thesis by simp
  qed
qed

lemma get_root_in_level:
  assumes inj: "inj_on sha D" and len: "digest32 sha"
    and tree: "build_levels (mid_state_pair sha) prev = Inr levels" "set (mid_tree_strings sha levels) \<subseteq> D"
    and top: "length (last levels) = 1"
    and run: "get_root_loop sha index path combined = Inr (0, last levels ! 0)"
    and D: "set (get_root_strings sha index path combined) \<subseteq> D"
    and depth: "length path < length levels"
  shows "unat index < length (levels ! (length levels - 1 - length path)) \<and>
         combined = levels ! (length levels - 1 - length path) ! unat index"
  using run D depth
proof (induction path arbitrary: index combined)
  case Nil
  then show ?case using top by (simp add: last_conv_nth)
next
  case (Cons s path)
  let ?k = "length levels - 1 - length (s # path)"
  have k: "Suc ?k < length levels" "length levels - 1 - length path = Suc ?k" using Cons.prems(3) by simp_all
  let ?c = "sha (step_preimage sha index s combined)"
  have up: "unat (index div 2) < length (levels ! Suc ?k)" "?c = levels ! Suc ?k ! unat (index div 2)"
    using Cons.IH [OF get_root_loop_Cons(1) [OF Cons.prems(1)]] Cons.prems(2,3) k by auto
  have lv: "next_level (mid_state_pair sha) (levels ! ?k) = Inr (levels ! Suc ?k)"
    using build_levels_step [OF tree(1) k(1)] by simp
  have mem: "levels ! ?k \<in> set levels" using k(1) by simp
  show ?case
    by (rule step_down [OF inj len lv _ _ up])
      (use level_in_strings(1) [OF mem, of sha] level_in_strings(2) [OF k(1), of sha] tree(2) Cons.prems(2)
        get_root_loop_Cons(2) [OF Cons.prems(1)] in auto)
qed

text \<open>A replayed proof with at least one step ends in a digest of 64 bytes.\<close>

lemma get_root_loop_digest:
  assumes "get_root_loop sha index path combined = Inr (i, c)" "path \<noteq> []" "digest32 sha"
  shows "\<exists>w. length w = 64 \<and> c = sha w \<and> w \<in> set (get_root_strings sha index path combined)"
  using assms(1,2)
proof (induction path arbitrary: index combined)
  case (Cons s path)
  let ?w = "step_preimage sha index s combined"
  have run: "get_root_loop sha (index div 2) path (sha ?w) = Inr (i, c)"
    by (rule get_root_loop_Cons(1) [OF Cons.prems(1)])
  show ?case
  proof (cases "path = []")
    case True
    then have "c = sha ?w" using run by simp
    moreover have "length ?w = 64" using assms(3) by (simp add: step_preimage_def)
    moreover have "?w \<in> set (get_root_strings sha index (s # path) combined)" by simp
    ultimately show ?thesis by blast
  next
    case False
    then show ?thesis using Cons.IH [OF run] by auto
  qed
qed simp

lemma get_root_strings_suffix:
  "get_root_loop sha index xs c = Inr (i, c') \<Longrightarrow>
   set (get_root_strings sha index xs c) \<subseteq> set (get_root_strings sha index (xs @ ys) c) \<and>
   set (get_root_strings sha i ys c') \<subseteq> set (get_root_strings sha index (xs @ ys) c)"
proof (induction xs arbitrary: index c)
  case Nil
  then show ?case using get_root_strings_member by auto
next
  case (Cons s xs)
  from Cons.IH [OF get_root_loop_Cons(1) [OF Cons.prems]] show ?case by auto
qed

lemma inclusion_proof_sound:
  assumes len: "digest32 sha" and inj: "inj_on sha D"
    and tree: "build_levels (mid_state_pair sha) (map sha bs) = Inr levels" "bs \<noteq> []"
    and D: "set (mid_tree_strings sha levels) \<subseteq> D" "set (get_root_strings sha index path (sha b)) \<subseteq> D"
      "set bs \<subseteq> D" "b \<in> D"
    and no64: "\<forall>x \<in> set bs. length x \<noteq> 64" "length b \<noteq> 64"
    and run: "get_root_loop sha index path (sha b) = Inr (0, last levels ! 0)"
  shows "unat index < length bs \<and> b = bs ! unat index"
proof -
  have hd: "levels \<noteq> []" "levels ! 0 = map sha bs"
    using build_levels_hd [OF tree(1)] hd_conv_nth [of levels] by auto
  have top: "length (last levels) = 1" using build_levels_top [OF tree(1)] tree(2) by simp
  note in_level = get_root_in_level [OF inj len tree(1) D(1) top]
  have "length path < length levels"
  proof (rule ccontr)
    assume "\<not> length path < length levels"
    define k where "k = length path - (length levels - 1)"
    have k: "0 < k" "k \<le> length path" "length (drop k path) = length levels - 1"
      using \<open>\<not> length path < length levels\<close> hd(1) [folded length_greater_0_conv]
      unfolding k_def length_drop by linarith+
    have "get_root_loop sha index (take k path @ drop k path) (sha b) = Inr (0, last levels ! 0)"
      using run by simp
    then obtain i c where c: "get_root_loop sha index (take k path) (sha b) = Inr (i, c)"
        "get_root_loop sha i (drop k path) c = Inr (0, last levels ! 0)"
      unfolding get_root_loop_append by auto
    have sub: "set (get_root_strings sha index (take k path) (sha b)) \<subseteq> D" "set (get_root_strings sha i (drop k path) c) \<subseteq> D"
      using get_root_strings_suffix [OF c(1), of "drop k path"] D(2) by auto
    have "drop k path = [] \<or> length (drop k path) < length levels" using k(3) hd(1) by auto
    then have "length (drop k path) < length levels" using hd(1) by auto
    from in_level [OF c(2) sub(2) this] k(3) hd(2) have "unat i < length bs" "c = sha (bs ! unat i)" by auto
    moreover have "take k path \<noteq> []" using k(1,2) by auto
    then obtain w where w: "length w = 64" "c = sha w" "w \<in> D"
      using get_root_loop_digest [OF c(1) _ len] sub(1) by blast
    moreover have "bs ! unat i \<in> D" using D(3) \<open>unat i < length bs\<close> by auto
    ultimately have "bs ! unat i = w" using inj_onD [OF inj, of "bs ! unat i" w] by simp
    with w(1) no64(1) nth_mem [OF \<open>unat i < length bs\<close>] show False by auto
  qed
  note lv = in_level [OF run D(2) this]
  let ?k = "length levels - 1 - length path"
  show ?thesis
  proof (cases "?k = 0")
    case True
    with lv hd(2) have "unat index < length bs" "sha b = sha (bs ! unat index)" by auto
    moreover from this(1) have "bs ! unat index \<in> D" using D(3) by auto
    ultimately show ?thesis using inj_onD [OF inj _ D(4)] by blast
  next
    case False
    then obtain k where k: "?k = Suc k" by (cases ?k) auto
    then have below: "Suc k < length levels" by linarith
    then have step: "next_level (mid_state_pair sha) (levels ! k) = Inr (levels ! ?k)"
      using build_levels_step [OF tree(1), of k] k by simp
    let ?j = "unat index" and ?lv = "levels ! k"
    define w where "w = sha (?lv ! (2 * ?j)) @ sha (?lv ! (if 2 * ?j + 1 < length ?lv then 2 * ?j + 1 else 2 * ?j))"
    have "2 * ?j < length ?lv" using next_level_length [OF step] lv by linarith
    then have "w \<in> D"
      using pair_preimages_nth [of ?j ?lv sha] level_in_strings(2) [OF below, of sha] D(1) by (auto simp: w_def)
    moreover have "sha b = sha w"
      using lv next_level_nth [OF step, of ?j] by (simp add: mid_state_pair_def calculate_sha256_def w_def)
    ultimately have "b = w" using inj_onD [OF inj _ D(4)] by blast
    moreover have "length w = 64" using len by (simp add: w_def)
    ultimately show ?thesis using no64(2) by simp
  qed
qed

lemma merkle_tree_levels:
  "merkle_tree_new sha txids = Inr t \<longleftrightarrow> build_levels (standard_pair sha) txids = Inr (tree_nodes t)"
  by (cases t) (auto simp: merkle_tree_new_def build_levels.simps [of "standard_pair sha" txids])

lemma new_mid_state_levels:
  "new_mid_state sha E txs = Inr t \<longleftrightarrow>
   build_levels (mid_state_pair sha) (map (mid_state_txid sha E) txs) = Inr (tree_nodes t)"
  by (cases t; cases txs)
    (auto simp: new_mid_state_def build_levels.simps [of "mid_state_pair sha"])

lemma merkle_root_of_levels:
  assumes "build_levels pair prev = Inr (tree_nodes t)" "prev \<noteq> []"
  shows "merkle_root_of t = Inr (last (tree_nodes t) ! 0)"
proof -
  have "tree_nodes t \<noteq> []" "length (last (tree_nodes t)) = 1"
    using build_levels_hd [OF assms(1)] build_levels_top [OF assms] by auto
  then show ?thesis by (auto simp: merkle_root_of_def nth_checked_def last_conv_nth)
qed

lemma merkle_inclusion_sound:
  assumes "digest32 sha" "new_mid_state sha E txs = Inr t" "txs \<noteq> []" "merkle_root_of t = Inr r"
    and "get_root sha p (mid_state_txid sha E tx) = Inr (sha r)" "sha r \<noteq> replicate 32 0"
    and "\<forall>x \<in> set txs. length (tx_bytes E x) \<noteq> 64" "length (tx_bytes E tx) \<noteq> 64"
    and "inj_on sha (set (mid_tree_strings sha (tree_nodes t)) \<union>
           set (get_root_strings sha (proof_idx p) (merkle_proof p) (mid_state_txid sha E tx)) \<union>
           tx_bytes E ` set txs \<union> {tx_bytes E tx})"
  shows "unat (proof_idx p) < length txs \<and> tx_bytes E (txs ! unat (proof_idx p)) = tx_bytes E tx"
proof -
  let ?bs = "map (tx_bytes E) txs" and ?b = "tx_bytes E tx"
  let ?D = "set (mid_tree_strings sha (tree_nodes t)) \<union>
           set (get_root_strings sha (proof_idx p) (merkle_proof p) (mid_state_txid sha E tx)) \<union>
           tx_bytes E ` set txs \<union> {tx_bytes E tx}"
  have ms: "map (mid_state_txid sha E) txs = map sha ?bs" "mid_state_txid sha E tx = sha ?b"
    by (simp_all add: mid_state_txid_def calculate_sha256_def)
  have tree: "build_levels (mid_state_pair sha) (map sha ?bs) = Inr (tree_nodes t)"
    using assms(2) unfolding new_mid_state_levels ms .
  have r: "r = last (tree_nodes t) ! 0" using merkle_root_of_levels [OF tree] assms(3,4) by simp
  obtain c where c: "get_root_loop sha (proof_idx p) (merkle_proof p) (sha ?b) = Inr (0, c)" "sha c = sha r"
    using assms(5,6) by (auto simp: get_root_def ms calculate_sha256_def split: if_splits)
  have "c \<in> ?D" using get_root_strings_suffix [OF c(1), of "[]"] by (auto simp: ms)
  moreover have "r \<in> ?D"
  proof -
    have "tree_nodes t \<noteq> []" "length (last (tree_nodes t)) = 1"
      using build_levels_hd [OF tree] build_levels_top [OF tree] assms(3) by auto
    then have "r \<in> set (last (tree_nodes t))" "last (tree_nodes t) \<in> set (tree_nodes t)" by (simp_all add: r)
    then show ?thesis using level_in_strings(1) by blast
  qed
  ultimately have "c = r" using c(2) inj_onD [OF assms(9)] by blast
  with c(1) r have run: "get_root_loop sha (proof_idx p) (merkle_proof p) (sha ?b) = Inr (0, last (tree_nodes t) ! 0)"
    by simp
  have "unat (proof_idx p) < length ?bs \<and> ?b = ?bs ! unat (proof_idx p)"
    by (rule inclusion_proof_sound [OF assms(1,9) tree _ _ _ _ _ _ _ run])
      (use assms(3,7,8) in \<open>auto simp: ms\<close>)
  then show ?thesis by auto
qed

section \<open>A concrete block\<close>

text \<open>Two transactions of one-byte encoding, distinguished by their version.\<close>

definition demo_consensus :: consensus where
  "demo_consensus = \<lparr>enc_version = (\<lambda>v. [ucast v]), enc_input = (\<lambda>_. []), enc_output = (\<lambda>_. []),
     enc_lock_time = (\<lambda>_. [])\<rparr>"

definition demo_block_tx :: "i32 \<Rightarrow> transaction" where
  "demo_block_tx v = \<lparr>tx_version = v, lock_time = 0, tx_input = [], tx_output = []\<rparr>"

definition demo_block :: "transaction list" where
  "demo_block = [demo_block_tx 1, demo_block_tx 2]"

lemma demo_tx_bytes [simp]: "tx_bytes demo_consensus (demo_block_tx v) = [ucast v]"
  by (simp add: tx_bytes_def demo_consensus_def demo_block_tx_def)

lemma demo_mid [simp]: "mid_state_txid toy_sha demo_consensus (demo_block_tx v) = toy_sha [ucast v]"
  by (simp add: mid_state_txid_def calculate_sha256_def)

lemma demo_digests: "toy_sha [1] \<noteq> toy_sha [2]" "toy_sha (toy_sha [1]) \<noteq> toy_sha (toy_sha [2])"
  by (simp_all add: toy_sha_def)

definition demo_root :: bytes where
  "demo_root = toy_sha (toy_sha (toy_sha [1]) @ toy_sha (toy_sha [2]))"

lemma demo_mid_tree:
  "new_mid_state toy_sha demo_consensus demo_block = Inr \<lparr>tree_nodes = [[toy_sha [1], toy_sha [2]], [demo_root]]\<rparr>"
  by (simp add: new_mid_state_def demo_block_def build_levels.simps ensure_def demo_digests mid_state_pair_def
      calculate_sha256_def demo_root_def)

lemma demo_tree:
  "merkle_tree_new toy_sha (map (circuit_txid toy_sha demo_consensus) demo_block) =
     Inr \<lparr>tree_nodes = [[toy_sha (toy_sha [1]), toy_sha (toy_sha [2])], [toy_sha demo_root]]\<rparr>"
  by (simp add: merkle_tree_new_def demo_block_def build_levels.simps ensure_def demo_digests standard_pair_def
      calculate_double_sha256_def circuit_txid_def calculate_sha256_def demo_root_def)

section \<open>Properties\<close>

text \<open>
  C18. The mid-state tree underlies the standard tree. Whenever the standard Merkle tree over the
  transaction ids of a block is built, the mid-state tree over the same transactions is built too,
  and every node of the standard tree, the Merkle root included, is the SHA-256 digest of the node
  of the mid-state tree at the same place.
\<close>

theorem mid_state_tree_matches:
  assumes "merkle_tree_new sha (map (circuit_txid sha E) txs) = Inr t" "txs \<noteq> []"
  shows "\<exists>t'. new_mid_state sha E txs = Inr t' \<and> tree_nodes t = map (map sha) (tree_nodes t') \<and>
              (\<exists>r. merkle_root_of t' = Inr r \<and> merkle_root_of t = Inr (sha r))"
proof -
  let ?ms = "map (mid_state_txid sha E) txs"
  have ids: "map (circuit_txid sha E) txs = map sha ?ms"
    by (simp add: circuit_txid_def calculate_sha256_def)
  have std: "build_levels (standard_pair sha) (map sha ?ms) = Inr (tree_nodes t)"
    using assms(1) unfolding ids merkle_tree_levels .
  obtain mids where mids: "build_levels (mid_state_pair sha) ?ms = Inr mids" "tree_nodes t = map (map sha) mids"
    using build_levels_mid [OF std] by blast
  let ?t = "\<lparr>tree_nodes = mids\<rparr>"
  have ne: "mids \<noteq> []" "length (last mids) = 1"
    using build_levels_hd [OF mids(1)] build_levels_top [OF mids(1)] assms(2) by auto
  have "new_mid_state sha E txs = Inr ?t" using mids(1) by (simp add: new_mid_state_levels)
  moreover have "merkle_root_of ?t = Inr (last mids ! 0)"
    using merkle_root_of_levels [of _ _ ?t] mids(1) assms(2) by simp
  moreover have "merkle_root_of t = Inr (sha (last mids ! 0))"
    using merkle_root_of_levels [OF std] assms(2) mids(2) ne by (simp add: last_map)
  ultimately show ?thesis using mids(2) by (intro exI [of _ ?t]) simp
qed

theorem mid_state_tree_matches_witness:
  "\<exists>(t' :: bitcoin_merkle_tree) r. new_mid_state toy_sha demo_consensus demo_block = Inr t' \<and>
     merkle_root_of t' = Inr r \<and> toy_sha r = toy_sha demo_root"
  using mid_state_tree_matches [OF demo_tree] by (auto simp: demo_block_def merkle_root_of_def nth_checked_def)

text \<open>
  C19. Inclusion proofs are complete. If the standard tree of a block is built, the mid-state tree
  generates for every transaction of the block a proof from which \<open>get_root\<close> computes, without a
  panic, exactly the Merkle root of the standard tree.
\<close>

theorem inclusion_proof_complete:
  assumes "merkle_tree_new sha (map (circuit_txid sha E) txs) = Inr t" "new_mid_state sha E txs = Inr t'"
    and "unat i < length txs" "length txs < 4294967296"
  shows "\<exists>p. generate_inclusion_proof t' i = Inr p \<and>
             get_root sha p (mid_state_txid sha E (txs ! unat i)) = merkle_root_of t"
proof -
  let ?ms = "map (mid_state_txid sha E) txs"
  have ids: "map (circuit_txid sha E) txs = map sha ?ms"
    by (simp add: circuit_txid_def calculate_sha256_def)
  have std: "build_levels (standard_pair sha) (map sha ?ms) = Inr (tree_nodes t)"
    using assms(1) unfolding ids merkle_tree_levels .
  have mid: "build_levels (mid_state_pair sha) ?ms = Inr (tree_nodes t')"
    using assms(2) unfolding new_mid_state_levels .
  have ne: "?ms \<noteq> []" using assms(3) by auto
  obtain path where path: "idx_path_loop (tree_nodes t') i = Inr path"
      "get_root_loop sha i path (?ms ! unat i) = Inr (0, last (tree_nodes t') ! 0)"
    using idx_path_complete [OF mid std, of i] assms(3,4) by auto
  have "tree_nodes t' \<noteq> []" "tree_nodes t' ! 0 = ?ms"
    using build_levels_hd [OF mid] hd_conv_nth [of "tree_nodes t'"] by auto
  moreover have "i < of_nat (length txs)" using assms(3,4) by (simp add: word_less_nat_alt)
  ultimately have "generate_inclusion_proof t' i = Inr \<lparr>proof_idx = i, merkle_proof = path\<rparr>"
    using path(1) by (simp add: generate_inclusion_proof_def get_idx_path_def nth_checked_def ensure_def)
  moreover have "tree_nodes t = map (map sha) (tree_nodes t')"
    using build_levels_mid [OF std] mid by auto
  then have "merkle_root_of t = Inr (sha (last (tree_nodes t') ! 0))"
    using merkle_root_of_levels [OF std] ne build_levels_hd [OF mid] build_levels_top [OF mid ne]
    by (simp add: last_map)
  ultimately show ?thesis
    using path(2) assms(3) by (simp add: get_root_def calculate_sha256_def)
qed

theorem inclusion_proof_complete_witness:
  "\<exists>(p :: block_inclusion_proof). get_root toy_sha p (mid_state_txid toy_sha demo_consensus (demo_block ! 1)) = Inr (toy_sha demo_root)"
  using inclusion_proof_complete [OF demo_tree demo_mid_tree, of 1]
  by (auto simp: demo_block_def merkle_root_of_def nth_checked_def)

text \<open>
  C20. Inclusion proofs are sound. Let the mid-state tree of a block be built over transactions none
  of which is encoded in 64 bytes. If \<open>get_root\<close> computes from any proof for a transaction (itself
  not encoded in 64 bytes) the Merkle root of the block, which is not the all-zero string returned
  for a bad index, and SHA-256 has no collision among the strings hashed, then the index of the
  proof is the position of that very transaction in the block.
\<close>

theorem inclusion_proof_sound_at_index:
  assumes "digest32 sha" "new_mid_state sha E txs = Inr t" "txs \<noteq> []" "merkle_root_of t = Inr r"
    and "get_root sha p (mid_state_txid sha E tx) = Inr (sha r)" "sha r \<noteq> replicate 32 0"
    and "\<forall>x \<in> set txs. length (tx_bytes E x) \<noteq> 64" "length (tx_bytes E tx) \<noteq> 64"
    and "inj_on sha (set (mid_tree_strings sha (tree_nodes t)) \<union>
           set (get_root_strings sha (proof_idx p) (merkle_proof p) (mid_state_txid sha E tx)) \<union>
           tx_bytes E ` set txs \<union> {tx_bytes E tx})"
  shows "unat (proof_idx p) < length txs \<and> tx_bytes E (txs ! unat (proof_idx p)) = tx_bytes E tx"
  using assms by (rule merkle_inclusion_sound)

theorem inclusion_proof_sound_at_index_witness:
  "get_root toy_sha \<lparr>proof_idx = 1, merkle_proof = [toy_sha [1]]\<rparr>
     (mid_state_txid toy_sha demo_consensus (demo_block_tx 2)) = Inr (toy_sha demo_root) \<and>
   tx_bytes demo_consensus (demo_block ! 1) = tx_bytes demo_consensus (demo_block_tx 2)"
proof -
  let ?p = "\<lparr>proof_idx = 1, merkle_proof = [toy_sha [1]]\<rparr>"
  let ?t = "\<lparr>tree_nodes = [[toy_sha [1], toy_sha [2]], [demo_root]]\<rparr>"
  let ?w = "toy_sha (toy_sha [1]) @ toy_sha (toy_sha [2])"
  have root: "get_root toy_sha ?p (mid_state_txid toy_sha demo_consensus (demo_block_tx 2)) = Inr (toy_sha demo_root)"
    using demo_digests by (simp add: get_root_def Let_def calculate_sha256_def ensure_def demo_root_def)
  have strings: "set (mid_tree_strings toy_sha (tree_nodes ?t)) \<union>
      set (get_root_strings toy_sha (proof_idx ?p) (merkle_proof ?p) (mid_state_txid toy_sha demo_consensus (demo_block_tx 2))) \<union>
      tx_bytes demo_consensus ` set demo_block \<union> {tx_bytes demo_consensus (demo_block_tx 2)} =
      {toy_sha [1], toy_sha [2], ?w, demo_root, [1], [2]}"
    by (auto simp: mid_tree_strings_def step_preimage_def demo_block_def demo_root_def)
  have inj: "inj_on toy_sha (set (mid_tree_strings toy_sha (tree_nodes ?t)) \<union>
      set (get_root_strings toy_sha (proof_idx ?p) (merkle_proof ?p) (mid_state_txid toy_sha demo_consensus (demo_block_tx 2))) \<union>
      tx_bytes demo_consensus ` set demo_block \<union> {tx_bytes demo_consensus (demo_block_tx 2)})"
    unfolding strings by (simp add: inj_on_def toy_sha_def demo_root_def)
  have "merkle_root_of ?t = Inr demo_root" by (simp add: merkle_root_of_def nth_checked_def)
  from inclusion_proof_sound_at_index [OF digest32_toy_sha demo_mid_tree _ this root _ _ _ inj] root
  show ?thesis by (simp add: demo_block_def toy_sha_def demo_root_def)
qed

end
