(* ===== verification/Spv.thy ===== *)
theory Spv
  imports Header_Chain_Proofs Mmr_Proofs Merkle_Tree
begin

text \<open>
  Simplified payment verification (\<open>src/circuits-lib/src/bridge_circuit/spv.rs\<close>): a transaction is
  in a block of the chain whose block hashes are in the Merkle mountain range of the chain state.
\<close>

section \<open>The check\<close>

record spv =
  spv_transaction :: transaction
  spv_block_inclusion_proof :: block_inclusion_proof
  spv_block_header :: circuit_block_header
  spv_mmr_inclusion_proof :: mmr_inclusion_proof

definition spv_new ::
  "transaction \<Rightarrow> block_inclusion_proof \<Rightarrow> circuit_block_header \<Rightarrow> mmr_inclusion_proof \<Rightarrow> spv" where
  "spv_new tx bp h mp =
     \<lparr>spv_transaction = tx, spv_block_inclusion_proof = bp, spv_block_header = h,
      spv_mmr_inclusion_proof = mp\<rparr>"

definition spv_verify :: "hasher \<Rightarrow> consensus \<Rightarrow> spv \<Rightarrow> mmr_guest \<Rightarrow> bool result" where
  "spv_verify sha E s mmr =
     (let mid_txid = mid_state_txid sha E (spv_transaction s) in
      rbind (get_root sha (spv_block_inclusion_proof s) mid_txid) (\<lambda>block_merkle_root.
      if block_merkle_root \<noteq> merkle_root (spv_block_header s) then Inr False
      else Inr (mmr_guest_verify_proof sha mmr (compute_block_hash sha (spv_block_header s))
                  (spv_mmr_inclusion_proof s))))"

section \<open>Block headers and their hashes\<close>

definition header_bytes :: "circuit_block_header \<Rightarrow> bytes" where
  "header_bytes h = u32_to_le_bytes (version h) @ prev_block_hash h @ merkle_root h
     @ u32_to_le_bytes (header_time h) @ u32_to_le_bytes (header_bits h) @ u32_to_le_bytes (header_nonce h)"

definition header_wf :: "circuit_block_header \<Rightarrow> bool" where
  "header_wf h \<longleftrightarrow> length (prev_block_hash h) = 32 \<and> length (merkle_root h) = 32"

lemma compute_block_hash_bytes: "compute_block_hash sha h = sha (sha (header_bytes h))"
  by (simp add: compute_block_hash_def header_bytes_def Let_def)

lemma header_bytes_inject:
  assumes "header_wf h" "header_wf k" "header_bytes h = header_bytes k"
  shows "h = k"
  using assms by (simp add: header_wf_def header_bytes_def circuit_block_header.equality)

text \<open>A block of the chain: its header and its transactions, with the Merkle root it commits to.\<close>

definition block_committed :: "hasher \<Rightarrow> consensus \<Rightarrow> circuit_block_header \<Rightarrow> transaction list \<Rightarrow> bool" where
  "block_committed sha E h txs \<longleftrightarrow> txs \<noteq> [] \<and>
     (\<exists>t r. new_mid_state sha E txs = Inr t \<and> merkle_root_of t = Inr r \<and> merkle_root h = sha r)"

text \<open>The strings hashed to build the mid-state tree of a block.\<close>

definition block_strings :: "hasher \<Rightarrow> consensus \<Rightarrow> transaction list \<Rightarrow> bytes set" where
  "block_strings sha E txs =
     (case new_mid_state sha E txs of
        Inl _ \<Rightarrow> {} | Inr t \<Rightarrow> set (mid_tree_strings sha (tree_nodes t)) \<union> tx_bytes E ` set txs)"

text \<open>The strings hashed to check an SPV proof.\<close>

definition spv_strings :: "hasher \<Rightarrow> consensus \<Rightarrow> spv \<Rightarrow> bytes set" where
  "spv_strings sha E s =
     (let tx = spv_transaction s; bp = spv_block_inclusion_proof s; h = spv_block_header s;
          mp = spv_mmr_inclusion_proof s in
      set (get_root_strings sha (proof_idx bp) (merkle_proof bp) (mid_state_txid sha E tx)) \<union>
      {tx_bytes E tx, header_bytes h, sha (header_bytes h)} \<union>
      set (replay_strings sha (internal_idx mp) 0 (inclusion_proof mp) (compute_block_hash sha h)))"

lemma spv_verify_sound:
  assumes len: "digest32 sha" and inj: "inj_on sha D"
    and ok: "spv_verify sha E s g = Inr True"
    and range: "mmr_guest_of sha (map (compute_block_hash sha) hs) g"
    and wf: "\<forall>h \<in> set hs. header_wf h" "header_wf (spv_block_header s)"
      "\<forall>x \<in> set (inclusion_proof (spv_mmr_inclusion_proof s)). length x = 32"
    and blocks: "\<forall>h \<in> set hs. block_committed sha E h (txs h)"
    and no64: "\<forall>h \<in> set hs. \<forall>x \<in> set (txs h). length (tx_bytes E x) \<noteq> 64"
      "length (tx_bytes E (spv_transaction s)) \<noteq> 64"
    and nonzero: "\<forall>h \<in> set hs. merkle_root h \<noteq> replicate 32 0"
    and D: "spv_strings sha E s \<subseteq> D" "set (mmr_strings sha (map (compute_block_hash sha) hs)) \<subseteq> D"
      "\<forall>h \<in> set hs. block_strings sha E (txs h) \<subseteq> D \<and> header_bytes h \<in> D \<and> sha (header_bytes h) \<in> D"
  shows "\<exists>h \<in> set hs. spv_block_header s = h \<and> unat (proof_idx (spv_block_inclusion_proof s)) < length (txs h) \<and>
           tx_bytes E (txs h ! unat (proof_idx (spv_block_inclusion_proof s))) = tx_bytes E (spv_transaction s)"
proof -
  let ?h = "spv_block_header s" and ?mp = "spv_mmr_inclusion_proof s" and ?bp = "spv_block_inclusion_proof s"
  let ?tx = "spv_transaction s" and ?ds = "map (\<lambda>h. sha (header_bytes h)) hs"
  have root: "get_root sha ?bp (mid_state_txid sha E ?tx) = Inr (merkle_root ?h)"
    and mmr: "mmr_guest_verify_proof sha g (compute_block_hash sha ?h) ?mp"
    using ok by (auto simp: spv_verify_def Let_def split: if_splits)
  have ds: "map (compute_block_hash sha) hs = map sha ?ds" "compute_block_hash sha ?h = sha (sha (header_bytes ?h))"
    by (simp_all add: compute_block_hash_bytes)
  have "sha (header_bytes ?h) \<in> set ?ds"
  proof (rule mmr_guest_verify_sound [OF len _ _ inj_on_subset [OF inj]])
    show "mmr_guest_of sha (map sha ?ds) g" using range unfolding ds .
    show "mmr_guest_verify_proof sha g (sha (sha (header_bytes ?h))) ?mp" using mmr unfolding ds .
  qed (use len wf(3) D in \<open>auto simp: spv_strings_def Let_def ds\<close>)
  then obtain h where h: "h \<in> set hs" "sha (header_bytes ?h) = sha (header_bytes h)" by auto
  have "header_bytes ?h = header_bytes h"
    using h D by (intro inj_onD [OF inj h(2)]) (auto simp: spv_strings_def Let_def)
  then have eq: "?h = h" using header_bytes_inject wf h(1) by blast
  obtain t r where t: "new_mid_state sha E (txs h) = Inr t" "merkle_root_of t = Inr r" "merkle_root h = sha r" "txs h \<noteq> []"
    using blocks h(1) by (auto simp: block_committed_def)
  have "unat (proof_idx ?bp) < length (txs h) \<and> tx_bytes E (txs h ! unat (proof_idx ?bp)) = tx_bytes E ?tx"
  proof (rule merkle_inclusion_sound [OF len t(1,4,2)])
    show "get_root sha ?bp (mid_state_txid sha E ?tx) = Inr (sha r)" using root eq t(3) by simp
    show "sha r \<noteq> replicate 32 0" using nonzero h(1) t(3) by auto
    have "block_strings sha E (txs h) \<subseteq> D" using D(3) h(1) by blast
    then have "set (mid_tree_strings sha (tree_nodes t)) \<union> tx_bytes E ` set (txs h) \<subseteq> D"
      by (simp add: block_strings_def t(1))
    then show "inj_on sha (set (mid_tree_strings sha (tree_nodes t)) \<union>
           set (get_root_strings sha (proof_idx ?bp) (merkle_proof ?bp) (mid_state_txid sha E ?tx)) \<union>
           tx_bytes E ` set (txs h) \<union> {tx_bytes E ?tx})"
      using D(1) by (intro inj_on_subset [OF inj]) (auto simp: spv_strings_def Let_def)
  qed (use no64 h(1) in auto)
  with eq h(1) show ?thesis by blast
qed

section \<open>Properties\<close>

text \<open>
  C16. An accepted SPV proof is genuine. Let the range represent the hashes of a list of headers,
  each of which commits to the transactions of its block, none of them encoded in 64 bytes and no
  Merkle root all zero. If \<open>verify\<close> accepts and SHA-256 has no collision among the strings hashed
  (a set \<open>D\<close> containing them), then the header of the proof is one of the chain and the transaction
  of the proof is, at the index of the proof, a transaction of that block.
\<close>

theorem spv_accepts_only_included:
  assumes "digest32 sha" "inj_on sha D" "spv_verify sha E s g = Inr True"
    and "mmr_guest_of sha (map (compute_block_hash sha) hs) g"
    and "\<forall>h \<in> set hs. header_wf h" "header_wf (spv_block_header s)"
      "\<forall>x \<in> set (inclusion_proof (spv_mmr_inclusion_proof s)). length x = 32"
    and "\<forall>h \<in> set hs. block_committed sha E h (txs h)"
    and "\<forall>h \<in> set hs. \<forall>x \<in> set (txs h). length (tx_bytes E x) \<noteq> 64"
      "length (tx_bytes E (spv_transaction s)) \<noteq> 64"
    and "\<forall>h \<in> set hs. merkle_root h \<noteq> replicate 32 0"
    and "spv_strings sha E s \<subseteq> D" "set (mmr_strings sha (map (compute_block_hash sha) hs)) \<subseteq> D"
      "\<forall>h \<in> set hs. block_strings sha E (txs h) \<subseteq> D \<and> header_bytes h \<in> D \<and> sha (header_bytes h) \<in> D"
  shows "\<exists>h \<in> set hs. spv_block_header s = h \<and> unat (proof_idx (spv_block_inclusion_proof s)) < length (txs h) \<and>
           tx_bytes E (txs h ! unat (proof_idx (spv_block_inclusion_proof s))) = tx_bytes E (spv_transaction s)"
  using assms by (rule spv_verify_sound)

definition demo_spv_header :: circuit_block_header where
  "demo_spv_header = \<lparr>version = 1, prev_block_hash = replicate 32 0, merkle_root = toy_sha demo_root,
     header_time = 7, header_bits = 0, header_nonce = 9\<rparr>"

definition demo_spv :: spv where
  "demo_spv = \<lparr>spv_transaction = demo_block_tx 2,
     spv_block_inclusion_proof = \<lparr>proof_idx = 1, merkle_proof = [toy_sha [1]]\<rparr>,
     spv_block_header = demo_spv_header,
     spv_mmr_inclusion_proof = \<lparr>subroot_idx = 0, internal_idx = 0, inclusion_proof = []\<rparr>\<rparr>"

definition demo_range :: mmr_guest where
  "demo_range = \<lparr>subroots = [compute_block_hash toy_sha demo_spv_header], mmr_size = 1\<rparr>"

lemma demo_spv_accepted: "spv_verify toy_sha demo_consensus demo_spv demo_range = Inr True"
  using demo_digests
  by (simp add: spv_verify_def demo_spv_def demo_range_def demo_spv_header_def get_root_def Let_def
      calculate_sha256_def ensure_def demo_root_def mmr_guest_verify_proof_def list_get_def get_subroot_def)

text \<open>The first two bytes of \<open>toy_sha\<close>, the length and the first byte of its argument, tell the strings apart.\<close>

lemma toy_sha_Cons:
  "\<exists>r. toy_sha (b # x) = of_nat (Suc (length x)) # b # r \<and> length r = 30"
  using digest32D [OF digest32_toy_sha, of "b # x"] by (simp add: toy_sha_def)

lemma demo_header_bytes: "\<exists>r. header_bytes demo_spv_header = 1 # r \<and> length r = 79"
proof -
  have "u32_to_le_bytes 1 = [1, 0, 0, 0]" by (simp add: u32_to_le_bytes_def nat_le_def nat_be_numeral)
  then show ?thesis using digest32D [OF digest32_toy_sha, of demo_root]
    by (simp add: header_bytes_def demo_spv_header_def)
qed

lemma demo_keys:
  "distinct (map toy_sha [toy_sha [1], toy_sha [2], toy_sha (toy_sha [1]) @ toy_sha (toy_sha [2]), demo_root, [1], [2],
     header_bytes demo_spv_header, toy_sha (header_bytes demo_spv_header)])"
  "toy_sha demo_root \<noteq> replicate 32 0"
proof -
  obtain h where h: "header_bytes demo_spv_header = 1 # h" "length h = 79" using demo_header_bytes by blast
  obtain a b where ab: "toy_sha [1] = 1 # 1 # a" "toy_sha [2] = 1 # 2 # b" "length a = 30" "length b = 30"
    using toy_sha_Cons [of 1 "[]"] toy_sha_Cons [of 2 "[]"] by auto
  obtain c d where cd: "toy_sha (1 # 1 # a) = 32 # 1 # c" "toy_sha (1 # 2 # b) = 32 # 1 # d" "length c = 30" "length d = 30"
    using toy_sha_Cons [of 1 "1 # a"] toy_sha_Cons [of 1 "2 # b"] ab by auto
  obtain e where e: "toy_sha (32 # 1 # c @ 32 # 1 # d) = 64 # 32 # e" "length e = 30"
    using toy_sha_Cons [of 32 "1 # c @ 32 # 1 # d"] cd by auto
  obtain f where f: "toy_sha (64 # 32 # e) = 32 # 64 # f" using toy_sha_Cons [of 64 "32 # e"] e by auto
  obtain g k where gk: "toy_sha (1 # h) = 80 # 1 # g" "toy_sha (80 # 1 # g) = 32 # 80 # k"
    using toy_sha_Cons [of 1 h] toy_sha_Cons [of 80 "1 # drop 2 (toy_sha (1 # h))"] h(2) by auto
  have "c \<noteq> d" using demo_digests ab cd by auto
  then show "distinct (map toy_sha [toy_sha [1], toy_sha [2], toy_sha (toy_sha [1]) @ toy_sha (toy_sha [2]), demo_root, [1], [2],
     header_bytes demo_spv_header, toy_sha (header_bytes demo_spv_header)])"
    by (simp add: demo_root_def h ab cd e f gk)
  have "hd (toy_sha demo_root) \<noteq> hd (replicate 32 0)" by (simp add: demo_root_def ab cd e f)
  then show "toy_sha demo_root \<noteq> replicate 32 0" by metis
qed

theorem spv_accepts_only_included_witness:
  "spv_verify toy_sha demo_consensus demo_spv demo_range = Inr True \<and>
   tx_bytes demo_consensus (demo_block ! 1) = tx_bytes demo_consensus (spv_transaction demo_spv)"
proof -
  let ?w = "toy_sha (toy_sha [1]) @ toy_sha (toy_sha [2])" and ?hb = "header_bytes demo_spv_header"
  let ?D = "{toy_sha [1], toy_sha [2], ?w, demo_root, [1], [2], ?hb, toy_sha ?hb}"
  have inj: "inj_on toy_sha ?D"
    using demo_keys(1) unfolding distinct_map by (simp only: list.set)
  have com: "block_committed toy_sha demo_consensus demo_spv_header demo_block"
    by (simp add: block_committed_def demo_mid_tree demo_spv_header_def merkle_root_of_def nth_checked_def)
      (simp add: demo_block_def)
  have blk: "block_strings toy_sha demo_consensus demo_block \<subseteq> ?D"
    unfolding block_strings_def demo_mid_tree by (auto simp: mid_tree_strings_def demo_block_def)
  have str: "spv_strings toy_sha demo_consensus demo_spv \<subseteq> ?D"
    by (auto simp: spv_strings_def Let_def demo_spv_def step_preimage_def demo_root_def)
  have rng: "mmr_guest_of toy_sha (map (compute_block_hash toy_sha) [demo_spv_header]) demo_range"
    by (simp add: mmr_guest_of_def demo_range_def peaks.simps)
  have wf: "header_wf demo_spv_header" by (simp add: header_wf_def demo_spv_header_def)
  have nz: "merkle_root demo_spv_header \<noteq> replicate 32 0" using demo_keys(2) by (simp add: demo_spv_header_def)
  have n64: "\<forall>x \<in> set demo_block. length (tx_bytes demo_consensus x) \<noteq> 64" by (simp add: demo_block_def)
  have sel: "spv_block_header demo_spv = demo_spv_header" "spv_transaction demo_spv = demo_block_tx 2"
    "inclusion_proof (spv_mmr_inclusion_proof demo_spv) = []" by (simp_all add: demo_spv_def)
  have none: "set (mmr_strings toy_sha (map (compute_block_hash toy_sha) [demo_spv_header])) \<subseteq> ?D"
    by (subst mmr_strings.simps) simp
  have hb: "\<forall>h \<in> set [demo_spv_header]. block_strings toy_sha demo_consensus demo_block \<subseteq> ?D \<and>
      header_bytes h \<in> ?D \<and> toy_sha (header_bytes h) \<in> ?D"
    using blk by (simp only: list.set) blast
  have "\<exists>h \<in> set [demo_spv_header]. spv_block_header demo_spv = h \<and>
      unat (proof_idx (spv_block_inclusion_proof demo_spv)) < length demo_block \<and>
      tx_bytes demo_consensus (demo_block ! unat (proof_idx (spv_block_inclusion_proof demo_spv)))
        = tx_bytes demo_consensus (spv_transaction demo_spv)"
    by (rule spv_accepts_only_included [OF digest32_toy_sha inj demo_spv_accepted rng _ _ _ _ _ _ _ str none hb])
      (simp_all add: wf com nz n64 sel)
  with demo_spv_accepted show ?thesis by (simp add: demo_spv_def)
qed

end
