(* ===== verification/Work_Only.thy ===== *)
theory Work_Only
  imports Header_Chain_Proofs
begin

text \<open>
  The work-only circuit (\<open>src/circuits-lib/src/work_only/mod.rs\<close>): it verifies a header chain proof
  of the network's fixed circuit and commits the lower 128 bits of the total work.
\<close>

section \<open>The circuit\<close>

definition MAINNET_HEADER_CHAIN_METHOD_ID :: method_id where
  "MAINNET_HEADER_CHAIN_METHOD_ID =
     [979737163, 3139115623, 434676403, 1033805265, 2367912767, 640592238, 952268029, 3887751414]"

definition TESTNET4_HEADER_CHAIN_METHOD_ID :: method_id where
  "TESTNET4_HEADER_CHAIN_METHOD_ID =
     [2487449420, 2186829733, 2515280211, 3828941899, 3409442174, 3966286449, 922629988, 1022921726]"

definition SIGNET_HEADER_CHAIN_METHOD_ID :: method_id where
  "SIGNET_HEADER_CHAIN_METHOD_ID =
     [4072711430, 3526910400, 551000790, 1037364378, 1103702670, 2556721815, 1120182538, 4161994494]"

definition REGTEST_HEADER_CHAIN_METHOD_ID :: method_id where
  "REGTEST_HEADER_CHAIN_METHOD_ID =
     [1720128379, 2377242113, 951606047, 2583305317, 2941342008, 2869654011, 3094413664, 2824949714]"

definition HEADER_CHAIN_METHOD_ID :: "network \<Rightarrow> method_id" where
  "HEADER_CHAIN_METHOD_ID net =
     (case net of
        Mainnet \<Rightarrow> MAINNET_HEADER_CHAIN_METHOD_ID
      | Testnet4 \<Rightarrow> TESTNET4_HEADER_CHAIN_METHOD_ID
      | Signet \<Rightarrow> SIGNET_HEADER_CHAIN_METHOD_ID
      | Regtest \<Rightarrow> REGTEST_HEADER_CHAIN_METHOD_ID)"

record work_only_circuit_input =
  wo_header_chain_circuit_output :: block_header_circuit_output

record work_only_circuit_output =
  work_u128 :: bytes
  wo_genesis_state_hash :: bytes

text \<open>Splitting a \<open>U256\<close> gives its high and low halves; the low half is kept.\<close>

definition work_conversion :: "u256 \<Rightarrow> bytes" where
  "work_conversion work = nat_be 16 (unat (ucast work :: u128))"

definition work_only_circuit ::
  "network \<Rightarrow> (method_id \<Rightarrow> block_header_circuit_output \<Rightarrow> bool) \<Rightarrow> work_only_circuit_input \<Rightarrow>
   work_only_circuit_output result" where
  "work_only_circuit net verify input =
     (let out = wo_header_chain_circuit_output input in
      rbind (ensure (HEADER_CHAIN_METHOD_ID net = hc_method_id out)
               (Panic ''Invalid method ID for header chain circuit'')) (\<lambda>_.
      rbind (ensure (verify (hc_method_id out) out) (Panic ''env::verify'')) (\<lambda>_.
      Inr \<lparr>work_u128 = work_conversion (u256_from_be_bytes (total_work (hc_chain_state out))),
           wo_genesis_state_hash = genesis_state_hash out\<rparr>)))"

section \<open>The truncated work\<close>

lemma length_work_conversion [simp]: "length (work_conversion w) = 16"
  by (simp add: work_conversion_def)

lemma be_nat_work_conversion: "be_nat (work_conversion w) = unat w mod 2 ^ 128"
  by (simp add: work_conversion_def be_nat_nat_be unsigned_ucast_eq take_bit_eq_mod)

lemma be_nat_drop: "be_nat (drop k bs) = be_nat bs mod 256 ^ (length bs - k)"
proof -
  have "be_nat bs = be_nat (take k bs) * 256 ^ (length bs - k) + be_nat (drop k bs)"
    using be_nat_append [of "take k bs" "drop k bs"] by simp
  moreover have "be_nat (drop k bs) < 256 ^ (length bs - k)"
    using be_nat_less [of "drop k bs"] by simp
  ultimately show ?thesis by simp
qed

lemma work_conversion_bytes:
  assumes "length w = 32"
  shows "work_conversion (u256_from_be_bytes w) = drop 16 w"
proof (rule be_nat_inject [THEN iffD1])
  show "be_nat (work_conversion (u256_from_be_bytes w)) = be_nat (drop 16 w)"
    using assms by (simp add: be_nat_work_conversion unat_u256_from_be_bytes be_nat_drop)
qed (use assms in simp)

lemma work_only_circuit_Inr:
  assumes "work_only_circuit net verify input = Inr out"
  shows "hc_method_id (wo_header_chain_circuit_output input) = HEADER_CHAIN_METHOD_ID net"
    and "verify (HEADER_CHAIN_METHOD_ID net) (wo_header_chain_circuit_output input)"
    and "work_u128 out = work_conversion (u256_from_be_bytes (total_work (hc_chain_state (wo_header_chain_circuit_output input))))"
    and "wo_genesis_state_hash out = genesis_state_hash (wo_header_chain_circuit_output input)"
  using assms by (auto simp: work_only_circuit_def Let_def)

section \<open>Properties\<close>

text \<open>
  C17. The committed work is the work of a verified chain. If the zkVM accepts under the network's
  header chain image id only outputs of that circuit, then the committed work is the total work,
  modulo \<open>2 ^ 128\<close>, of a chain state that accepted headers lead to from the state committed to
  by the genesis hash of the output.
\<close>

theorem work_only_output_genuine:
  assumes "work_only_circuit net verify input = Inr out"
    and "\<forall>r. verify (HEADER_CHAIN_METHOD_ID net) r \<longrightarrow> hc_receipt net sha (HEADER_CHAIN_METHOD_ID net) other r"
  shows "\<exists>gs batches s. wo_genesis_state_hash out = to_hash sha gs \<and>
           rfold (apply_block_headers net sha) batches gs = Inr s \<and>
           be_nat (work_u128 out) = be_nat (total_work s) mod 2 ^ 128"
proof -
  note c = work_only_circuit_Inr [OF assms(1)]
  let ?r = "wo_header_chain_circuit_output input"
  have "hc_receipt net sha (HEADER_CHAIN_METHOD_ID net) other ?r" using assms(2) c(2) by blast
  from hc_receipt_trace [OF this c(1)] obtain gs batches where
    "genesis_state_hash ?r = to_hash sha gs"
    "rfold (apply_block_headers net sha) batches gs = Inr (hc_chain_state ?r)" by blast
  moreover have "(be_nat (total_work (hc_chain_state ?r)) mod 2 ^ 256) mod 2 ^ 128 =
      be_nat (total_work (hc_chain_state ?r)) mod 2 ^ 128"
    by (rule mod_mod_cancel) (rule le_imp_power_dvd, simp)
  then have "be_nat (work_u128 out) = be_nat (total_work (hc_chain_state ?r)) mod 2 ^ 128"
    unfolding c(3) be_nat_work_conversion u256_from_be_bytes_def unat_u256_of_nat .
  ultimately show ?thesis using c(4) by metis
qed

theorem work_only_output_genuine_witness:
  "\<exists>(r :: block_header_circuit_output) out gs batches s.
     work_only_circuit Regtest (\<lambda>m x. x = r) \<lparr>wo_header_chain_circuit_output = r\<rparr> = Inr out \<and>
     wo_genesis_state_hash out = to_hash zero_sha gs \<and>
     rfold (apply_block_headers Regtest zero_sha) batches gs = Inr s \<and>
     be_nat (work_u128 out) = be_nat (total_work s) mod 2 ^ 128"
proof -
  obtain s' where s': "apply_block_headers Regtest zero_sha (demo_chain 3) (genesis_state Regtest) = Inr s'"
    using demo_run [of 3] by auto
  let ?id = "HEADER_CHAIN_METHOD_ID Regtest"
  define r where "r = \<lparr>hc_method_id = ?id,
    genesis_state_hash = to_hash zero_sha (genesis_state Regtest), hc_chain_state = s'\<rparr>"
  let ?input = "\<lparr>input_method_id = ?id, prev_proof = GenesisBlock (genesis_state Regtest), block_headers = demo_chain 3\<rparr>"
  have "header_chain_circuit Regtest zero_sha (\<lambda>_ _. False) ?input = Inr r"
    using s' by (simp add: header_chain_circuit_def r_def)
  then have "hc_receipt Regtest zero_sha ?id (\<lambda>_ _. False) r" by (rule hc_receipt.run) simp
  then have sound: "\<forall>x. x = r \<longrightarrow> hc_receipt Regtest zero_sha ?id (\<lambda>_ _. False) x" by simp
  have "\<exists>out. work_only_circuit Regtest (\<lambda>m x. x = r) \<lparr>wo_header_chain_circuit_output = r\<rparr> = Inr out"
    by (simp add: work_only_circuit_def r_def)
  then show ?thesis using work_only_output_genuine [OF _ sound] by blast
qed

end
