(* ===== verification/Taproot_Sighash.thy ===== *)
theory Taproot_Sighash
  imports Circuit_Tx
begin

text \<open>
  The taproot signature message of the bridge circuit (\<open>sighash\<close> and
  \<open>taproot_encode_signing_data_to_with_annex_digest\<close> of
  \<open>src/circuits-lib/src/bridge_circuit/mod.rs\<close>), which takes the annex as a digest. The consensus
  encodings and the numbering of the signature hash types are those of the \<open>bitcoin\<close> crate: a
  parameter \<open>A\<close>.
\<close>

unbundle bit_operations_syntax

section \<open>The message\<close>

datatype tap_sighash_type =
    SighashDefault | SighashAll | SighashNone | SighashSingle
  | SighashAllPlusAnyoneCanPay | SighashNonePlusAnyoneCanPay | SighashSinglePlusAnyoneCanPay

datatype prevouts = PrevoutsOne nat tx_out | PrevoutsAll "tx_out list"

record sighash_api =
  sighash_byte :: "tap_sighash_type \<Rightarrow> u8"
  from_consensus_u8 :: "u8 \<Rightarrow> tap_sighash_type option"
  sig_u8 :: "u8 \<Rightarrow> bytes"
  sig_u32 :: "u32 \<Rightarrow> bytes"
  sig_version :: "i32 \<Rightarrow> bytes"
  sig_lock_time :: "u32 \<Rightarrow> bytes"
  sig_hash :: "bytes \<Rightarrow> bytes"
  sig_out_point :: "out_point \<Rightarrow> bytes"
  sig_amount :: "u64 \<Rightarrow> bytes"
  sig_script :: "bytes \<Rightarrow> bytes"
  sig_sequence :: "u32 \<Rightarrow> bytes"
  sig_tx_out :: "tx_out \<Rightarrow> bytes"

text \<open>\<open>Result::expect\<close>: an error becomes a panic with the message given.\<close>

definition expect_ok :: "'a result \<Rightarrow> error \<Rightarrow> 'a result" where
  "expect_ok r e = (case r of Inl _ \<Rightarrow> Inl e | Inr x \<Rightarrow> Inr x)"

lemma expect_ok_eq_Inr [simp]: "expect_ok r e = Inr x \<longleftrightarrow> r = Inr x"
  by (cases r) (simp_all add: expect_ok_def)

definition split_anyonecanpay_flag :: "tap_sighash_type \<Rightarrow> tap_sighash_type \<times> bool" where
  "split_anyonecanpay_flag s =
     (case s of
        SighashDefault \<Rightarrow> (SighashDefault, False)
      | SighashAll \<Rightarrow> (SighashAll, False)
      | SighashNone \<Rightarrow> (SighashNone, False)
      | SighashSingle \<Rightarrow> (SighashSingle, False)
      | SighashAllPlusAnyoneCanPay \<Rightarrow> (SighashAll, True)
      | SighashNonePlusAnyoneCanPay \<Rightarrow> (SighashNone, True)
      | SighashSinglePlusAnyoneCanPay \<Rightarrow> (SighashSingle, True))"

definition get_for_prevouts :: "prevouts \<Rightarrow> nat \<Rightarrow> tx_out result" where
  "get_for_prevouts p input_index =
     (case p of
        PrevoutsOne index prevout \<Rightarrow> if input_index = index then Inr prevout else Inl (Err ''InvalidOneIndex'')
      | PrevoutsAll all \<Rightarrow> if input_index < length all then Inr (all ! input_index) else Inl (Err ''InvalidAllIndex''))"

definition unwrap_all_prevouts :: "prevouts \<Rightarrow> tx_out list result" where
  "unwrap_all_prevouts p =
     (case p of
        PrevoutsAll all \<Rightarrow> Inr all
      | PrevoutsOne _ _ \<Rightarrow> Inl (Panic ''cannot get all prevouts from a single prevout''))"

definition check_all_prevouts :: "prevouts \<Rightarrow> transaction \<Rightarrow> unit result" where
  "check_all_prevouts p tx =
     (case p of
        PrevoutsAll all \<Rightarrow> ensure (length all = length (tx_input tx)) (Panic ''Invalid number of prevouts'')
      | PrevoutsOne _ _ \<Rightarrow> Inr ())"

text \<open>The digests of all inputs, written unless the signature covers a single input.\<close>

definition inputs_part :: "sighash_api \<Rightarrow> hasher \<Rightarrow> transaction \<Rightarrow> tx_out list \<Rightarrow> bytes" where
  "inputs_part A sha tx all =
     sig_hash A (sha (concat (map (\<lambda>i. sig_out_point A (previous_output i)) (tx_input tx))))
     @ sig_hash A (sha (concat (map (\<lambda>out. sig_amount A (txo_value out)) all)))
     @ sig_hash A (sha (concat (map (\<lambda>out. sig_script A (script_pubkey out)) all)))
     @ sig_hash A (sha (concat (map (\<lambda>i. sig_sequence A (sequence i)) (tx_input tx))))"

definition outputs_part :: "sighash_api \<Rightarrow> hasher \<Rightarrow> transaction \<Rightarrow> bytes" where
  "outputs_part A sha tx = sig_hash A (sha (concat (map (sig_tx_out A) (tx_output tx))))"

definition spend_type :: "bytes option \<Rightarrow> (bytes \<times> u32) option \<Rightarrow> u8" where
  "spend_type annex_hash leaf =
     (0 OR (if annex_hash \<noteq> None then 1 else 0)) OR (if leaf \<noteq> None then 2 else 0)"

definition this_input_part :: "sighash_api \<Rightarrow> transaction \<Rightarrow> nat \<Rightarrow> prevouts \<Rightarrow> bytes result" where
  "this_input_part A tx input_index p =
     rbind (expect (if input_index < length (tx_input tx) then Some (tx_input tx ! input_index) else None)
              (Panic ''invalid input index'')) (\<lambda>txin.
     rbind (expect_ok (get_for_prevouts p input_index) (Panic ''invalid prevout for input index'')) (\<lambda>previous.
     Inr (sig_out_point A (previous_output txin) @ sig_amount A (txo_value previous)
          @ sig_script A (script_pubkey previous) @ sig_sequence A (sequence txin))))"

definition taproot_encode_signing_data_to_with_annex_digest ::
  "sighash_api \<Rightarrow> hasher \<Rightarrow> transaction \<Rightarrow> nat \<Rightarrow> prevouts \<Rightarrow> bytes option \<Rightarrow> (bytes \<times> u32) option \<Rightarrow>
   tap_sighash_type \<Rightarrow> bytes result" where
  "taproot_encode_signing_data_to_with_annex_digest A sha tx input_index p annex_hash leaf sighash_type =
     rbind (check_all_prevouts p tx) (\<lambda>_.
     let (sighash, anyone_can_pay) = split_anyonecanpay_flag sighash_type in
     rbind (if \<not> anyone_can_pay
            then rbind (unwrap_all_prevouts p) (\<lambda>all. Inr (inputs_part A sha tx all))
            else Inr []) (\<lambda>inputs.
     rbind (if anyone_can_pay then this_input_part A tx input_index p
            else Inr (sig_u32 A (of_nat input_index))) (\<lambda>this_input.
     rbind (if sighash = SighashSingle
            then rbind (expect (if input_index < length (tx_output tx) then Some (tx_output tx ! input_index) else None)
                          (Panic ''SIGHASH_SINGLE requires a corresponding output'')) (\<lambda>out.
                 Inr (sig_hash A (sha (sig_tx_out A out))))
            else Inr []) (\<lambda>this_output.
     Inr (sig_u8 A 0 @ sig_u8 A (sighash_byte A sighash_type) @ sig_version A (tx_version tx)
          @ sig_lock_time A (lock_time tx) @ inputs
          @ (if sighash \<noteq> SighashNone \<and> sighash \<noteq> SighashSingle then outputs_part A sha tx else [])
          @ sig_u8 A (spend_type annex_hash leaf) @ this_input
          @ (case annex_hash of Some h \<Rightarrow> sig_hash A h | None \<Rightarrow> [])
          @ this_output
          @ (case leaf of Some (h, pos) \<Rightarrow> sig_hash A h @ sig_u8 A 0 @ sig_u32 A pos | None \<Rightarrow> []))))))"

text \<open>\<open>TapSighash\<close> is a tagged hash of the \<open>bitcoin\<close> crate, the parameter \<open>tap_hash\<close>.\<close>

definition sighash ::
  "sighash_api \<Rightarrow> hasher \<Rightarrow> hasher \<Rightarrow> transaction \<Rightarrow> prevouts \<Rightarrow> nat \<Rightarrow> tap_sighash_type \<Rightarrow> bytes option \<Rightarrow>
   bytes result" where
  "sighash A sha tap_hash wt_tx p input_index sighash_type annex_hash =
     rbind (taproot_encode_signing_data_to_with_annex_digest A sha wt_tx input_index p annex_hash None sighash_type)
       (\<lambda>msg. Inr (tap_hash msg))"

section \<open>What the message determines\<close>

text \<open>
  Encodings of which none is a proper prefix of another, so that a concatenation of them can be read
  back in one way only.
\<close>

locale prefix_code =
  fixes enc :: "'a \<Rightarrow> bytes" and valid :: "'a \<Rightarrow> bool"
  assumes nonempty: "valid x \<Longrightarrow> enc x \<noteq> []"
    and prefix: "valid x \<Longrightarrow> valid y \<Longrightarrow> enc x @ r = enc y @ s \<Longrightarrow> x = y \<and> r = s"
begin

lemma concat_inject:
  "\<forall>x \<in> set xs. valid x \<Longrightarrow> \<forall>y \<in> set ys. valid y \<Longrightarrow> concat (map enc xs) = concat (map enc ys) \<Longrightarrow> xs = ys"
proof (induction xs arbitrary: ys)
  case Nil
  then show ?case by (cases ys) (simp_all add: nonempty)
next
  case (Cons x xs)
  from Cons.prems obtain y zs where ys: "ys = y # zs" by (cases ys) (simp_all add: nonempty)
  have h: "valid x" "valid y" "enc x @ concat (map enc xs) = enc y @ concat (map enc zs)"
    using Cons.prems ys by simp_all
  have "x = y \<and> concat (map enc xs) = concat (map enc zs)" by (rule prefix [OF h])
  with Cons.IH [of zs] Cons.prems ys show ?case by simp
qed

lemma concat_map_inject:
  assumes "\<forall>x \<in> set xs. valid (f x)" "\<forall>y \<in> set ys. valid (f y)"
    and "concat (map (\<lambda>x. enc (f x)) xs) = concat (map (\<lambda>y. enc (f y)) ys)"
  shows "map f xs = map f ys"
proof (rule concat_inject)
  show "concat (map enc (map f xs)) = concat (map enc (map f ys))" 
    using assms(3) by (simp only: map_map comp_def)
  show "\<forall>x \<in> set (map f xs). valid x" "\<forall>y \<in> set (map f ys). valid y" using assms(1,2) by (simp_all only: set_map ball_simps)
qed

end

lemma codec_prefix_code:
  assumes "codec ser de valid" "\<And>x. valid x \<Longrightarrow> ser x \<noteq> []"
  shows "prefix_code ser valid"
proof
  fix x y r s assume h: "valid x" "valid y" "ser x @ r = ser y @ s"
  have "Some (x, r) = de (ser x @ r)" by (rule codec.roundtrip [OF assms(1) h(1), symmetric])
  also have "\<dots> = Some (y, s)" unfolding h(3) by (rule codec.roundtrip [OF assms(1) h(2)])
  finally show "x = y \<and> r = s" by simp
qed (rule assms(2))

text \<open>The documented shape of the encodings: fixed widths, and prefix codes on the values that occur.\<close>

definition sighash_laws :: "sighash_api \<Rightarrow> bool" where
  "sighash_laws A \<longleftrightarrow>
     inj (sighash_byte A) \<and> (\<forall>x. length (sig_u8 A x) = 1) \<and> inj (sig_u8 A) \<and>
     (\<forall>x. length (sig_u32 A x) = 4) \<and> inj (sig_u32 A) \<and>
     (\<forall>x. length (sig_version A x) = 4) \<and> inj (sig_version A) \<and>
     (\<forall>x. length (sig_lock_time A x) = 4) \<and> inj (sig_lock_time A) \<and>
     (\<forall>x. length (sig_hash A x) = length x) \<and> inj (sig_hash A) \<and>
     prefix_code (sig_out_point A) (\<lambda>p. length (op_txid p) = 32) \<and>
     prefix_code (sig_amount A) (\<lambda>_. True) \<and> prefix_code (sig_script A) vec_fits \<and>
     prefix_code (sig_sequence A) (\<lambda>_. True) \<and> prefix_code (sig_tx_out A) valid_txout"

text \<open>The strings hashed into the message, which depend on what the signature hash type covers.\<close>

definition all_inputs_strings :: "sighash_api \<Rightarrow> transaction \<Rightarrow> tx_out list \<Rightarrow> bytes list" where
  "all_inputs_strings A tx all =
     [concat (map (\<lambda>i. sig_out_point A (previous_output i)) (tx_input tx)),
      concat (map (\<lambda>out. sig_amount A (txo_value out)) all),
      concat (map (\<lambda>out. sig_script A (script_pubkey out)) all),
      concat (map (\<lambda>i. sig_sequence A (sequence i)) (tx_input tx))]"

definition message_strings :: "sighash_api \<Rightarrow> transaction \<Rightarrow> nat \<Rightarrow> tx_out list \<Rightarrow> tap_sighash_type \<Rightarrow> bytes list" where
  "message_strings A tx i all st =
     (let (base, anyone_can_pay) = split_anyonecanpay_flag st in
      (if anyone_can_pay then [] else all_inputs_strings A tx all)
      @ (if base = SighashNone then []
         else if base = SighashSingle then [sig_tx_out A (tx_output tx ! i)]
         else [concat (map (sig_tx_out A) (tx_output tx))]))"

definition one_input :: "sighash_api \<Rightarrow> transaction \<Rightarrow> nat \<Rightarrow> tx_out list \<Rightarrow> bytes" where
  "one_input A tx i all =
     sig_out_point A (previous_output (tx_input tx ! i)) @ sig_amount A (txo_value (all ! i))
     @ sig_script A (script_pubkey (all ! i)) @ sig_sequence A (sequence (tx_input tx ! i))"

lemma signing_data_form:
  assumes "taproot_encode_signing_data_to_with_annex_digest A sha tx i (PrevoutsAll all) annex None st = Inr m"
    and "split_anyonecanpay_flag st = (base, acp)"
  shows "m = sig_u8 A 0 @ sig_u8 A (sighash_byte A st) @ sig_version A (tx_version tx) @ sig_lock_time A (lock_time tx)
             @ (if acp then [] else inputs_part A sha tx all)
             @ (if base = SighashNone \<or> base = SighashSingle then [] else outputs_part A sha tx)
             @ sig_u8 A (spend_type annex None) @ (if acp then one_input A tx i all else sig_u32 A (of_nat i))
             @ (case annex of Some h \<Rightarrow> sig_hash A h | None \<Rightarrow> [])
             @ (if base = SighashSingle then sig_hash A (sha (sig_tx_out A (tx_output tx ! i))) else [])"
    and "acp \<Longrightarrow> i < length (tx_input tx) \<and> i < length all"
    and "base = SighashSingle \<Longrightarrow> i < length (tx_output tx)"
  using assms
  by (auto simp: taproot_encode_signing_data_to_with_annex_digest_def Let_def unwrap_all_prevouts_def check_all_prevouts_def
      this_input_part_def get_for_prevouts_def one_input_def expect_def split: if_splits)

lemma zipped_tx_outs:
  "map txo_value xs = map txo_value ys \<Longrightarrow> map script_pubkey xs = map script_pubkey ys \<Longrightarrow> xs = (ys :: tx_out list)"
proof (induction xs arbitrary: ys)
  case Nil
  then show ?case by simp
next
  case (Cons x xs)
  from Cons.prems obtain y zs where ys: "ys = y # zs" by (cases ys) auto
  with Cons.prems have "x = y" by (simp add: tx_out.equality)
  with Cons.IH [of zs] Cons.prems ys show ?case by simp
qed

text \<open>
  Everything a signature covers: version, lock time and annex; all inputs with the outputs they spend,
  or only the signed one; and all outputs, the one at the index of the input, or none.
\<close>

definition same_inputs :: "transaction \<Rightarrow> nat \<Rightarrow> tx_out list \<Rightarrow> transaction \<Rightarrow> nat \<Rightarrow> tx_out list \<Rightarrow> bool" where
  "same_inputs tx i all tx' i' all' \<longleftrightarrow>
     map previous_output (tx_input tx) = map previous_output (tx_input tx') \<and>
     map sequence (tx_input tx) = map sequence (tx_input tx') \<and> all = all' \<and> (of_nat i :: u32) = of_nat i'"

definition same_one_input :: "transaction \<Rightarrow> nat \<Rightarrow> tx_out list \<Rightarrow> transaction \<Rightarrow> nat \<Rightarrow> tx_out list \<Rightarrow> bool" where
  "same_one_input tx i all tx' i' all' \<longleftrightarrow>
     previous_output (tx_input tx ! i) = previous_output (tx_input tx' ! i') \<and>
     sequence (tx_input tx ! i) = sequence (tx_input tx' ! i') \<and> all ! i = all' ! i'"

definition same_signed_content ::
  "tap_sighash_type \<Rightarrow> transaction \<Rightarrow> nat \<Rightarrow> tx_out list \<Rightarrow> bytes option \<Rightarrow> transaction \<Rightarrow> nat \<Rightarrow> tx_out list \<Rightarrow> bytes option \<Rightarrow> bool" where
  "same_signed_content st tx i all annex tx' i' all' annex' \<longleftrightarrow>
     (let (base, anyone_can_pay) = split_anyonecanpay_flag st in
      tx_version tx = tx_version tx' \<and> lock_time tx = lock_time tx' \<and> annex = annex' \<and>
      (if anyone_can_pay then same_one_input tx i all tx' i' all' else same_inputs tx i all tx' i' all') \<and>
      (if base = SighashNone then True
       else if base = SighashSingle then tx_output tx ! i = tx_output tx' ! i'
       else tx_output tx = tx_output tx'))"

lemma sighash_codes:
  assumes "sighash_laws A"
  shows "prefix_code (sig_out_point A) (\<lambda>p. length (op_txid p) = 32)" "prefix_code (sig_amount A) (\<lambda>_. True)"
    "prefix_code (sig_script A) vec_fits" "prefix_code (sig_sequence A) (\<lambda>_. True)" "prefix_code (sig_tx_out A) valid_txout"
  using assms by (simp_all only: sighash_laws_def)

lemma one_input_inject:
  assumes laws: "sighash_laws A" and valid: "valid_transaction tx" "valid_transaction tx'"
      "\<forall>out \<in> set all. valid_txout out" "\<forall>out \<in> set all'. valid_txout out"
    and idx: "i < length (tx_input tx)" "i < length all" "i' < length (tx_input tx')" "i' < length all'"
    and eq: "one_input A tx i all @ r = one_input A tx' i' all' @ r'"
  shows "same_one_input tx i all tx' i' all'" "r = r'"
proof -
  note codes = sighash_codes [OF laws]
  have V: "length (op_txid (previous_output (tx_input tx ! i))) = 32" "length (op_txid (previous_output (tx_input tx' ! i'))) = 32"
      "vec_fits (script_pubkey (all ! i))" "vec_fits (script_pubkey (all' ! i'))"
    using valid idx by (simp_all add: valid_transaction_def valid_txin_def valid_txout_def)
  note e = eq [unfolded one_input_def append_assoc]
  note 1 = prefix_code.prefix [OF codes(1) V(1,2) e]
  note 2 = prefix_code.prefix [OF codes(2) TrueI TrueI conjunct2 [OF 1]]
  note 3 = prefix_code.prefix [OF codes(3) V(3,4) conjunct2 [OF 2]]
  note 4 = prefix_code.prefix [OF codes(4) TrueI TrueI conjunct2 [OF 3]]
  show "r = r'" using 4 by simp
  have "all ! i = all' ! i'" using 2 3 by (simp add: tx_out.equality)
  then show "same_one_input tx i all tx' i' all'" using 1 4 by (simp add: same_one_input_def)
qed

lemma all_inputs_determine:
  assumes laws: "sighash_laws A" and valid: "valid_transaction tx" "valid_transaction tx'"
      "\<forall>out \<in> set all. valid_txout out" "\<forall>out \<in> set all'. valid_txout out"
    and eq: "all_inputs_strings A tx all = all_inputs_strings A tx' all'"
  shows "map previous_output (tx_input tx) = map previous_output (tx_input tx') \<and>
     map sequence (tx_input tx) = map sequence (tx_input tx') \<and> all = all'"
proof -
  note codes = sighash_codes [OF laws]
  have E: "concat (map (\<lambda>i. sig_out_point A (previous_output i)) (tx_input tx))
             = concat (map (\<lambda>i. sig_out_point A (previous_output i)) (tx_input tx'))"
      "concat (map (\<lambda>out. sig_amount A (txo_value out)) all) = concat (map (\<lambda>out. sig_amount A (txo_value out)) all')"
      "concat (map (\<lambda>out. sig_script A (script_pubkey out)) all)
         = concat (map (\<lambda>out. sig_script A (script_pubkey out)) all')"
      "concat (map (\<lambda>i. sig_sequence A (sequence i)) (tx_input tx))
         = concat (map (\<lambda>i. sig_sequence A (sequence i)) (tx_input tx'))"
    using eq by (simp_all only: all_inputs_strings_def list.inject)
  have V: "\<forall>i \<in> set (tx_input tx). length (op_txid (previous_output i)) = 32"
      "\<forall>i \<in> set (tx_input tx'). length (op_txid (previous_output i)) = 32"
      "\<forall>out \<in> set all. vec_fits (script_pubkey out)" "\<forall>out \<in> set all'. vec_fits (script_pubkey out)"
    using valid by (simp_all add: valid_transaction_def valid_txin_def valid_txout_def)
  have "map previous_output (tx_input tx) = map previous_output (tx_input tx')"
    by (rule prefix_code.concat_map_inject [OF codes(1) V(1,2) E(1)])
  moreover have "map sequence (tx_input tx) = map sequence (tx_input tx')"
    by (rule prefix_code.concat_map_inject [OF codes(4) _ _ E(4)]) simp_all
  moreover have "map txo_value all = map txo_value all'"
    by (rule prefix_code.concat_map_inject [OF codes(2) _ _ E(2)]) simp_all
  moreover have "map script_pubkey all = map script_pubkey all'"
    by (rule prefix_code.concat_map_inject [OF codes(3) V(3,4) E(3)])
  ultimately show ?thesis using zipped_tx_outs by blast
qed

lemma sighash_widths:
  assumes "sighash_laws A"
  shows "length (sig_u8 A x) = 1" "length (sig_u32 A w) = 4" "length (sig_version A v) = 4"
    "length (sig_lock_time A w) = 4" "length (sig_hash A b) = length b"
    "sig_u8 A x = sig_u8 A y \<longleftrightarrow> x = y" "sig_u32 A w = sig_u32 A w' \<longleftrightarrow> w = w'" "sig_version A v = sig_version A v' \<longleftrightarrow> v = v'"
    "sig_lock_time A w = sig_lock_time A w' \<longleftrightarrow> w = w'" "sig_hash A b = sig_hash A b' \<longleftrightarrow> b = b'"
    "sighash_byte A st = sighash_byte A st' \<longleftrightarrow> st = st'"
  using assms by (simp_all add: sighash_laws_def inj_eq)

definition signed_messages ::
  "sighash_api \<Rightarrow> hasher \<Rightarrow> transaction \<Rightarrow> nat \<Rightarrow> tx_out list \<Rightarrow> bytes option \<Rightarrow> tap_sighash_type \<Rightarrow> bytes set" where
  "signed_messages A sha tx i all annex st =
     {m. taproot_encode_signing_data_to_with_annex_digest A sha tx i (PrevoutsAll all) annex None st = Inr m}"

text \<open>The message is read from its front; the annex digest is delimited from behind.\<close>

lemma signing_data_fields:
  assumes laws: "sighash_laws A" and len: "digest32 sha"
    and valid: "valid_transaction tx" "valid_transaction tx'"
      "\<forall>out \<in> set all. valid_txout out" "\<forall>out \<in> set all'. valid_txout out"
    and m: "taproot_encode_signing_data_to_with_annex_digest A sha tx i (PrevoutsAll all) annex None st = Inr m"
      "taproot_encode_signing_data_to_with_annex_digest A sha tx' i' (PrevoutsAll all') annex' None st' = Inr m"
    and flag: "split_anyonecanpay_flag st = (base, acp)"
  shows "st = st'" "tx_version tx = tx_version tx'" "lock_time tx = lock_time tx'" "annex = annex'"
    "if acp then same_one_input tx i all tx' i' all' else (of_nat i :: u32) = of_nat i'"
    "map sha (message_strings A tx i all st) = map sha (message_strings A tx' i' all' st)"
proof -
  note W = sighash_widths [OF laws]
  have sha32: "length (sha x) = 32" for x using len by simp
  obtain base' acp' where flag': "split_anyonecanpay_flag st' = (base', acp')" by fastforce
  note f = signing_data_form [OF m(1) flag] and f' = signing_data_form [OF m(2) flag']
  note e = f(1) [unfolded f'(1)]
  show st: "st = st'" using e by (simp add: W)
  with flag flag' have b: "base' = base" "acp' = acp" by simp_all
  let ?annex = "case annex of Some h \<Rightarrow> sig_hash A h | None \<Rightarrow> []" and ?annex' = "case annex' of Some h \<Rightarrow> sig_hash A h | None \<Rightarrow> []"
  let ?out = "\<lambda>tx i. if base = SighashSingle then sig_hash A (sha (sig_tx_out A (tx_output tx ! i))) else []"
  let ?in = "\<lambda>tx i all. if acp then one_input A tx i all else sig_u32 A (of_nat i)"
  have front: "tx_version tx = tx_version tx'" "lock_time tx = lock_time tx'"
      "\<not> acp \<Longrightarrow> inputs_part A sha tx all = inputs_part A sha tx' all'"
      "base \<noteq> SighashNone \<Longrightarrow> base \<noteq> SighashSingle \<Longrightarrow> outputs_part A sha tx = outputs_part A sha tx'"
      "spend_type annex None = spend_type annex' None"
      "?in tx i all @ ?annex @ ?out tx i = ?in tx' i' all' @ ?annex' @ ?out tx' i'"
    using e unfolding b st by (auto simp: W inputs_part_def outputs_part_def sha32 split: if_splits)
  then show "tx_version tx = tx_version tx'" "lock_time tx = lock_time tx'" by simp_all
  have this_in: "(if acp then same_one_input tx i all tx' i' all' else (of_nat i :: u32) = of_nat i') \<and>
      ?annex @ ?out tx i = ?annex' @ ?out tx' i'"
    using front(6) one_input_inject [OF laws valid, of i i' "?annex @ ?out tx i" "?annex' @ ?out tx' i'"] f(2) f'(2) b
    by (simp add: W split: if_splits)
  then show "if acp then same_one_input tx i all tx' i' all' else (of_nat i :: u32) = of_nat i'" by simp
  have tail: "?annex = ?annex'" "?out tx i = ?out tx' i'"
    using this_in by (simp_all add: append_eq_append_conv W sha32 split: if_splits)
  have "annex = None \<longleftrightarrow> annex' = None" using front(5) by (auto simp: spend_type_def split: if_splits)
  then show "annex = annex'" using tail(1) by (auto simp: W split: option.splits)
  show "map sha (message_strings A tx i all st) = map sha (message_strings A tx' i' all' st)"
    using front(3,4) tail(2) flag
    by (auto simp: message_strings_def all_inputs_strings_def inputs_part_def outputs_part_def W sha32 split: if_splits)
qed

lemma signing_data_commits:
  assumes laws: "sighash_laws A" and len: "digest32 sha"
    and valid: "valid_transaction tx" "valid_transaction tx'"
      "\<forall>out \<in> set all. valid_txout out" "\<forall>out \<in> set all'. valid_txout out"
    and m: "taproot_encode_signing_data_to_with_annex_digest A sha tx i (PrevoutsAll all) annex None st = Inr m"
      "taproot_encode_signing_data_to_with_annex_digest A sha tx' i' (PrevoutsAll all') annex' None st' = Inr m"
    and inj: "inj_on sha (set (message_strings A tx i all st) \<union> set (message_strings A tx' i' all' st'))"
  shows "st = st' \<and> same_signed_content st tx i all annex tx' i' all' annex'"
proof -
  obtain base acp where flag: "split_anyonecanpay_flag st = (base, acp)" by fastforce
  note F = signing_data_fields [OF laws len valid m flag]
  have strings: "message_strings A tx i all st = message_strings A tx' i' all' st"
    using F(6) inj unfolding F(1) [symmetric] by (rule map_inj_on)
  have ins: "same_inputs tx i all tx' i' all'" if "\<not> acp"
  proof -
    have "all_inputs_strings A tx all = all_inputs_strings A tx' all'"
      using strings flag that by (auto simp: message_strings_def all_inputs_strings_def split: if_splits)
    from all_inputs_determine [OF laws valid this] F(5) that show ?thesis by (simp add: same_inputs_def)
  qed
  have V: "\<forall>out \<in> set (tx_output tx). valid_txout out" "\<forall>out \<in> set (tx_output tx'). valid_txout out"
    using valid by (simp_all add: valid_transaction_def)
  have outs: "tx_output tx = tx_output tx'" if "base \<noteq> SighashNone" "base \<noteq> SighashSingle"
  proof -
    have "concat (map (sig_tx_out A) (tx_output tx)) = concat (map (sig_tx_out A) (tx_output tx'))"
      using strings flag that by (simp add: message_strings_def all_inputs_strings_def split: if_splits)
    then show ?thesis by (rule prefix_code.concat_inject [OF sighash_codes(5) [OF laws] V])
  qed
  have out: "tx_output tx ! i = tx_output tx' ! i'" if "base = SighashSingle"
  proof -
    have "i < length (tx_output tx)" "i' < length (tx_output tx')"
      using signing_data_form(3) [OF m(1) flag] signing_data_form(3) [OF m(2)] F(1) flag that by auto
    moreover have "sig_tx_out A (tx_output tx ! i) = sig_tx_out A (tx_output tx' ! i')"
      using strings flag that by (simp add: message_strings_def all_inputs_strings_def split: if_splits)
    ultimately show ?thesis using prefix_code.prefix [OF sighash_codes(5) [OF laws], of _ _ "[]" "[]"] V by simp
  qed
  show ?thesis using F(1-5) ins outs out flag by (simp add: same_signed_content_def)
qed

section \<open>The encodings of the protocol\<close>

text \<open>
  Little-endian integers, raw hashes and scripts with a length: an instance of the encodings, with
  the length as four bytes, on which the laws hold.
\<close>

definition sighash_byte_spec :: "tap_sighash_type \<Rightarrow> u8" where
  "sighash_byte_spec s =
     (case s of SighashDefault \<Rightarrow> 0 | SighashAll \<Rightarrow> 1 | SighashNone \<Rightarrow> 2 | SighashSingle \<Rightarrow> 3
      | SighashAllPlusAnyoneCanPay \<Rightarrow> 129 | SighashNonePlusAnyoneCanPay \<Rightarrow> 130
      | SighashSinglePlusAnyoneCanPay \<Rightarrow> 131)"

definition from_consensus_u8_spec :: "u8 \<Rightarrow> tap_sighash_type option" where
  "from_consensus_u8_spec b =
     find (\<lambda>s. sighash_byte_spec s = b)
       [SighashDefault, SighashAll, SighashNone, SighashSingle, SighashAllPlusAnyoneCanPay,
        SighashNonePlusAnyoneCanPay, SighashSinglePlusAnyoneCanPay]"

definition sighash_spec :: sighash_api where
  "sighash_spec =
     \<lparr>sighash_byte = sighash_byte_spec, from_consensus_u8 = from_consensus_u8_spec,
      sig_u8 = (\<lambda>b. [b]), sig_u32 = u32_to_le_bytes, sig_version = u32_to_le_bytes,
      sig_lock_time = u32_to_le_bytes, sig_hash = (\<lambda>h. h),
      sig_out_point = (\<lambda>p. op_txid p @ u32_to_le_bytes (op_vout p)),
      sig_amount = (\<lambda>v. nat_le 8 (unat v)), sig_script = spec_ser_vec, sig_sequence = u32_to_le_bytes,
      sig_tx_out = (\<lambda>out. nat_le 8 (unat (txo_value out)) @ spec_ser_vec (script_pubkey out))\<rparr>"

lemma fixed_width_prefix_code:
  assumes "\<And>x. length (e x) = Suc n" "inj e"
  shows "prefix_code e (\<lambda>_. True)"
proof
  show "e x \<noteq> []" for x using assms(1) [of x] by auto
qed (use assms in \<open>auto simp: append_eq_append_conv inj_eq\<close>)

lemma spec_ser_vec_nonempty: "spec_ser_vec x \<noteq> []"
  using length_nat_le [of 4 "length x"] by (auto simp: spec_ser_vec_def simp del: length_nat_le)

interpretation consensus_script: prefix_code spec_ser_vec vec_fits
  by (rule codec_prefix_code [OF spec_vec_codec spec_ser_vec_nonempty])

interpretation borsh_tx_stream: prefix_code "serialize_transaction borsh_spec" valid_transaction
  by (rule codec_prefix_code [OF transaction_codec [OF borsh_spec_laws]])
    (auto simp: serialize_transaction_def borsh_spec_def u32_to_le_bytes_def nat_le_def nat_be_numeral)

lemma u64_bytes_inject: "nat_le 8 (unat v) = nat_le 8 (unat w) \<longleftrightarrow> v = (w :: u64)"
proof -
  have "unat x < 256 ^ 8" for x :: u64 using unsigned_less [of x] by simp
  then show ?thesis by (simp only: nat_le_inject word_unat_eq_iff)
qed

lemma sighash_spec_laws: "sighash_laws sighash_spec"
proof -
  have "inj sighash_byte_spec"
    by (rule injI) (auto simp: sighash_byte_spec_def split: tap_sighash_type.splits)
  moreover have "prefix_code (sig_out_point sighash_spec) (\<lambda>p. length (op_txid p) = 32)"
    by unfold_locales (auto simp: sighash_spec_def append_eq_append_conv intro: out_point.equality)
  moreover have "prefix_code (sig_amount sighash_spec) (\<lambda>_. True)"
    by (rule fixed_width_prefix_code [of _ 7]) (auto simp: sighash_spec_def inj_def u64_bytes_inject)
  moreover have "prefix_code (sig_sequence sighash_spec) (\<lambda>_. True)"
    by (rule fixed_width_prefix_code [of _ 3]) (auto simp: sighash_spec_def inj_def)
  moreover have "prefix_code (sig_tx_out sighash_spec) valid_txout"
  proof
    fix x y r s
    assume "valid_txout x" "valid_txout y" "sig_tx_out sighash_spec x @ r = sig_tx_out sighash_spec y @ s"
    then show "x = y \<and> r = s"
      using consensus_script.prefix [of "script_pubkey x" "script_pubkey y" r s]
      by (auto simp: sighash_spec_def valid_txout_def append_eq_append_conv u64_bytes_inject intro: tx_out.equality)
  qed (auto simp: sighash_spec_def spec_ser_vec_nonempty)
  moreover have "prefix_code (sig_script sighash_spec) vec_fits"
    using consensus_script.prefix_code_axioms by (simp add: sighash_spec_def)
  moreover have "inj (sig_u8 sighash_spec)" "inj (sig_u32 sighash_spec)" "inj (sig_version sighash_spec)"
      "inj (sig_lock_time sighash_spec)" "inj (sig_hash sighash_spec)"
    by (simp_all add: sighash_spec_def inj_def)
  ultimately show ?thesis
    unfolding sighash_laws_def by (simp add: sighash_spec_def)
qed

text \<open>The toy digest separates strings by their lengths.\<close>

lemma toy_sha_length:
  assumes "toy_sha x = toy_sha y" "length x < 256" "length y < 256"
  shows "length x = length y"
proof -
  have "(of_nat (length x) :: u8) = of_nat (length y)" 
    using arg_cong [OF assms(1), of hd] by (simp only: toy_sha_def list.sel)
  then have "unat (of_nat (length x) :: u8) = unat (of_nat (length y) :: u8)" by (rule arg_cong)
  then show ?thesis using assms(2,3) by (simp only: unat_u8_of_nat)
qed

lemma toy_sha_inj_on:
  assumes "inj_on length S" "\<forall>x \<in> S. length x < 256"
  shows "inj_on toy_sha S"
proof (rule inj_onI)
  fix x y assume "x \<in> S" "y \<in> S" "toy_sha x = toy_sha y"
  then show "x = y" using toy_sha_length [of x y] inj_onD [OF assms(1), of x y] assms(2) by simp
qed

section \<open>Properties\<close>

text \<open>
  C32. What a signature binds. Two equal signature hashes have the same signature hash type and belong
  to transactions with the same version, lock time and annex digest; without the anyone-can-pay flag
  they have the same spent outputs (outpoints, amounts and scripts), sequences and signed input, with
  the flag the same for the signed input alone; and they have the same outputs for the default and
  all types, the same output at the index of the input for the single type, and nothing more is
  claimed for the none type. This holds for all seven types, unless one of the hash functions
  collides on the strings it was given.
\<close>

theorem sighash_commits:
  assumes "sighash_laws A" "digest32 sha"
    and "valid_transaction tx" "valid_transaction tx'"
    and "\<forall>out \<in> set all. valid_txout out" "\<forall>out \<in> set all'. valid_txout out"
    and h: "sighash A sha tap_hash tx (PrevoutsAll all) i st annex = Inr h"
      "sighash A sha tap_hash tx' (PrevoutsAll all') i' st' annex' = Inr h"
    and tap: "inj_on tap_hash (signed_messages A sha tx i all annex st \<union> signed_messages A sha tx' i' all' annex' st')"
    and "inj_on sha (set (message_strings A tx i all st) \<union> set (message_strings A tx' i' all' st'))"
  shows "st = st' \<and> same_signed_content st tx i all annex tx' i' all' annex'"
proof -
  from h(1) obtain m where m: "taproot_encode_signing_data_to_with_annex_digest A sha tx i (PrevoutsAll all) annex None st = Inr m" "tap_hash m = h"
    unfolding sighash_def rbind_eq_Inr by blast
  from h(2) obtain m' where m': "taproot_encode_signing_data_to_with_annex_digest A sha tx' i' (PrevoutsAll all') annex' None st' = Inr m'"
      "tap_hash m' = h"
    unfolding sighash_def rbind_eq_Inr by blast
  have "m \<in> signed_messages A sha tx i all annex st" "m' \<in> signed_messages A sha tx' i' all' annex' st'"
    using m(1) m'(1) by (simp_all only: signed_messages_def mem_Collect_eq)
  then have "m = m'" using inj_onD [OF tap] m(2) m'(2) by (metis UnCI)
  with m' have m'': "taproot_encode_signing_data_to_with_annex_digest A sha tx' i' (PrevoutsAll all') annex' None st' = Inr m" by simp
  show ?thesis by (rule signing_data_commits [OF assms(1-6) m(1) m'' assms(10)])
qed

text \<open>Two transactions that differ in what a signature does not cover.\<close>

definition demo_tx_unsigned :: transaction where
  "demo_tx_unsigned = demo_tx\<lparr>tx_input := map (\<lambda>i. i\<lparr>witness := []\<rparr>) (tx_input demo_tx)\<rparr>"

theorem sighash_commits_witness:
  "demo_tx \<noteq> demo_tx_unsigned \<and>
   same_signed_content SighashDefault demo_tx 0 [\<lparr>txo_value = 5, script_pubkey = [81]\<rparr>] (Some [1])
     demo_tx_unsigned 0 [\<lparr>txo_value = 5, script_pubkey = [81]\<rparr>] (Some [1])"
proof -
  let ?all = "[\<lparr>txo_value = 5, script_pubkey = [81]\<rparr>] :: tx_out list"
  let ?m = "taproot_encode_signing_data_to_with_annex_digest sighash_spec toy_sha demo_tx 0 (PrevoutsAll ?all) (Some [1]) None SighashDefault"
  have strings: "message_strings sighash_spec demo_tx_unsigned 0 ?all SighashDefault = message_strings sighash_spec demo_tx 0 ?all SighashDefault"
    by (simp add: message_strings_def all_inputs_strings_def split_anyonecanpay_flag_def demo_tx_unsigned_def demo_tx_def)
  have lens: "map length (message_strings sighash_spec demo_tx 0 ?all SighashDefault) = [36, 8, 5, 4, 25]"
    by (simp add: message_strings_def all_inputs_strings_def split_anyonecanpay_flag_def demo_tx_def sighash_spec_def spec_ser_vec_def)
  then have "distinct (map length (message_strings sighash_spec demo_tx 0 ?all SighashDefault))" by simp
  moreover have "\<forall>x \<in> set (message_strings sighash_spec demo_tx 0 ?all SighashDefault). length x < 256"
  proof -
    have "\<forall>n \<in> set (map length (message_strings sighash_spec demo_tx 0 ?all SighashDefault)). n < 256" unfolding lens by simp
    then show ?thesis by simp
  qed
  ultimately have inj: "inj_on toy_sha (set (message_strings sighash_spec demo_tx 0 ?all SighashDefault))"
    by (intro toy_sha_inj_on) (simp_all add: distinct_map)
  have same: "taproot_encode_signing_data_to_with_annex_digest sighash_spec toy_sha demo_tx_unsigned 0 (PrevoutsAll ?all) (Some [1]) None SighashDefault = ?m"
    by (simp add: taproot_encode_signing_data_to_with_annex_digest_def split_anyonecanpay_flag_def inputs_part_def outputs_part_def
        unwrap_all_prevouts_def check_all_prevouts_def demo_tx_unsigned_def demo_tx_def)
  obtain m where m: "?m = Inr m"
    by (simp add: taproot_encode_signing_data_to_with_annex_digest_def split_anyonecanpay_flag_def unwrap_all_prevouts_def
        check_all_prevouts_def demo_tx_def ensure_def)
  have valid: "valid_transaction demo_tx" "valid_transaction demo_tx_unsigned" "\<forall>out \<in> set ?all. valid_txout out"
    by (simp_all add: valid_transaction_def valid_txin_def valid_txout_def vec_fits_def demo_tx_unsigned_def demo_tx_def)
  have "same_signed_content SighashDefault demo_tx 0 ?all (Some [1]) demo_tx_unsigned 0 ?all (Some [1])"
    by (rule conjunct2 [OF sighash_commits [of sighash_spec toy_sha demo_tx demo_tx_unsigned ?all ?all
          "\<lambda>m. m" 0 SighashDefault "Some [1]" m 0 SighashDefault "Some [1]"]])
      (simp_all add: sighash_spec_laws sighash_def m same strings inj valid)
  then show ?thesis by (simp add: demo_tx_unsigned_def demo_tx_def)
qed

end
