(* ===== verification/Circuit_Structs.thy ===== *)
theory Circuit_Structs
  imports Spv Work_Only Taproot_Sighash
begin

text \<open>
  The data of the bridge circuit (\<open>src/circuits-lib/src/bridge_circuit/structs.rs\<close>) and the
  construction of a watchtower input from the transactions on the chain (\<open>WatchtowerInput\<close>). Ids of
  transactions, script templates, the annex and Schnorr signatures are those of the \<open>bitcoin\<close> and
  \<open>k256\<close> crates: the parameter \<open>N\<close>.
\<close>

section \<open>Slices\<close>

text \<open>\<open>xs[a..b]\<close>, which panics out of range, and conversions to arrays of a fixed length.\<close>

definition slice :: "nat \<Rightarrow> nat \<Rightarrow> 'a list \<Rightarrow> 'a list result" where
  "slice a b xs = (if a \<le> b \<and> b \<le> length xs then Inr (take (b - a) (drop a xs)) else Inl index_oob)"

definition try_array :: "nat \<Rightarrow> 'a list \<Rightarrow> 'a list option" where
  "try_array n xs = (if length xs = n then Some xs else None)"

lemma slice_eq_Inr [simp]: "slice a b xs = Inr ys \<longleftrightarrow> a \<le> b \<and> b \<le> length xs \<and> ys = take (b - a) (drop a xs)"
  by (auto simp: slice_def)

lemma try_array_eq_Some [simp]: "try_array n xs = Some ys \<longleftrightarrow> length xs = n \<and> ys = xs"
  by (auto simp: try_array_def)

fun position :: "('a \<Rightarrow> bool) \<Rightarrow> 'a list \<Rightarrow> nat option" where
  "position P [] = None"
| "position P (x # xs) = (if P x then Some 0 else map_option Suc (position P xs))"

lemma position_Some:
  "position P xs = Some i \<longleftrightarrow> i < length xs \<and> P (xs ! i) \<and> (\<forall>j < i. \<not> P (xs ! j))"
proof (induction xs arbitrary: i)
  case Nil
  then show ?case by simp
next
  case (Cons x xs)
  show ?case
  proof (cases i)
    case 0
    then show ?thesis by auto
  next
    case (Suc k)
    then show ?thesis using Cons.IH [of k] by (auto simp: less_Suc_eq_0_disj)
  qed
qed

lemma be_nat_zeros [simp]: "be_nat (replicate n 0) = 0"
  by (induction n) (simp_all add: be_nat_Cons)

section \<open>The data\<close>

datatype instruction = InstructionOp u8 | InstructionPushBytes bytes

record bitcoin_api =
  compute_txid :: "transaction \<Rightarrow> bytes"
  is_p2tr :: "bytes \<Rightarrow> bool"
  is_op_return :: "bytes \<Rightarrow> bool"
  instructions :: "bytes \<Rightarrow> instruction result list"
  annex_new :: "bytes \<Rightarrow> bytes option"
  annex_encode :: "bytes \<Rightarrow> bytes option"
  verifying_key_ok :: "bytes \<Rightarrow> bool"
  signature_ok :: "bytes \<Rightarrow> bool"
  verify_prehash :: "bytes \<Rightarrow> bytes \<Rightarrow> bytes \<Rightarrow> bool"

definition MAX_NUMBER_OF_WATCHTOWERS :: nat where
  "MAX_NUMBER_OF_WATCHTOWERS = 160"

definition payout_tx_blockhash_try_from :: "bytes \<Rightarrow> bytes result" where
  "payout_tx_blockhash_try_from value = expect (try_array 20 value) (Err ''Expected 20 bytes for PayoutTxBlockhash'')"

definition latest_blockhash_try_from :: "bytes \<Rightarrow> bytes result" where
  "latest_blockhash_try_from value = expect (try_array 20 value) (Err ''Expected 20 bytes for LatestBlockhash'')"

definition total_work_try_from :: "bytes \<Rightarrow> bytes result" where
  "total_work_try_from value = expect (try_array 16 value) (Err ''Expected 16 bytes for TotalWork'')"

record watch_tower_challenge_tx_commitment =
  compressed_g16_proof :: bytes
  commitment_total_work :: bytes

record light_client_proof =
  lc_journal :: bytes

record storage_proof =
  storage_proof_utxo :: string
  storage_proof_vout :: string
  storage_proof_deposit_txid :: string
  storage_index :: u32

record watchtower_input =
  watchtower_idx :: u32
  watchtower_challenge_input_idx :: u32
  watchtower_challenge_utxos :: "tx_out list"
  watchtower_challenge_tx :: transaction
  watchtower_challenge_witness :: "bytes list"
  annex_digest :: "bytes option"

record bridge_circuit_input =
  kickoff_tx :: transaction
  all_tweaked_watchtower_pubkeys :: "bytes list"
  watchtower_inputs :: "watchtower_input list"
  hcp :: block_header_circuit_output
  payout_spv :: spv
  payout_input_index :: u32
  lcp :: light_client_proof
  sp :: storage_proof
  watchtower_challenge_connector_start_idx :: u32

record watchtower_challenge_set =
  challenge_senders :: bytes
  challenge_outputs :: "tx_out list list"

section \<open>Building a watchtower input\<close>

definition watchtower_input_new ::
  "u32 \<Rightarrow> u32 \<Rightarrow> tx_out list \<Rightarrow> transaction \<Rightarrow> bytes list \<Rightarrow> bytes option \<Rightarrow> watchtower_input result" where
  "watchtower_input_new idx input_idx utxos tx wit digest =
     (if unat idx \<ge> MAX_NUMBER_OF_WATCHTOWERS then Inl (Err ''Watchtower index out of bounds'')
      else Inr \<lparr>watchtower_idx = idx, watchtower_challenge_input_idx = input_idx,
                watchtower_challenge_utxos = utxos, watchtower_challenge_tx = tx,
                watchtower_challenge_witness = wit, annex_digest = digest\<rparr>)"

definition spent_output :: "bitcoin_api \<Rightarrow> transaction list \<Rightarrow> tx_in \<Rightarrow> tx_out result" where
  "spent_output N prevout_txs i =
     rbind (expect (find (\<lambda>tx. compute_txid N tx = op_txid (previous_output i)) prevout_txs)
              (Err ''Previous transaction not found'')) (\<lambda>tx.
     expect (if unat (op_vout (previous_output i)) < length (tx_output tx)
             then Some (tx_output tx ! unat (op_vout (previous_output i))) else None)
       (Err ''Output index out of bounds''))"

definition TAPROOT_ANNEX_PREFIX :: u8 where
  "TAPROOT_ANNEX_PREFIX = 0x50"

definition challenge_annex :: "bitcoin_api \<Rightarrow> bytes list \<Rightarrow> bytes option" where
  "challenge_annex N wit =
     (if length wit \<le> 1 then None
      else let element = last wit in
           if element \<noteq> [] \<and> hd element = TAPROOT_ANNEX_PREFIX then annex_new N element else None)"

definition challenge_annex_digest :: "bitcoin_api \<Rightarrow> hasher \<Rightarrow> bytes list \<Rightarrow> bytes option" where
  "challenge_annex_digest N sha wit =
     Option.bind (challenge_annex N wit) (\<lambda>annex. map_option sha (annex_encode N annex))"

definition from_txs ::
  "bitcoin_api \<Rightarrow> hasher \<Rightarrow> bytes \<Rightarrow> transaction \<Rightarrow> transaction list \<Rightarrow> u32 \<Rightarrow> watchtower_input result" where
  "from_txs N sha kickoff_tx_id tx prevout_txs start_idx =
     rbind (expect (map_option of_nat (position (\<lambda>i. op_txid (previous_output i) = kickoff_tx_id) (tx_input tx)))
              (Err ''Kickoff txid not found in watchtower inputs'')) (\<lambda>input_idx :: u32.
     rbind (nth_checked (tx_input tx) (unat input_idx)) (\<lambda>challenge_input.
     let output_index = unat (op_vout (previous_output challenge_input)) in
     rbind (ensure (unat start_idx \<le> output_index) (Err ''Output index underflow'')) (\<lambda>_.
     let watchtower_index = (output_index - unat start_idx) div 2 in
     rbind (ensure (watchtower_index < MAX_NUMBER_OF_WATCHTOWERS) (Err ''Watchtower index out of bounds'')) (\<lambda>_.
     rbind (ensure (watchtower_index < 2 ^ 32) (Panic ''Cannot fail, already checked bounds'')) (\<lambda>_.
     rbind (rmap (spent_output N prevout_txs) (tx_input tx)) (\<lambda>utxos.
     let digest = challenge_annex_digest N sha (witness challenge_input) in
     rbind (expect (if witness challenge_input \<noteq> [] then Some (witness challenge_input ! 0) else None)
              (Err ''Watchtower challenge input witness is empty'')) (\<lambda>signature.
     Inr \<lparr>watchtower_idx = of_nat watchtower_index, watchtower_challenge_input_idx = input_idx,
          watchtower_challenge_utxos = utxos,
          watchtower_challenge_tx = tx\<lparr>tx_input := map (\<lambda>i. i\<lparr>witness := []\<rparr>) (tx_input tx)\<rparr>,
          watchtower_challenge_witness = [signature], annex_digest = digest\<rparr>)))))))"

lemma from_txs_Inr:
  assumes "from_txs N sha kid tx prevs start = Inr w" "length (tx_input tx) < 4294967296"
  obtains i where "position (\<lambda>i. op_txid (previous_output i) = kid) (tx_input tx) = Some i"
    "i < length (tx_input tx)" "op_txid (previous_output (tx_input tx ! i)) = kid"
    "unat (watchtower_challenge_input_idx w) = i"
    "unat start \<le> unat (op_vout (previous_output (tx_input tx ! i)))"
    "unat (watchtower_idx w) = (unat (op_vout (previous_output (tx_input tx ! i))) - unat start) div 2"
    "unat (watchtower_idx w) < MAX_NUMBER_OF_WATCHTOWERS"
    "rmap (spent_output N prevs) (tx_input tx) = Inr (watchtower_challenge_utxos w)"
    "watchtower_challenge_tx w = tx\<lparr>tx_input := map (\<lambda>i. i\<lparr>witness := []\<rparr>) (tx_input tx)\<rparr>"
    "witness (tx_input tx ! i) \<noteq> []" "watchtower_challenge_witness w = [hd (witness (tx_input tx ! i))]"
    "annex_digest w = challenge_annex_digest N sha (witness (tx_input tx ! i))"
proof -
  obtain i where i: "position (\<lambda>i. op_txid (previous_output i) = kid) (tx_input tx) = Some i"
    using assms(1) unfolding from_txs_def by (cases "position (\<lambda>i. op_txid (previous_output i) = kid) (tx_input tx)")
      (simp_all add: expect_def)
  then have pos: "i < length (tx_input tx)" "op_txid (previous_output (tx_input tx ! i)) = kid"
    by (simp_all add: position_Some)
  have u: "unat (of_nat i :: u32) = i" using pos(1) assms(2) by simp
  show thesis
    by (rule that [OF i pos])
      (use assms(1) i pos u in \<open>auto simp: from_txs_def Let_def MAX_NUMBER_OF_WATCHTOWERS_def hd_conv_nth
        split: if_splits\<close>)
qed

end
