(* ===== verification/Groth16.thy ===== *)
theory Groth16
  imports Circuit_Structs
begin

text \<open>
  Groth16 proofs of the work-only circuit: \<open>constants.rs\<close>, \<open>groth16.rs\<close> and \<open>groth16_verifier.rs\<close> of
  \<open>src/circuits-lib/src/bridge_circuit\<close>. Curve points, field elements, the pairing check and the
  verifying key are the \<open>ark\<close> crates and a binary file, hexadecimal and decimal strings the \<open>hex\<close>
  and \<open>num\<close> crates: the parameter \<open>G\<close>.
\<close>

section \<open>Constants\<close>

definition REGTEST_LC_IMAGE_ID :: bytes where
  "REGTEST_LC_IMAGE_ID =
     [224, 47, 66, 160, 29, 12, 181, 166, 219, 194, 245, 210, 107, 40, 169, 136,
      24, 8, 163, 2, 60, 131, 48, 165, 174, 162, 160, 190, 167, 84, 194, 22]"

definition DEVNET_LC_IMAGE_ID :: bytes where
  "DEVNET_LC_IMAGE_ID =
     [65, 143, 209, 202, 144, 163, 234, 158, 157, 153, 98, 96, 120, 230, 24, 117,
      10, 166, 32, 146, 97, 198, 69, 251, 69, 107, 240, 232, 41, 60, 54, 138]"

definition TESTNET4_LC_IMAGE_ID :: bytes where
  "TESTNET4_LC_IMAGE_ID =
     [33, 123, 195, 0, 194, 2, 63, 22, 151, 190, 218, 248, 77, 67, 151, 249,
      27, 86, 156, 92, 138, 211, 221, 172, 176, 57, 67, 252, 18, 58, 205, 238]"

definition MAINNET_LC_IMAGE_ID :: bytes where
  "MAINNET_LC_IMAGE_ID =
     [151, 6, 40, 214, 230, 218, 197, 180, 6, 152, 114, 40, 30, 45, 178, 101,
      59, 27, 219, 123, 243, 59, 106, 52, 82, 2, 144, 39, 244, 247, 59, 171]"

definition MAINNET_WORK_ONLY_METHOD_ID :: bytes where
  "MAINNET_WORK_ONLY_METHOD_ID =
     [249, 34, 250, 79, 72, 221, 220, 211, 173, 114, 52, 75, 94, 118, 68, 76,
      208, 225, 200, 35, 46, 10, 84, 3, 20, 175, 44, 132, 16, 196, 31, 145]"

definition TESTNET4_WORK_ONLY_METHOD_ID :: bytes where
  "TESTNET4_WORK_ONLY_METHOD_ID =
     [53, 229, 117, 73, 169, 187, 50, 220, 79, 215, 200, 207, 109, 144, 156, 144,
      90, 121, 253, 26, 14, 151, 48, 140, 50, 195, 160, 224, 128, 108, 93, 39]"

definition REGTEST_WORK_ONLY_METHOD_ID :: bytes where
  "REGTEST_WORK_ONLY_METHOD_ID =
     [73, 216, 32, 68, 231, 107, 121, 142, 252, 225, 82, 81, 9, 110, 169, 143,
      14, 221, 237, 31, 215, 119, 253, 41, 49, 74, 149, 208, 153, 92, 184, 26]"

definition SIGNET_WORK_ONLY_METHOD_ID :: bytes where
  "SIGNET_WORK_ONLY_METHOD_ID =
     [249, 92, 112, 34, 25, 219, 40, 217, 171, 215, 96, 132, 207, 89, 107, 57,
      19, 196, 168, 242, 247, 90, 218, 220, 71, 77, 233, 141, 132, 198, 184, 97]"

definition POST_STATE :: bytes where
  "POST_STATE =
     [163, 172, 194, 113, 23, 65, 137, 150, 52, 11, 132, 229, 169, 15, 62, 244,
      196, 157, 34, 199, 158, 68, 170, 216, 34, 236, 156, 49, 62, 30, 184, 226]"

definition INPUT :: bytes where
  "INPUT =
     [0, 0, 0, 0, 0, 0, 0, 0, 0, 0, 0, 0, 0, 0, 0, 0,
      0, 0, 0, 0, 0, 0, 0, 0, 0, 0, 0, 0, 0, 0, 0, 0]"

definition ASSUMPTIONS :: bytes where
  "ASSUMPTIONS =
     [0, 0, 0, 0, 0, 0, 0, 0, 0, 0, 0, 0, 0, 0, 0, 0,
      0, 0, 0, 0, 0, 0, 0, 0, 0, 0, 0, 0, 0, 0, 0, 0]"

definition CLAIM_TAG :: bytes where
  "CLAIM_TAG =
     [203, 31, 239, 205, 31, 45, 154, 100, 151, 92, 187, 191, 110, 22, 30, 41,
      20, 67, 75, 12, 187, 153, 96, 184, 77, 245, 215, 23, 232, 107, 72, 175]"

definition OUTPUT_TAG :: bytes where
  "OUTPUT_TAG =
     [119, 234, 254, 179, 102, 167, 139, 71, 116, 125, 224, 215, 187, 23, 98, 132,
      8, 95, 245, 86, 72, 135, 0, 154, 91, 230, 61, 163, 45, 53, 89, 212]"

definition A0_BIGINT :: "u64 list" where
  "A0_BIGINT = [2055224492124818853, 4733028617431930770, 0, 0]"

definition A1_BIGINT :: "u64 list" where
  "A1_BIGINT = [4020834093867526107, 6205833401006706155, 0, 0]"

definition BN_254_CONTROL_ID_BIGINT :: "u64 list" where
  "BN_254_CONTROL_ID_BIGINT =
     [10066737433256753856, 15970898588890169697, 12996428817291790227, 307492062473808767]"

section \<open>Proofs\<close>

record ('g1, 'g2) circuit_groth16_proof =
  proof_a :: 'g1
  proof_b :: 'g2
  proof_c :: 'g1

record ('g1, 'g2, 'fq, 'fq2, 'fr, 'vk) groth16_api =
  g1_deserialize_compressed :: "bytes \<Rightarrow> 'g1 option"
  g2_deserialize_compressed :: "bytes \<Rightarrow> 'g2 option"
  g1_serialize_compressed :: "'g1 \<Rightarrow> bytes option"
  g2_serialize_compressed :: "'g2 \<Rightarrow> bytes option"
  fq_from_be_bytes_mod_order :: "bytes \<Rightarrow> 'fq"
  fq2_from_base_prime_field_elems :: "'fq list \<Rightarrow> 'fq2 option"
  g1_new :: "'fq \<Rightarrow> 'fq \<Rightarrow> 'g1 result"
  g2_new :: "'fq2 \<Rightarrow> 'fq2 \<Rightarrow> 'g2 result"
  fr_new :: "u64 list \<Rightarrow> 'fr"
  fr_from_str :: "string \<Rightarrow> 'fr option"
  encode_hex :: "bytes \<Rightarrow> string"
  from_str_radix_16 :: "string \<Rightarrow> nat option"
  to_str_radix_10 :: "nat \<Rightarrow> string"
  work_only_to_vec :: "work_only_circuit_output \<Rightarrow> bytes"
  prepared_vk :: "'vk option"
  verify_proof :: "'vk \<Rightarrow> ('g1, 'g2) circuit_groth16_proof \<Rightarrow> 'fr list \<Rightarrow> bool option"

definition from_seal ::
  "('g1, 'g2, 'fq, 'fq2, 'fr, 'vk) groth16_api \<Rightarrow> bytes \<Rightarrow> ('g1, 'g2) circuit_groth16_proof result" where
  "from_seal G seal =
     (let fq = (\<lambda>a. fq_from_be_bytes_mod_order G (take 32 (drop a seal))) in
      rbind (g1_new G (fq 0) (fq 32)) (\<lambda>a.
      rbind (expect (fq2_from_base_prime_field_elems G [fq 96, fq 64]) (Panic ''unwrap on None'')) (\<lambda>b0.
      rbind (expect (fq2_from_base_prime_field_elems G [fq 160, fq 128]) (Panic ''unwrap on None'')) (\<lambda>b1.
      rbind (g2_new G b0 b1) (\<lambda>b.
      rbind (g1_new G (fq 192) (fq 224)) (\<lambda>c.
      Inr \<lparr>proof_a = a, proof_b = b, proof_c = c\<rparr>))))))"

definition from_compressed ::
  "('g1, 'g2, 'fq, 'fq2, 'fr, 'vk) groth16_api \<Rightarrow> bytes \<Rightarrow> ('g1, 'g2) circuit_groth16_proof result" where
  "from_compressed G compressed =
     rbind (slice 0 32 compressed) (\<lambda>a_compressed.
     rbind (slice 32 96 compressed) (\<lambda>b_compressed.
     rbind (slice 96 128 compressed) (\<lambda>c_compressed.
     rbind (expect (g1_deserialize_compressed G a_compressed) (Err ''SerializationError'')) (\<lambda>a.
     rbind (expect (g2_deserialize_compressed G b_compressed) (Err ''SerializationError'')) (\<lambda>b.
     rbind (expect (g1_deserialize_compressed G c_compressed) (Err ''SerializationError'')) (\<lambda>c.
     Inr \<lparr>proof_a = a, proof_b = b, proof_c = c\<rparr>))))))"

definition to_compressed ::
  "('g1, 'g2, 'fq, 'fq2, 'fr, 'vk) groth16_api \<Rightarrow> ('g1, 'g2) circuit_groth16_proof \<Rightarrow> bytes result" where
  "to_compressed G p =
     rbind (expect (g1_serialize_compressed G (proof_a p))
              (Panic ''Serialization should not fail for valid curve points'')) (\<lambda>a_compressed.
     rbind (expect (g2_serialize_compressed G (proof_b p))
              (Panic ''Serialization should not fail for valid curve points'')) (\<lambda>b_compressed.
     rbind (expect (g1_serialize_compressed G (proof_c p))
              (Panic ''Serialization should not fail for valid curve points'')) (\<lambda>c_compressed.
     Inr (a_compressed @ b_compressed @ c_compressed))))"

section \<open>Digests and the check\<close>

definition create_journal_digest ::
  "('g1, 'g2, 'fq, 'fq2, 'fr, 'vk) groth16_api \<Rightarrow> hasher \<Rightarrow> work_only_circuit_output \<Rightarrow> bytes" where
  "create_journal_digest G sha out = sha (work_only_to_vec G out)"

definition output_pre_digest ::
  "('g1, 'g2, 'fq, 'fq2, 'fr, 'vk) groth16_api \<Rightarrow> hasher \<Rightarrow> work_only_circuit_output \<Rightarrow> bytes" where
  "output_pre_digest G sha out = OUTPUT_TAG @ create_journal_digest G sha out @ ASSUMPTIONS @ nat_le 2 2"

definition create_output_digest ::
  "('g1, 'g2, 'fq, 'fq2, 'fr, 'vk) groth16_api \<Rightarrow> hasher \<Rightarrow> work_only_circuit_output \<Rightarrow> bytes" where
  "create_output_digest G sha out = sha (output_pre_digest G sha out)"

definition claim_pre_digest :: "bytes \<Rightarrow> bytes \<Rightarrow> bytes" where
  "claim_pre_digest output_digest pre_state =
     CLAIM_TAG @ INPUT @ pre_state @ POST_STATE @ output_digest @ replicate 8 0 @ nat_le 2 4"

definition create_claim_digest :: "hasher \<Rightarrow> bytes \<Rightarrow> bytes \<Rightarrow> bytes" where
  "create_claim_digest sha output_digest pre_state = rev (sha (claim_pre_digest output_digest pre_state))"

definition to_decimal :: "('g1, 'g2, 'fq, 'fq2, 'fr, 'vk) groth16_api \<Rightarrow> string \<Rightarrow> string option" where
  "to_decimal G s = map_option (to_str_radix_10 G) (from_str_radix_16 G s)"

record ('g1, 'g2) circuit_groth16_with_total_work =
  groth16_seal :: "('g1, 'g2) circuit_groth16_proof"
  g16_total_work :: bytes
  g16_genesis_state_hash :: bytes

definition unwrap_none :: error where
  "unwrap_none = Panic ''called Option::unwrap() on a None value''"

definition groth16_verify ::
  "('g1, 'g2, 'fq, 'fq2, 'fr, 'vk) groth16_api \<Rightarrow> hasher \<Rightarrow>
   ('g1, 'g2) circuit_groth16_with_total_work \<Rightarrow> bytes \<Rightarrow> bool result" where
  "groth16_verify G sha g16 pre_state =
     rbind (expect (prepared_vk G) unwrap_none) (\<lambda>vk.
     let output_digest = create_output_digest G sha
           \<lparr>work_u128 = g16_total_work g16, wo_genesis_state_hash = g16_genesis_state_hash g16\<rparr>;
         claim_digest = create_claim_digest sha output_digest pre_state;
         claim_digest_hex = encode_hex G claim_digest in
     rbind (slice 32 64 claim_digest_hex) (\<lambda>c0_str.
     rbind (slice 0 32 claim_digest_hex) (\<lambda>c1_str.
     rbind (expect (to_decimal G c0_str) unwrap_none) (\<lambda>c0_dec.
     rbind (expect (to_decimal G c1_str) unwrap_none) (\<lambda>c1_dec.
     rbind (expect (fr_from_str G c0_dec) unwrap_none) (\<lambda>c0.
     rbind (expect (fr_from_str G c1_dec) unwrap_none) (\<lambda>c1.
     let public_inputs = [fr_new G A0_BIGINT, fr_new G A1_BIGINT, c0, c1, fr_new G BN_254_CONTROL_ID_BIGINT] in
     Inr (case verify_proof G vk (groth16_seal g16) public_inputs of Some b \<Rightarrow> b | None \<Rightarrow> False))))))))"

definition convert_to_groth16_and_verify ::
  "('g1, 'g2, 'fq, 'fq2, 'fr, 'vk) groth16_api \<Rightarrow> hasher \<Rightarrow> bytes \<Rightarrow> bytes \<Rightarrow> bytes \<Rightarrow> bytes \<Rightarrow> bool result" where
  "convert_to_groth16_and_verify G sha compressed_proof work image_id genesis =
     (case from_compressed G compressed_proof of
        Inl (Err _) \<Rightarrow> Inr False
      | Inl (Panic e) \<Rightarrow> Inl (Panic e)
      | Inr seal \<Rightarrow>
          groth16_verify G sha \<lparr>groth16_seal = seal, g16_total_work = work, g16_genesis_state_hash = genesis\<rparr> image_id)"

section \<open>What an accepted proof shows\<close>

text \<open>
  Documented behaviour of the crates: hexadecimal strings have two digits per byte and read back as
  the big-endian number, a decimal string is read as the field element of its number, a point
  compresses to 32 or 64 bytes and back.
\<close>

definition groth16_laws :: "('g1, 'g2, 'fq, 'fq2, 'fr, 'vk) groth16_api \<Rightarrow> (nat \<Rightarrow> 'fr) \<Rightarrow> bool" where
  "groth16_laws G fr \<longleftrightarrow>
     (\<forall>bs. length (encode_hex G bs) = 2 * length bs) \<and>
     (\<forall>xs ys. encode_hex G (xs @ ys) = encode_hex G xs @ encode_hex G ys) \<and>
     (\<forall>bs. bs \<noteq> [] \<longrightarrow> from_str_radix_16 G (encode_hex G bs) = Some (be_nat bs)) \<and>
     (\<forall>n < 2 ^ 128. fr_from_str G (to_str_radix_10 G n) = Some (fr n)) \<and>
     inj_on fr {..< 2 ^ 128}"

definition point_laws :: "('g1, 'g2, 'fq, 'fq2, 'fr, 'vk) groth16_api \<Rightarrow> bool" where
  "point_laws G \<longleftrightarrow>
     (\<forall>p. \<exists>bs. g1_serialize_compressed G p = Some bs \<and> length bs = 32 \<and> g1_deserialize_compressed G bs = Some p) \<and>
     (\<forall>p. \<exists>bs. g2_serialize_compressed G p = Some bs \<and> length bs = 64 \<and> g2_deserialize_compressed G bs = Some p)"

lemma compressed_roundtrip:
  assumes "point_laws G"
  obtains bs where "to_compressed G p = Inr bs" "length bs = 128" "from_compressed G bs = Inr p"
proof -
  obtain x y z where
    x: "g1_serialize_compressed G (proof_a p) = Some x" "length x = 32" "g1_deserialize_compressed G x = Some (proof_a p)" and
    y: "g2_serialize_compressed G (proof_b p) = Some y" "length y = 64" "g2_deserialize_compressed G y = Some (proof_b p)" and
    z: "g1_serialize_compressed G (proof_c p) = Some z" "length z = 32" "g1_deserialize_compressed G z = Some (proof_c p)"
    using assms unfolding point_laws_def by metis
  show thesis
    by (rule that [of "x @ y @ z"])
      (simp_all add: to_compressed_def from_compressed_def x y z slice_def expect_def)
qed

text \<open>The two halves of the claim digest that are public inputs of the proof.\<close>

definition claim_inputs ::
  "('g1, 'g2, 'fq, 'fq2, 'fr, 'vk) groth16_api \<Rightarrow> hasher \<Rightarrow> work_only_circuit_output \<Rightarrow> bytes \<Rightarrow> nat \<times> nat" where
  "claim_inputs G sha out img =
     (let d = create_claim_digest sha (create_output_digest G sha out) img in (be_nat (drop 16 d), be_nat (take 16 d)))"

definition public_inputs_of ::
  "('g1, 'g2, 'fq, 'fq2, 'fr, 'vk) groth16_api \<Rightarrow> (nat \<Rightarrow> 'fr) \<Rightarrow> nat \<times> nat \<Rightarrow> 'fr list" where
  "public_inputs_of G fr c =
     [fr_new G A0_BIGINT, fr_new G A1_BIGINT, fr (fst c), fr (snd c), fr_new G BN_254_CONTROL_ID_BIGINT]"

lemma half_digest_hex:
  assumes "groth16_laws G fr" "length d = 32"
  shows "slice 32 64 (encode_hex G d) = Inr (encode_hex G (drop 16 d))"
    and "slice 0 32 (encode_hex G d) = Inr (encode_hex G (take 16 d))"
proof -
  have "encode_hex G d = encode_hex G (take 16 d) @ encode_hex G (drop 16 d)"
    using assms(1) append_take_drop_id [of 16 d] unfolding groth16_laws_def by metis
  moreover have "length (encode_hex G (take 16 d)) = 32" "length (encode_hex G (drop 16 d)) = 32"
    using assms by (simp_all add: groth16_laws_def)
  ultimately show "slice 32 64 (encode_hex G d) = Inr (encode_hex G (drop 16 d))"
    and "slice 0 32 (encode_hex G d) = Inr (encode_hex G (take 16 d))"
    by (simp_all add: slice_def)
qed

lemma half_digest_field:
  assumes "groth16_laws G fr" "length h = 16"
  shows "\<exists>s. to_decimal G (encode_hex G h) = Some s \<and> fr_from_str G s = Some (fr (be_nat h))"
proof -
  have "be_nat h < 2 ^ 128" using be_nat_less [of h] assms(2) by simp
  moreover have "h \<noteq> []" using assms(2) by auto
  ultimately show ?thesis using assms(1) by (auto simp: groth16_laws_def to_decimal_def)
qed

lemma groth16_verify_inputs:
  assumes laws: "groth16_laws G fr" and "digest32 sha" "prepared_vk G = Some vk"
  shows "groth16_verify G sha g16 img =
     Inr (verify_proof G vk (groth16_seal g16)
            (public_inputs_of G fr (claim_inputs G sha
               \<lparr>work_u128 = g16_total_work g16, wo_genesis_state_hash = g16_genesis_state_hash g16\<rparr> img)) = Some True)"
proof -
  define d where "d = create_claim_digest sha (create_output_digest G sha
     \<lparr>work_u128 = g16_total_work g16, wo_genesis_state_hash = g16_genesis_state_hash g16\<rparr>) img"
  have d: "length d = 32" using assms(2) by (simp add: d_def create_claim_digest_def)
  obtain s0 s1 where s:
    "to_decimal G (encode_hex G (drop 16 d)) = Some s0" "fr_from_str G s0 = Some (fr (be_nat (drop 16 d)))"
    "to_decimal G (encode_hex G (take 16 d)) = Some s1" "fr_from_str G s1 = Some (fr (be_nat (take 16 d)))"
    using half_digest_field [OF laws, of "drop 16 d"] half_digest_field [OF laws, of "take 16 d"] d by auto
  show ?thesis
    unfolding groth16_verify_def assms(3) Let_def claim_inputs_def public_inputs_of_def d_def [symmetric]
    by (simp add: half_digest_hex [OF laws d] s expect_def split: option.splits)
qed

text \<open>The strings hashed into a claim.\<close>

definition claim_strings ::
  "('g1, 'g2, 'fq, 'fq2, 'fr, 'vk) groth16_api \<Rightarrow> hasher \<Rightarrow> work_only_circuit_output \<Rightarrow> bytes \<Rightarrow> bytes set" where
  "claim_strings G sha out img =
     {work_only_to_vec G out, output_pre_digest G sha out, claim_pre_digest (create_output_digest G sha out) img}"

lemma length_tags [simp]:
  "length OUTPUT_TAG = 32" "length CLAIM_TAG = 32" "length INPUT = 32" "length POST_STATE = 32" "length ASSUMPTIONS = 32"
  by (simp_all add: OUTPUT_TAG_def CLAIM_TAG_def INPUT_def POST_STATE_def ASSUMPTIONS_def)

lemma claim_inputs_inject:
  assumes "digest32 sha" "claim_inputs G sha out img = claim_inputs G sha out' img'"
    and "length img = 32" "length img' = 32"
    and inj: "inj_on sha (claim_strings G sha out img \<union> claim_strings G sha out' img')"
  shows "img = img' \<and> work_only_to_vec G out = work_only_to_vec G out'"
proof -
  let ?d = "create_claim_digest sha (create_output_digest G sha out) img"
  let ?d' = "create_claim_digest sha (create_output_digest G sha out') img'"
  have "length ?d = 32" "length ?d' = 32" using assms(1) by (simp_all add: create_claim_digest_def)
  then have "drop 16 ?d = drop 16 ?d'" "take 16 ?d = take 16 ?d'"
    using assms(2) by (simp_all add: claim_inputs_def Let_def be_nat_inject)
  then have "?d = ?d'" by (metis append_take_drop_id)
  then have "sha (claim_pre_digest (create_output_digest G sha out) img) = sha (claim_pre_digest (create_output_digest G sha out') img')"
    by (simp add: create_claim_digest_def)
  then have "claim_pre_digest (create_output_digest G sha out) img = claim_pre_digest (create_output_digest G sha out') img'"
    by (rule inj_onD [OF inj]) (simp_all add: claim_strings_def)
  then have eq: "img = img'" "sha (output_pre_digest G sha out) = sha (output_pre_digest G sha out')"
    using assms(1,3,4) by (simp_all add: claim_pre_digest_def create_output_digest_def)
  from eq(2) have "output_pre_digest G sha out = output_pre_digest G sha out'"
    by (rule inj_onD [OF inj]) (simp_all add: claim_strings_def)
  then have "sha (work_only_to_vec G out) = sha (work_only_to_vec G out')"
    using assms(1) by (simp add: output_pre_digest_def create_journal_digest_def)
  then have "work_only_to_vec G out = work_only_to_vec G out'"
    by (rule inj_onD [OF inj]) (simp_all add: claim_strings_def)
  with eq show ?thesis by simp
qed

text \<open>
  Soundness of the proof system for a relation \<open>proven\<close> between image ids and the outputs that runs
  of that image commit: an accepted proof is about the claim digest of such a run. The encoding of an
  output determines it, and SHA-256 does not collide between the claim of a run and the claim at hand.
\<close>

definition work_only_wf :: "work_only_circuit_output \<Rightarrow> bool" where
  "work_only_wf out \<longleftrightarrow> length (work_u128 out) = 16 \<and> length (wo_genesis_state_hash out) = 32"

definition groth16_sound ::
  "('g1, 'g2, 'fq, 'fq2, 'fr, 'vk) groth16_api \<Rightarrow> (nat \<Rightarrow> 'fr) \<Rightarrow> hasher \<Rightarrow> (bytes \<Rightarrow> work_only_circuit_output \<Rightarrow> bool) \<Rightarrow> bool" where
  "groth16_sound G fr sha proven \<longleftrightarrow>
     (\<forall>vk p c0 c1. prepared_vk G = Some vk \<longrightarrow> verify_proof G vk p (public_inputs_of G fr (c0, c1)) = Some True \<longrightarrow>
        c0 < 2 ^ 128 \<longrightarrow> c1 < 2 ^ 128 \<longrightarrow>
        (\<exists>img out. proven img out \<and> length img = 32 \<and> work_only_wf out \<and> (c0, c1) = claim_inputs G sha out img))"

definition claim_binding ::
  "('g1, 'g2, 'fq, 'fq2, 'fr, 'vk) groth16_api \<Rightarrow> hasher \<Rightarrow> (bytes \<Rightarrow> work_only_circuit_output \<Rightarrow> bool) \<Rightarrow>
   bytes \<Rightarrow> work_only_circuit_output \<Rightarrow> bool" where
  "claim_binding G sha proven image_id claimed \<longleftrightarrow>
     (\<forall>x y. work_only_wf x \<longrightarrow> work_only_wf y \<longrightarrow> work_only_to_vec G x = work_only_to_vec G y \<longrightarrow> x = y) \<and>
     (\<forall>img out. proven img out \<longrightarrow>
        inj_on sha (claim_strings G sha claimed image_id \<union> claim_strings G sha out img))"

lemma claim_inputs_bound:
  assumes "digest32 sha" "claim_inputs G sha out img = (c0, c1)"
  shows "c0 < 2 ^ 128" "c1 < 2 ^ 128"
proof -
  have "be_nat h < 2 ^ 128" if "length h = 16" for h using be_nat_less [of h] that by simp
  then show "c0 < 2 ^ 128" "c1 < 2 ^ 128"
    using assms by (auto simp: claim_inputs_def Let_def create_claim_digest_def)
qed

lemma convert_Inr_True:
  assumes "convert_to_groth16_and_verify G sha proof_bytes work image_id genesis = Inr True"
  obtains seal where "from_compressed G proof_bytes = Inr seal"
    "groth16_verify G sha \<lparr>groth16_seal = seal, g16_total_work = work, g16_genesis_state_hash = genesis\<rparr> image_id = Inr True"
  using assms by (auto simp: convert_to_groth16_and_verify_def split: sum.splits error.splits)

lemma accepted_work_proven:
  assumes laws: "groth16_laws G fr" and sha: "digest32 sha" and sound: "groth16_sound G fr sha proven"
    and len: "length image_id = 32" "length work = 16" "length genesis = 32"
    and bind: "claim_binding G sha proven image_id \<lparr>work_u128 = work, wo_genesis_state_hash = genesis\<rparr>"
    and acc: "convert_to_groth16_and_verify G sha proof_bytes work image_id genesis = Inr True"
  shows "proven image_id \<lparr>work_u128 = work, wo_genesis_state_hash = genesis\<rparr>"
proof -
  let ?out = "\<lparr>work_u128 = work, wo_genesis_state_hash = genesis\<rparr>"
  from convert_Inr_True [OF acc] obtain seal where
    v: "groth16_verify G sha \<lparr>groth16_seal = seal, g16_total_work = work, g16_genesis_state_hash = genesis\<rparr> image_id = Inr True"
    by blast
  then obtain vk where vk: "prepared_vk G = Some vk" by (auto simp: groth16_verify_def)
  obtain c0 c1 where c: "claim_inputs G sha ?out image_id = (c0, c1)" by fastforce
  have "verify_proof G vk seal (public_inputs_of G fr (c0, c1)) = Some True"
    using v groth16_verify_inputs [OF laws sha vk] c by simp
  then obtain img out where r: "proven img out" "length img = 32" "work_only_wf out" "(c0, c1) = claim_inputs G sha out img"
    using sound vk claim_inputs_bound [OF sha c] unfolding groth16_sound_def by blast
  have "inj_on sha (claim_strings G sha ?out image_id \<union> claim_strings G sha out img)"
    using bind r(1) unfolding claim_binding_def by blast
  from claim_inputs_inject [OF sha _ len(1) r(2) this] c r(4)
  have "image_id = img" "work_only_to_vec G ?out = work_only_to_vec G out" by simp_all
  moreover have "work_only_wf ?out" using len by (simp add: work_only_wf_def)
  ultimately show ?thesis using bind r(1,3) unfolding claim_binding_def by metis
qed

section \<open>A concrete instance\<close>

definition hex_digit :: "nat \<Rightarrow> char" where
  "hex_digit d = (if d < 10 then char_of (48 + d) else char_of (87 + d))"

definition hex_value :: "char \<Rightarrow> nat" where
  "hex_value c = (if of_char c < (97 :: nat) then of_char c - 48 else of_char c - 87)"

definition hex_string :: "bytes \<Rightarrow> string" where
  "hex_string bs = concat (map (\<lambda>b. [hex_digit (unat b div 16), hex_digit (unat b mod 16)]) bs)"

definition hex_number :: "string \<Rightarrow> nat option" where
  "hex_number s = (if s = [] then None else Some (foldl (\<lambda>n c. n * 16 + hex_value c) 0 s))"

lemma hex_value_digit: "d < 16 \<Longrightarrow> hex_value (hex_digit d) = d"
  by (simp add: hex_value_def hex_digit_def)

lemma hex_string_number:
  assumes "bs \<noteq> []"
  shows "hex_number (hex_string bs) = Some (be_nat bs)"
proof -
  have "foldl (\<lambda>n c. n * 16 + hex_value c) 0 (hex_string bs) = be_nat bs"
  proof (induction bs rule: rev_induct)
    case Nil
    then show ?case by (simp add: hex_string_def)
  next
    case (snoc b bs)
    have "unat b div 16 < 16" by (rule less_mult_imp_div_less) (use unat_u8_less [of b] in simp)
    then show ?case using snoc.IH by (simp add: hex_string_def hex_value_digit)
  qed
  moreover have "hex_string bs \<noteq> []" using assms by (cases bs) (simp_all add: hex_string_def)
  ultimately show ?thesis by (simp add: hex_number_def)
qed

text \<open>
  Points as numbers of the width of their encoding, field elements as numbers, and a verifier that
  accepts the public inputs of one claim.
\<close>

definition demo_hc_state :: chain_state where
  "demo_hc_state = (genesis_state Mainnet)\<lparr>total_work := replicate 31 0 @ [10], best_block_hash := replicate 32 4,
     block_hashes_mmr := demo_range\<rparr>"

definition demo_work_only :: work_only_circuit_output where
  "demo_work_only = \<lparr>work_u128 = replicate 15 0 @ [9], wo_genesis_state_hash = to_hash toy_sha demo_hc_state\<rparr>"

lemma length_demo_genesis [simp]: "length (to_hash toy_sha demo_hc_state) = 32"
  by (simp add: to_hash_def)

definition demo_groth16_base :: "(u256, 512 word, unit, unit, nat, unit) groth16_api" where
  "demo_groth16_base =
     \<lparr>g1_deserialize_compressed = (\<lambda>bs. Some (of_nat (be_nat bs))), g2_deserialize_compressed = (\<lambda>bs. Some (of_nat (be_nat bs))),
      g1_serialize_compressed = (\<lambda>p. Some (nat_be 32 (unat p))), g2_serialize_compressed = (\<lambda>p. Some (nat_be 64 (unat p))),
      fq_from_be_bytes_mod_order = (\<lambda>_. ()), fq2_from_base_prime_field_elems = (\<lambda>_. Some ()),
      g1_new = (\<lambda>_ _. Inr 0), g2_new = (\<lambda>_ _. Inr 0), fr_new = (\<lambda>_. 0), fr_from_str = (\<lambda>s. Some (length s)),
      encode_hex = hex_string, from_str_radix_16 = hex_number, to_str_radix_10 = (\<lambda>n. replicate n CHR ''1''),
      work_only_to_vec = (\<lambda>out. work_u128 out @ wo_genesis_state_hash out),
      prepared_vk = Some (), verify_proof = (\<lambda>_ _ _. None)\<rparr>"

definition demo_groth16 :: "(u256, 512 word, unit, unit, nat, unit) groth16_api" where
  "demo_groth16 = demo_groth16_base\<lparr>verify_proof := (\<lambda>_ _ inputs.
     Some (inputs = public_inputs_of demo_groth16_base (\<lambda>n. n)
             (claim_inputs demo_groth16_base toy_sha demo_work_only MAINNET_WORK_ONLY_METHOD_ID)))\<rparr>"

lemma demo_groth16_laws: "groth16_laws demo_groth16 (\<lambda>n. n)"
proof -
  have "length (hex_string bs) = 2 * length bs" for bs by (induction bs) (simp_all add: hex_string_def)
  moreover have "hex_string (xs @ ys) = hex_string xs @ hex_string ys" for xs ys by (simp add: hex_string_def)
  ultimately show ?thesis
    by (simp add: groth16_laws_def demo_groth16_def demo_groth16_base_def hex_string_number)
qed

lemma demo_point_laws: "point_laws demo_groth16"
proof -
  have "unat p < 256 ^ 64" for p :: "512 word"
    using unsigned_less [of p] by (simp add: power_mult [symmetric, of 2 8 64, simplified])
  then show ?thesis
    using unat_u256_less
    by (simp add: point_laws_def demo_groth16_def demo_groth16_base_def be_nat_nat_be)
qed

definition demo_proven :: "bytes \<Rightarrow> work_only_circuit_output \<Rightarrow> bool" where
  "demo_proven img out \<longleftrightarrow> img = MAINNET_WORK_ONLY_METHOD_ID \<and> out = demo_work_only"

lemma length_MAINNET_WORK_ONLY [simp]: "length MAINNET_WORK_ONLY_METHOD_ID = 32"
  by (simp add: MAINNET_WORK_ONLY_METHOD_ID_def)

lemma demo_claims:
  "claim_inputs demo_groth16 = claim_inputs demo_groth16_base"
  "public_inputs_of demo_groth16 = public_inputs_of demo_groth16_base"
  by (intro ext; simp add: claim_inputs_def create_output_digest_def output_pre_digest_def create_journal_digest_def
      public_inputs_of_def demo_groth16_def)+

lemma demo_verify_proof:
  "verify_proof demo_groth16 vk p inputs = Some (inputs = public_inputs_of demo_groth16_base (\<lambda>n. n)
     (claim_inputs demo_groth16_base toy_sha demo_work_only MAINNET_WORK_ONLY_METHOD_ID))"
  by (simp add: demo_groth16_def)

lemma demo_groth16_sound: "groth16_sound demo_groth16 (\<lambda>n. n) toy_sha demo_proven"
proof -
  have "work_only_wf demo_work_only" by (simp add: work_only_wf_def demo_work_only_def)
  moreover have "(c0, c1) = claim_inputs demo_groth16 toy_sha demo_work_only MAINNET_WORK_ONLY_METHOD_ID"
    if "verify_proof demo_groth16 vk p (public_inputs_of demo_groth16 (\<lambda>n. n) (c0, c1)) = Some True" for vk p c0 c1
    using that unfolding demo_claims demo_verify_proof by (simp add: public_inputs_of_def prod_eq_iff)
  ultimately show ?thesis
    unfolding groth16_sound_def demo_proven_def by (metis length_MAINNET_WORK_ONLY)
qed

lemma demo_claim_binding:
  "claim_binding demo_groth16 toy_sha demo_proven MAINNET_WORK_ONLY_METHOD_ID demo_work_only"
proof -
  let ?S = "claim_strings demo_groth16 toy_sha demo_work_only MAINNET_WORK_ONLY_METHOD_ID"
  have "inj_on toy_sha ?S"
    by (rule toy_sha_inj_on)
      (auto simp: claim_strings_def demo_groth16_def demo_groth16_base_def demo_work_only_def output_pre_digest_def
        create_journal_digest_def claim_pre_digest_def create_output_digest_def)
  then show ?thesis
    by (auto simp: claim_binding_def demo_proven_def work_only_wf_def demo_groth16_def demo_groth16_base_def
        intro: work_only_circuit_output.equality)
qed

lemma demo_groth16_accepts:
  "convert_to_groth16_and_verify demo_groth16 toy_sha (replicate 128 0) (work_u128 demo_work_only)
     MAINNET_WORK_ONLY_METHOD_ID (wo_genesis_state_hash demo_work_only) = Inr True"
proof -
  let ?p = "\<lparr>proof_a = 0, proof_b = 0, proof_c = 0\<rparr> :: (u256, 512 word) circuit_groth16_proof"
  have c: "from_compressed demo_groth16 (replicate 128 0) = Inr ?p"
    by (simp add: from_compressed_def demo_groth16_def demo_groth16_base_def slice_def expect_def)
  have vk: "prepared_vk demo_groth16 = Some ()" by (simp add: demo_groth16_def demo_groth16_base_def)
  have out: "\<lparr>work_u128 = work_u128 demo_work_only, wo_genesis_state_hash = wo_genesis_state_hash demo_work_only\<rparr> = demo_work_only"
    by (simp add: demo_work_only_def)
  have "verify_proof demo_groth16 () ?p (public_inputs_of demo_groth16 (\<lambda>n. n)
     (claim_inputs demo_groth16 toy_sha demo_work_only MAINNET_WORK_ONLY_METHOD_ID)) = Some True"
    unfolding demo_claims demo_verify_proof by simp
  then show ?thesis
    by (simp add: convert_to_groth16_and_verify_def c groth16_verify_inputs [OF demo_groth16_laws digest32_toy_sha vk] out)
qed

section \<open>Properties\<close>

text \<open>
  Compressed proofs round-trip. If points compress to 32 and 64 bytes and back, compressing a
  proof succeeds with 128 bytes, and reading these bytes gives the proof.
\<close>

theorem groth16_compression_roundtrip:
  assumes "point_laws G"
  shows "\<exists>bs. to_compressed G p = Inr bs \<and> length bs = 128 \<and> from_compressed G bs = Inr p"
  using compressed_roundtrip [OF assms] by blast

theorem groth16_compression_roundtrip_witness:
  "\<exists>bs. to_compressed demo_groth16 \<lparr>proof_a = 1, proof_b = 2, proof_c = 3\<rparr> = Inr bs \<and> length bs = 128 \<and>
     from_compressed demo_groth16 bs = Inr \<lparr>proof_a = 1, proof_b = 2, proof_c = 3\<rparr>"
  by (rule groth16_compression_roundtrip [OF demo_point_laws])

text \<open>
  C29. An accepted Groth16 proof is about the stated work. If the proof system is sound for claim
  digests, the claim digests do not collide and the encoding of an output determines it, then a
  compressed proof that the circuit accepts with a total work and a genesis state hash under an
  image id comes from a run of that image that committed exactly this work and this hash.
\<close>

theorem groth16_accepts_genuine_work:
  assumes "groth16_laws G fr" "digest32 sha" "groth16_sound G fr sha proven"
    and "length image_id = 32" "length work = 16" "length genesis = 32"
    and "claim_binding G sha proven image_id \<lparr>work_u128 = work, wo_genesis_state_hash = genesis\<rparr>"
    and "convert_to_groth16_and_verify G sha proof_bytes work image_id genesis = Inr True"
  shows "proven image_id \<lparr>work_u128 = work, wo_genesis_state_hash = genesis\<rparr>"
  using assms by (rule accepted_work_proven)

theorem groth16_accepts_genuine_work_witness:
  "demo_proven MAINNET_WORK_ONLY_METHOD_ID
     \<lparr>work_u128 = replicate 15 0 @ [9], wo_genesis_state_hash = to_hash toy_sha demo_hc_state\<rparr>"
  using groth16_accepts_genuine_work [OF demo_groth16_laws digest32_toy_sha demo_groth16_sound length_MAINNET_WORK_ONLY
      _ _ _ demo_groth16_accepts] demo_claim_binding
  by (simp add: demo_work_only_def)

end
