(* ===== verification/Storage_Proof.thy ===== *)
theory Storage_Proof
  imports Groth16
begin

text \<open>
  What the bridge circuit reads from the rollup: the light client proof
  (\<open>src/circuits-lib/src/bridge_circuit/lc_proof.rs\<close>) and the storage proofs of the bridge contract
  (\<open>storage_proof.rs\<close>). Recursive verification, the journal of the light client, JSON, Keccak and the
  sparse Merkle tree are outside the repository: the parameter \<open>S\<close>.
\<close>

section \<open>The light client proof\<close>

record light_client_circuit_output =
  l2_state_root :: bytes
  latest_da_block_hash :: bytes
  light_client_proof_method_id :: "u32 list"

record eip1186_storage_proof =
  sp_key :: bytes
  sp_value :: u256
  sp_proof :: "bytes list"

record 'jmt rollup_api =
  env_verify_journal :: "bytes \<Rightarrow> bytes \<Rightarrow> bool"
  lc_output_from_slice :: "bytes \<Rightarrow> light_client_circuit_output option"
  storage_proof_from_str :: "string \<Rightarrow> eip1186_storage_proof option"
  keccak256 :: hasher
  key_hash_with :: hasher
  jmt_from_slice :: "bytes \<Rightarrow> 'jmt option"
  jmt_verify :: "'jmt \<Rightarrow> bytes \<Rightarrow> bytes \<Rightarrow> bytes option \<Rightarrow> bool"

definition LC_IMAGE_ID :: "network \<Rightarrow> bytes" where
  "LC_IMAGE_ID net =
     (case net of
        Regtest \<Rightarrow> REGTEST_LC_IMAGE_ID
      | Signet \<Rightarrow> DEVNET_LC_IMAGE_ID
      | Testnet4 \<Rightarrow> TESTNET4_LC_IMAGE_ID
      | Mainnet \<Rightarrow> MAINNET_LC_IMAGE_ID)"

definition is_regtest :: "network \<Rightarrow> bool" where
  "is_regtest net \<longleftrightarrow> net = Regtest"

definition deserialize_circuit_output :: "'jmt rollup_api \<Rightarrow> bytes \<Rightarrow> light_client_circuit_output result" where
  "deserialize_circuit_output S journal =
     expect (lc_output_from_slice S journal) (Panic ''Failed to deserialize light client circuit output'')"

definition check_method_id :: "light_client_circuit_output \<Rightarrow> bytes \<Rightarrow> bool result" where
  "check_method_id out lc_image_id_circuit =
     rbind (expect (try_array 32 (concat (map u32_to_le_bytes (light_client_proof_method_id out))))
              (Panic ''Conversion from [u32; 8] to [u8; 32] cannot fail'')) (\<lambda>method_id_bytes.
     Inr (method_id_bytes = lc_image_id_circuit))"

definition lc_proof_verifier ::
  "network \<Rightarrow> 'jmt rollup_api \<Rightarrow> light_client_proof \<Rightarrow> light_client_circuit_output result" where
  "lc_proof_verifier net S lc =
     rbind (if \<not> is_regtest net
            then ensure (env_verify_journal S (LC_IMAGE_ID net) (lc_journal lc)) (Panic ''Failed to verify light client proof'')
            else Inr ()) (\<lambda>_.
     rbind (deserialize_circuit_output S (lc_journal lc)) (\<lambda>out.
     rbind (if \<not> is_regtest net
            then rbind (check_method_id out (LC_IMAGE_ID net)) (\<lambda>ok.
                 ensure ok (Panic ''Light client proof method ID does not match the expected LC image ID''))
            else Inr ()) (\<lambda>_.
     Inr out)))"

section \<open>Storage proofs\<close>

definition ADDRESS :: bytes where
  "ADDRESS = [0x31] @ replicate 18 0 @ [0x02]"

definition UTXOS_STORAGE_INDEX :: bytes where
  "UTXOS_STORAGE_INDEX = replicate 31 0 @ [7]"

definition DEPOSIT_STORAGE_INDEX :: bytes where
  "DEPOSIT_STORAGE_INDEX = replicate 31 0 @ [8]"

definition u256_to_le_bytes :: "u256 \<Rightarrow> bytes" where
  "u256_to_le_bytes w = nat_le 32 (unat w)"

definition storage_key_of :: "hasher \<Rightarrow> bytes \<Rightarrow> bytes" where
  "storage_key_of sha key =
     (let kaddr = sha (ADDRESS @ u256_to_le_bytes (u256_from_be_bytes key)) in
      [0x45, 0x2F, 0x73, 0x2F] @ u256_to_le_bytes (of_nat (le_nat kaddr)))"

definition storage_verify :: "'jmt rollup_api \<Rightarrow> hasher \<Rightarrow> eip1186_storage_proof \<Rightarrow> bytes \<Rightarrow> unit result" where
  "storage_verify S sha sproof expected_root_hash =
     (let key_hash = key_hash_with S (storage_key_of sha (sp_key sproof)) in
      rbind (nth_checked (sp_proof sproof) 1) (\<lambda>flag.
      rbind (if flag = [0x79] then Inr (Some (u256_to_le_bytes (sp_value sproof)))
             else Inl (Panic ''storage does not exist'')) (\<lambda>proved_value.
      rbind (nth_checked (sp_proof sproof) 0) (\<lambda>encoded.
      rbind (expect (jmt_from_slice S encoded) (Panic ''called Result::unwrap() on an Err value'')) (\<lambda>jmt.
      ensure (jmt_verify S jmt expected_root_hash key_hash proved_value)
        (Panic ''Account storage proof must be valid''))))))"

definition storage_address :: "'jmt rollup_api \<Rightarrow> bytes \<Rightarrow> u256 result" where
  "storage_address S slot =
     rbind (expect (try_array 32 (keccak256 S slot)) (Panic ''Hash slice has incorrect length'')) (\<lambda>hash.
     Inr (u256_from_be_bytes hash))"

definition verify_storage_proofs ::
  "'jmt rollup_api \<Rightarrow> hasher \<Rightarrow> storage_proof \<Rightarrow> bytes \<Rightarrow> (bytes \<times> u32 \<times> bytes) result" where
  "verify_storage_proofs S sha sproof state_root =
     rbind (expect (storage_proof_from_str S (storage_proof_utxo sproof))
              (Panic ''Failed to deserialize UTXO storage proof'')) (\<lambda>utxo_proof.
     rbind (expect (storage_proof_from_str S (storage_proof_vout sproof))
              (Panic ''Failed to deserialize vout storage proof'')) (\<lambda>vout_proof.
     rbind (expect (storage_proof_from_str S (storage_proof_deposit_txid sproof))
              (Panic ''Failed to deserialize deposit storage proof'')) (\<lambda>deposit_proof.
     rbind (storage_address S UTXOS_STORAGE_INDEX) (\<lambda>utxos_address.
     let storage_key_utxo = utxos_address + ucast (storage_index sproof * 2);
         storage_key_vout = utxos_address + ucast (storage_index sproof * 2 + 1) in
     rbind (storage_address S DEPOSIT_STORAGE_INDEX) (\<lambda>deposit_address.
     let deposit_storage_key = deposit_address + ucast (storage_index sproof) in
     rbind (ensure (u256_to_be_bytes deposit_storage_key = sp_key deposit_proof) (Panic ''Invalid deposit storage key'')) (\<lambda>_.
     rbind (ensure (u256_to_be_bytes storage_key_utxo = sp_key utxo_proof)
              (Panic ''Invalid withdrawal UTXO storage key'')) (\<lambda>_.
     rbind (ensure (u256_to_be_bytes storage_key_vout = sp_key vout_proof)
              (Panic ''Invalid withdrawal vout storage key'')) (\<lambda>_.
     rbind (storage_verify S sha utxo_proof state_root) (\<lambda>_.
     rbind (storage_verify S sha deposit_proof state_root) (\<lambda>_.
     rbind (storage_verify S sha vout_proof state_root) (\<lambda>_.
     rbind (slice 28 32 (u256_to_be_bytes (sp_value vout_proof))) (\<lambda>vout_bytes.
     let vout = u32_from_le_bytes vout_bytes in
     Inr (u256_to_be_bytes (sp_value utxo_proof), vout, u256_to_be_bytes (sp_value deposit_proof))))))))))))))"

section \<open>The storage slots\<close>

text \<open>The slots of a withdrawal and of its deposit in the storage of the contract.\<close>

definition utxo_slot :: "'jmt rollup_api \<Rightarrow> u32 \<Rightarrow> bytes" where
  "utxo_slot S i = u256_to_be_bytes (u256_from_be_bytes (keccak256 S UTXOS_STORAGE_INDEX) + ucast (i * 2))"

definition vout_slot :: "'jmt rollup_api \<Rightarrow> u32 \<Rightarrow> bytes" where
  "vout_slot S i = u256_to_be_bytes (u256_from_be_bytes (keccak256 S UTXOS_STORAGE_INDEX) + ucast (i * 2 + 1))"

definition deposit_slot :: "'jmt rollup_api \<Rightarrow> u32 \<Rightarrow> bytes" where
  "deposit_slot S i = u256_to_be_bytes (u256_from_be_bytes (keccak256 S DEPOSIT_STORAGE_INDEX) + ucast i)"

text \<open>
  A state of the contract: the value of every slot under a state root. The tree proves a value only
  if the root commits to it.
\<close>

definition jmt_sound :: "'jmt rollup_api \<Rightarrow> hasher \<Rightarrow> bytes \<Rightarrow> (bytes \<Rightarrow> u256 option) \<Rightarrow> bool" where
  "jmt_sound S sha root slots \<longleftrightarrow>
     (\<forall>p slot v. length slot = 32 \<longrightarrow>
        jmt_verify S p root (key_hash_with S (storage_key_of sha slot)) (Some (u256_to_le_bytes v)) \<longrightarrow> slots slot = Some v)"

lemma storage_verify_slot:
  assumes "storage_verify S sha sproof root = Inr ()" "jmt_sound S sha root slots" "length (sp_key sproof) = 32"
  shows "slots (sp_key sproof) = Some (sp_value sproof)"
proof -
  obtain jmt where
    "jmt_verify S jmt root (key_hash_with S (storage_key_of sha (sp_key sproof))) (Some (u256_to_le_bytes (sp_value sproof)))"
    using assms(1) by (auto simp: storage_verify_def Let_def split: if_splits)
  then show ?thesis using assms(2,3) unfolding jmt_sound_def by blast
qed

lemma verify_storage_proofs_slots:
  assumes "verify_storage_proofs S sha sproof root = Inr (txid, vout, move_txid)" "jmt_sound S sha root slots"
  shows "\<exists>u v d. slots (utxo_slot S (storage_index sproof)) = Some u \<and> txid = u256_to_be_bytes u \<and>
     slots (vout_slot S (storage_index sproof)) = Some v \<and> vout = u32_from_le_bytes (drop 28 (u256_to_be_bytes v)) \<and>
     slots (deposit_slot S (storage_index sproof)) = Some d \<and> move_txid = u256_to_be_bytes d"
proof -
  obtain u v d where *: "sp_key u = utxo_slot S (storage_index sproof)" "storage_verify S sha u root = Inr ()"
      "txid = u256_to_be_bytes (sp_value u)"
      "sp_key v = vout_slot S (storage_index sproof)" "storage_verify S sha v root = Inr ()"
      "vout = u32_from_le_bytes (drop 28 (u256_to_be_bytes (sp_value v)))"
      "sp_key d = deposit_slot S (storage_index sproof)" "storage_verify S sha d root = Inr ()"
      "move_txid = u256_to_be_bytes (sp_value d)"
    using assms(1)
    by (auto simp: verify_storage_proofs_def storage_address_def Let_def utxo_slot_def vout_slot_def deposit_slot_def)
  have "length (sp_key u) = 32" "length (sp_key v) = 32" "length (sp_key d) = 32"
    by (simp_all add: * utxo_slot_def vout_slot_def deposit_slot_def)
  with * storage_verify_slot [OF _ assms(2)] show ?thesis by metis
qed

lemma lc_proof_verifier_Inr:
  assumes "lc_proof_verifier net S lc = Inr out" "net \<noteq> Regtest"
  shows "env_verify_journal S (LC_IMAGE_ID net) (lc_journal lc)" "lc_output_from_slice S (lc_journal lc) = Some out"
    "concat (map u32_to_le_bytes (light_client_proof_method_id out)) = LC_IMAGE_ID net"
  using assms
  by (auto simp: lc_proof_verifier_def is_regtest_def deserialize_circuit_output_def check_method_id_def)

section \<open>A concrete instance\<close>

text \<open>
  A contract with one withdrawal at index 1 and deposits at the indices 1 and \<open>2 ^ 31 + 1\<close>, over hash
  functions that keep their input.
\<close>

definition demo_slots :: "(bytes \<times> u256) list" where
  "demo_slots =
     [(u256_to_be_bytes (u256_from_be_bytes (7 # replicate 31 0) + 2), 77),
      (u256_to_be_bytes (u256_from_be_bytes (7 # replicate 31 0) + 3), 0x01000000),
      (u256_to_be_bytes (u256_from_be_bytes (8 # replicate 31 0) + 1), 99),
      (u256_to_be_bytes (u256_from_be_bytes (8 # replicate 31 0) + 0x80000001), 55)]"

definition demo_key_sha :: hasher where
  "demo_key_sha x = drop 20 x"

definition demo_lc_method_id :: "u32 list" where
  "demo_lc_method_id = [3592947351, 3032865510, 678598662, 1706175774, 2077956923, 879377395, 663749202, 2872834036]"

lemma demo_lc_method_id: "concat (map u32_to_le_bytes demo_lc_method_id) = MAINNET_LC_IMAGE_ID"
  by (simp add: demo_lc_method_id_def MAINNET_LC_IMAGE_ID_def u32_to_le_bytes_def nat_le_def nat_be_numeral)

definition demo_rollup :: "unit rollup_api" where
  "demo_rollup =
     \<lparr>env_verify_journal = (\<lambda>_ _. True),
      lc_output_from_slice = (\<lambda>j. Some \<lparr>l2_state_root = take 32 j, latest_da_block_hash = drop 32 j,
                                        light_client_proof_method_id = demo_lc_method_id\<rparr>),
      storage_proof_from_str = (\<lambda>s.
        let entry = demo_slots ! (if s = ''utxo'' then 0 else if s = ''vout'' then 1 else if s = ''deposit'' then 2 else 3) in
        Some \<lparr>sp_key = fst entry, sp_value = snd entry, sp_proof = [[], [0x79]]\<rparr>),
      keccak256 = rev, key_hash_with = (\<lambda>x. x), jmt_from_slice = (\<lambda>_. Some ()),
      jmt_verify = (\<lambda>_ _ kh v. list_ex (\<lambda>(slot, w). kh = storage_key_of demo_key_sha slot \<and>
                                             v = Some (u256_to_le_bytes w)) demo_slots)\<rparr>"

definition demo_storage_proof :: storage_proof where
  "demo_storage_proof =
     \<lparr>storage_proof_utxo = ''utxo'', storage_proof_vout = ''vout'', storage_proof_deposit_txid = ''deposit'', storage_index = 1\<rparr>"

definition demo_far_proof :: storage_proof where
  "demo_far_proof =
     \<lparr>storage_proof_utxo = ''utxo'', storage_proof_vout = ''vout'', storage_proof_deposit_txid = ''far'', storage_index = 0x80000001\<rparr>"

lemma u256_to_le_bytes_inject: "u256_to_le_bytes v = u256_to_le_bytes w \<longleftrightarrow> v = w"
  using unat_u256_less [of v] unat_u256_less [of w] by (simp add: u256_to_le_bytes_def nat_le_inject word_unat_eq_iff)

lemma demo_key_inject:
  assumes "length x = 32" "length y = 32" "storage_key_of demo_key_sha x = storage_key_of demo_key_sha y"
  shows "x = y"
proof -
  have le: "of_nat (le_nat (u256_to_le_bytes w)) = w" for w
    using unat_u256_less [of w] by (simp add: u256_to_le_bytes_def le_nat_nat_le)
  have "u256_from_be_bytes x = u256_from_be_bytes y"
    using assms(3) by (simp add: storage_key_of_def demo_key_sha_def ADDRESS_def Let_def le u256_to_le_bytes_inject)
  then show ?thesis by (metis assms(1,2) u256_to_from_be_bytes)
qed

lemma demo_slots_distinct: "distinct (map fst demo_slots)"
proof -
  have u: "u256_to_be_bytes v = u256_to_be_bytes w \<longleftrightarrow> v = w" for v w by (metis u256_from_to_be_bytes)
  show ?thesis by (simp add: demo_slots_def u u256_from_be_bytes_def be_nat_Cons)
qed

lemma demo_jmt_sound: "jmt_sound demo_rollup demo_key_sha root (map_of demo_slots)"
proof -
  have "map_of demo_slots slot = Some v"
    if "length slot = 32" "(s, w) \<in> set demo_slots" "storage_key_of demo_key_sha slot = storage_key_of demo_key_sha s"
      "u256_to_le_bytes v = u256_to_le_bytes w" for slot v s w
  proof -
    have "length s = 32" using that(2) by (auto simp: demo_slots_def)
    then have "slot = s" using demo_key_inject that by blast
    then show ?thesis using that(2,4) demo_slots_distinct by (simp add: u256_to_le_bytes_inject)
  qed
  then show ?thesis by (auto simp: jmt_sound_def demo_rollup_def list_ex_iff)
qed

definition demo_entry :: "nat \<Rightarrow> eip1186_storage_proof" where
  "demo_entry i = \<lparr>sp_key = fst (demo_slots ! i), sp_value = snd (demo_slots ! i), sp_proof = [[], [0x79]]\<rparr>"

lemma demo_storage_eval:
  assumes k: "keccak256 S = rev" and p: "storage_proof_from_str S = storage_proof_from_str demo_rollup"
    and v: "\<And>i. i < 4 \<Longrightarrow> storage_verify S sha (demo_entry i) root = Inr ()"
  shows "verify_storage_proofs S sha demo_storage_proof root = Inr (u256_to_be_bytes 77, 1, u256_to_be_bytes 99)"
    and "verify_storage_proofs S sha demo_far_proof root = Inr (u256_to_be_bytes 77, 1, u256_to_be_bytes 55)"
proof -
  have r: "rev UTXOS_STORAGE_INDEX = 7 # replicate 31 0" "rev DEPOSIT_STORAGE_INDEX = 8 # replicate 31 0"
    by (simp_all add: UTXOS_STORAGE_INDEX_def DEPOSIT_STORAGE_INDEX_def)
  have b: "u32_from_le_bytes (take 4 (drop 28 (u256_to_be_bytes 0x01000000))) = 1"
    by (simp add: u256_to_be_bytes_def u32_from_le_bytes_def nat_be_numeral le_nat_def be_nat_Cons)
  have e: "storage_proof_from_str S ''utxo'' = Some (demo_entry 0)" "storage_proof_from_str S ''vout'' = Some (demo_entry 1)"
      "storage_proof_from_str S ''deposit'' = Some (demo_entry 2)" "storage_proof_from_str S ''far'' = Some (demo_entry 3)"
    unfolding p by (simp_all add: demo_rollup_def demo_entry_def Let_def)
  note eval = storage_address_def k r demo_entry_def demo_slots_def ensure_def slice_def try_array_def expect_def
  show "verify_storage_proofs S sha demo_storage_proof root = Inr (u256_to_be_bytes 77, 1, u256_to_be_bytes 99)"
    unfolding verify_storage_proofs_def demo_storage_proof_def storage_proof.select_convs e expect_simps rbind_simps
    using v [of 0] v [of 1] v [of 2] b by (simp add: eval)
  show "verify_storage_proofs S sha demo_far_proof root = Inr (u256_to_be_bytes 77, 1, u256_to_be_bytes 55)"
    unfolding verify_storage_proofs_def demo_far_proof_def storage_proof.select_convs e expect_simps rbind_simps
    using v [of 0] v [of 1] v [of 3] b by (simp add: eval)
qed

lemma demo_storage_verified:
  assumes "i < 4"
  shows "storage_verify demo_rollup demo_key_sha (demo_entry i) root = Inr ()"
proof -
  have "length demo_slots = 4" by (simp add: demo_slots_def)
  then have "demo_slots ! i \<in> set demo_slots" using assms by simp
  then show ?thesis
    by (auto simp: storage_verify_def demo_rollup_def demo_entry_def nth_checked_def expect_def ensure_def list_ex_iff
        intro!: bexI [of _ "demo_slots ! i"] split: prod.splits)
qed

lemma demo_storage_accepted:
  "verify_storage_proofs demo_rollup demo_key_sha demo_storage_proof root =
     Inr (u256_to_be_bytes 77, 1, u256_to_be_bytes 99)"
  "verify_storage_proofs demo_rollup demo_key_sha demo_far_proof root =
     Inr (u256_to_be_bytes 77, 1, u256_to_be_bytes 55)"
  using demo_storage_eval [of demo_rollup demo_key_sha root] demo_storage_verified [of _ root]
  by (simp_all add: demo_rollup_def [THEN arg_cong, of keccak256])

lemma unat_u32_to_u256: "unat (ucast (w :: u32) :: u256) = unat w"
proof -
  have "unat w < 2 ^ 256" using unat_u32_less [of w] by (rule less_trans) simp
  then show ?thesis by (simp add: unsigned_ucast_eq take_bit_eq_mod)
qed

section \<open>Indices that differ by half the range\<close>

lemma outpoint_slots_wrap: "utxo_slot S (i + 0x80000000) = utxo_slot S i" "vout_slot S (i + 0x80000000) = vout_slot S i"
proof -
  have "(i + 0x80000000) * 2 = i * (2 :: u32)" by (simp add: distrib_right)
  then show "utxo_slot S (i + 0x80000000) = utxo_slot S i" "vout_slot S (i + 0x80000000) = vout_slot S i"
    by (simp_all only: utxo_slot_def vout_slot_def)
qed

lemma deposit_slot_wrap: "deposit_slot S (i + 0x80000000) \<noteq> deposit_slot S i"
proof -
  have "ucast (i + 0x80000000) \<noteq> (ucast i :: u256)"
  proof
    assume "ucast (i + 0x80000000) = (ucast i :: u256)"
    then have "unat (ucast (i + 0x80000000) :: u256) = unat (ucast i :: u256)" by simp
    then have "unat (i + 0x80000000) = unat i" by (simp only: unat_u32_to_u256)
    then have "i + 0x80000000 = i" by (simp only: word_unat_eq_iff)
    then show False by simp
  qed
  then show ?thesis unfolding deposit_slot_def by (metis add_left_imp_eq u256_from_to_be_bytes)
qed

section \<open>Properties\<close>

text \<open>
  C30. Accepted storage proofs read the contract. If the sparse Merkle tree proves only values the
  state root commits to, the returned outpoint, output index and move transaction id are the values
  of the three slots that belong to the index of the proof; in particular two accepted proofs with
  the same root and index return the same result.
\<close>

theorem verified_storage_slots:
  assumes "verify_storage_proofs S sha sproof root = Inr (txid, vout, move_txid)" "jmt_sound S sha root slots"
  shows "\<exists>u v d. slots (utxo_slot S (storage_index sproof)) = Some u \<and> txid = u256_to_be_bytes u \<and>
     slots (vout_slot S (storage_index sproof)) = Some v \<and> vout = u32_from_le_bytes (drop 28 (u256_to_be_bytes v)) \<and>
     slots (deposit_slot S (storage_index sproof)) = Some d \<and> move_txid = u256_to_be_bytes d"
  using assms by (rule verify_storage_proofs_slots)

theorem verified_storage_slots_witness:
  "\<exists>u v d. map_of demo_slots (utxo_slot demo_rollup 1) = Some u \<and> u256_to_be_bytes 77 = u256_to_be_bytes u \<and>
     map_of demo_slots (vout_slot demo_rollup 1) = Some v \<and> 1 = u32_from_le_bytes (drop 28 (u256_to_be_bytes v)) \<and>
     map_of demo_slots (deposit_slot demo_rollup 1) = Some d \<and> u256_to_be_bytes 99 = u256_to_be_bytes d"
  using verified_storage_slots [OF demo_storage_accepted(1) demo_jmt_sound]
  by (simp add: demo_storage_proof_def)

text \<open>
  C31. Doubling the index wraps. The index of a withdrawal is doubled as a 32-bit number, but used as
  it is for the deposit. So accepted storage proofs for an index and for the index plus \<open>2 ^ 31\<close>
  under the same root return the same outpoint, with the values of two different deposit slots as
  the move transaction ids.
\<close>

theorem storage_index_wraps:
  assumes "verify_storage_proofs S sha sproof root = Inr (txid, vout, move_txid)"
    and "verify_storage_proofs S sha sproof' root = Inr (txid', vout', move_txid')"
    and "storage_index sproof' = storage_index sproof + 0x80000000" "jmt_sound S sha root slots"
  shows "txid' = txid \<and> vout' = vout \<and>
     deposit_slot S (storage_index sproof') \<noteq> deposit_slot S (storage_index sproof) \<and>
     map_option u256_to_be_bytes (slots (deposit_slot S (storage_index sproof))) = Some move_txid \<and>
     map_option u256_to_be_bytes (slots (deposit_slot S (storage_index sproof'))) = Some move_txid'"
proof -
  define i where "i = storage_index sproof"
  have i': "storage_index sproof' = i + 0x80000000" using assms(3) by (simp add: i_def)
  note same = outpoint_slots_wrap [of S i, folded i']
  obtain u v d where r: "slots (utxo_slot S i) = Some u" "txid = u256_to_be_bytes u" "slots (vout_slot S i) = Some v"
      "vout = u32_from_le_bytes (drop 28 (u256_to_be_bytes v))" "slots (deposit_slot S i) = Some d" "move_txid = u256_to_be_bytes d"
    using verify_storage_proofs_slots [OF assms(1,4)] unfolding i_def by blast
  obtain u' v' d' where r': "slots (utxo_slot S i) = Some u'" "txid' = u256_to_be_bytes u'" "slots (vout_slot S i) = Some v'"
      "vout' = u32_from_le_bytes (drop 28 (u256_to_be_bytes v'))" "slots (deposit_slot S (storage_index sproof')) = Some d'"
      "move_txid' = u256_to_be_bytes d'"
    using verify_storage_proofs_slots [OF assms(2,4)] unfolding same by blast
  show ?thesis using r r' deposit_slot_wrap [of S i, folded i'] by (simp add: i_def)
qed

theorem storage_index_wraps_witness:
  "\<exists>txid vout move_txid move_txid'.
     verify_storage_proofs demo_rollup demo_key_sha demo_storage_proof [] = Inr (txid, vout, move_txid) \<and>
     verify_storage_proofs demo_rollup demo_key_sha demo_far_proof [] = Inr (txid, vout, move_txid') \<and>
     deposit_slot demo_rollup 0x80000001 \<noteq> deposit_slot demo_rollup 1"
proof -
  have "storage_index demo_far_proof = storage_index demo_storage_proof + 0x80000000"
    by (simp add: demo_far_proof_def demo_storage_proof_def)
  from storage_index_wraps [OF demo_storage_accepted this demo_jmt_sound] demo_storage_accepted
  show ?thesis by (auto simp: demo_far_proof_def demo_storage_proof_def)
qed

end
