(* ===== verification/Watchtowers.thy ===== *)
theory Watchtowers
  imports Storage_Proof
begin

text \<open>
  The watchtower challenges of the bridge circuit (\<open>verify_watchtower_challenges\<close> and
  \<open>total_work_and_watchtower_flags\<close> of \<open>src/circuits-lib/src/bridge_circuit/mod.rs\<close>): the checks on
  every challenge, the bitmap of the challengers and the largest verified work.
\<close>

unbundle bit_operations_syntax

section \<open>Challenges\<close>

definition challenge_signature ::
  "sighash_api \<Rightarrow> watchtower_input \<Rightarrow> (tap_sighash_type \<times> bytes) result" where
  "challenge_signature A w =
     rbind (ensure (length (watchtower_challenge_witness w) = 1)
              (Panic ''Invalid witness length, expected 1 element'')) (\<lambda>_.
     rbind (nth_checked (watchtower_challenge_witness w) 0) (\<lambda>signature.
     if length signature = 64 then Inr (SighashDefault, take 64 signature)
     else if length signature = 65 then
       (case from_consensus_u8 A (signature ! 64) of
          Some sighash_type \<Rightarrow> Inr (sighash_type, take 64 signature)
        | None \<Rightarrow> Inl (Panic ''Invalid sighash type''))
     else Inl (Panic ''Invalid witness length, expected 64 or 65 bytes'')))"

definition checked_mul_u32 :: "u32 \<Rightarrow> u32 \<Rightarrow> u32 option" where
  "checked_mul_u32 a b = (if unat a * unat b < 2 ^ 32 then Some (a * b) else None)"

definition checked_add_u32 :: "u32 \<Rightarrow> u32 \<Rightarrow> u32 option" where
  "checked_add_u32 a b = (if unat a + unat b < 2 ^ 32 then Some (a + b) else None)"

definition challenge_vout :: "u32 \<Rightarrow> u32 \<Rightarrow> u32 result" where
  "challenge_vout idx start_idx =
     expect (Option.bind (checked_mul_u32 idx 2) (\<lambda>x. checked_add_u32 x start_idx))
       (Panic ''Overflow occurred while calculating vout'')"

definition set_challenge_flag :: "u32 \<Rightarrow> bytes \<Rightarrow> bytes result" where
  "set_challenge_flag idx flags =
     rbind (nth_checked flags (unat idx div 8)) (\<lambda>b.
     Inr (flags[unat idx div 8 := b OR push_bit (unat (idx mod 8)) 1]))"

definition verify_challenge ::
  "sighash_api \<Rightarrow> hasher \<Rightarrow> hasher \<Rightarrow> bitcoin_api \<Rightarrow> bridge_circuit_input \<Rightarrow> watchtower_input \<Rightarrow>
   watchtower_challenge_set \<Rightarrow> watchtower_challenge_set result" where
  "verify_challenge A sha tap_hash N input w st =
     (let kickoff_txid = compute_txid N (kickoff_tx input);
          inner_txouts = watchtower_challenge_utxos w;
          input_idx = unat (watchtower_challenge_input_idx w) in
      rbind (ensure (input_idx < length (tx_input (watchtower_challenge_tx w)))
               (Panic ''Invalid watchtower challenge input index'')) (\<lambda>_.
      rbind (nth_checked (tx_input (watchtower_challenge_tx w)) input_idx) (\<lambda>txin.
      rbind (challenge_signature A w) (\<lambda>(sighash_type, sig_bytes).
      rbind (sighash A sha tap_hash (watchtower_challenge_tx w) (PrevoutsAll inner_txouts) input_idx sighash_type
               (annex_digest w)) (\<lambda>hash.
      rbind (ensure (op_txid (previous_output txin) = kickoff_txid)
               (Panic ''Invalid input: expected input to reference an output from the kickoff transaction'')) (\<lambda>_.
      rbind (ensure (input_idx < length inner_txouts) (Panic ''Invalid watchtower challenge input index'')) (\<lambda>_.
      rbind (nth_checked inner_txouts input_idx) (\<lambda>output.
      rbind (ensure (is_p2tr N (script_pubkey output)) (Panic ''Invalid output script type - kickoff'')) (\<lambda>_.
      rbind (ensure (unat (watchtower_idx w) < length (all_tweaked_watchtower_pubkeys input))
               (Panic ''Invalid watchtower index'')) (\<lambda>_.
      rbind (slice 2 34 (script_pubkey output)) (\<lambda>pubkey.
      rbind (nth_checked (all_tweaked_watchtower_pubkeys input) (unat (watchtower_idx w))) (\<lambda>expected.
      rbind (ensure (expected = pubkey) (Panic ''Invalid watchtower public key'')) (\<lambda>_.
      rbind (challenge_vout (watchtower_idx w) (watchtower_challenge_connector_start_idx input)) (\<lambda>vout.
      rbind (ensure (vout = op_vout (previous_output txin)) (Panic ''Invalid output index'')) (\<lambda>_.
      rbind (ensure (verifying_key_ok N pubkey) (Panic ''Invalid verifying key'')) (\<lambda>_.
      rbind (ensure (signature_ok N sig_bytes) (Panic ''Invalid signature'')) (\<lambda>_.
      rbind (ensure (verify_prehash N pubkey hash sig_bytes)
               (Panic ''Invalid signature for watchtower challenge'')) (\<lambda>_.
      rbind (set_challenge_flag (watchtower_idx w) (challenge_senders st)) (\<lambda>flags.
      Inr \<lparr>challenge_senders = flags,
           challenge_outputs = challenge_outputs st @ [tx_output (watchtower_challenge_tx w)]\<rparr>)))))))))))))))))))"

definition verify_watchtower_challenges ::
  "sighash_api \<Rightarrow> hasher \<Rightarrow> hasher \<Rightarrow> bitcoin_api \<Rightarrow> bridge_circuit_input \<Rightarrow> watchtower_challenge_set result" where
  "verify_watchtower_challenges A sha tap_hash N input =
     rbind (ensure (length (watchtower_inputs input) \<le> MAX_NUMBER_OF_WATCHTOWERS)
              (Panic ''Invalid number of watchtower challenge transactions'')) (\<lambda>_.
     rfold (verify_challenge A sha tap_hash N input) (watchtower_inputs input)
       \<lparr>challenge_senders = replicate 20 0, challenge_outputs = []\<rparr>)"

section \<open>The largest verified work\<close>

definition OP_RETURN :: u8 where
  "OP_RETURN = 0x6A"

definition parse_op_return_data :: "bitcoin_api \<Rightarrow> bytes \<Rightarrow> bytes option" where
  "parse_op_return_data N script =
     (case instructions N script of
        Inr (InstructionOp op) # Inr (InstructionPushBytes data) # _ \<Rightarrow> if op = OP_RETURN then Some data else None
      | _ \<Rightarrow> None)"

definition single_output_commitment :: "bitcoin_api \<Rightarrow> tx_out \<Rightarrow> watch_tower_challenge_tx_commitment option result" where
  "single_output_commitment N out =
     (case Option.bind (parse_op_return_data N (script_pubkey out)) (try_array 144) of
        None \<Rightarrow> Inr None
      | Some whole_output \<Rightarrow>
          rbind (slice 0 128 whole_output) (\<lambda>g16.
          rbind (slice 128 144 whole_output) (\<lambda>work.
          Inr (Some \<lparr>compressed_g16_proof = g16, commitment_total_work = work\<rparr>))))"

definition p2tr_program :: "tx_out \<Rightarrow> bytes result" where
  "p2tr_program out =
     rbind (slice 2 (length (script_pubkey out)) (script_pubkey out)) (\<lambda>program.
     expect (try_array 32 program) (Panic ''Cannot fail: slicing 32 bytes from P2TR output''))"

definition three_outputs_commitment ::
  "bitcoin_api \<Rightarrow> tx_out \<Rightarrow> tx_out \<Rightarrow> tx_out \<Rightarrow> watch_tower_challenge_tx_commitment option result" where
  "three_outputs_commitment N out1 out2 out3 =
     rbind (p2tr_program out1) (\<lambda>first_output.
     rbind (p2tr_program out2) (\<lambda>second_output.
     case Option.bind (parse_op_return_data N (script_pubkey out3)) (try_array 80) of
       None \<Rightarrow> Inr None
     | Some third_output \<Rightarrow>
         rbind (slice 0 64 third_output) (\<lambda>third_part.
         rbind (expect (try_array 128 (first_output @ second_output @ third_part))
                  (Panic ''Cannot fail: concatenating and converting to 128-byte array'')) (\<lambda>g16.
         rbind (slice 64 (length third_output) third_output) (\<lambda>rest.
         rbind (expect (try_array 16 rest) (Panic ''Cannot fail: deserializing 16 bytes from 16-byte slice'')) (\<lambda>work.
         Inr (Some \<lparr>compressed_g16_proof = g16, commitment_total_work = work\<rparr>)))))))"

definition challenge_commitment :: "bitcoin_api \<Rightarrow> tx_out list \<Rightarrow> watch_tower_challenge_tx_commitment option result" where
  "challenge_commitment N outputs =
     (case outputs of
        [] \<Rightarrow> Inr None
      | op_return_output # _ \<Rightarrow>
          if is_op_return N (script_pubkey op_return_output) then single_output_commitment N op_return_output
          else (case outputs of
                  out1 # out2 # out3 # _ \<Rightarrow>
                    if is_p2tr N (script_pubkey out1) \<and> is_p2tr N (script_pubkey out2) \<and> is_op_return N (script_pubkey out3)
                    then three_outputs_commitment N out1 out2 out3 else Inr None
                | _ \<Rightarrow> Inr None))"

text \<open>The order of byte arrays is lexicographic; the sort is stable and descending.\<close>

fun bytes_less :: "bytes \<Rightarrow> bytes \<Rightarrow> bool" where
  "bytes_less (x # xs) (y # ys) = (x < y \<or> x = y \<and> bytes_less xs ys)"
| "bytes_less [] (y # ys) = True"
| "bytes_less _ [] = False"

fun insert_by_work :: "watch_tower_challenge_tx_commitment \<Rightarrow> watch_tower_challenge_tx_commitment list \<Rightarrow>
  watch_tower_challenge_tx_commitment list" where
  "insert_by_work c [] = [c]"
| "insert_by_work c (d # ds) =
     (if bytes_less (commitment_total_work c) (commitment_total_work d) then d # insert_by_work c ds else c # d # ds)"

definition sort_by_work :: "watch_tower_challenge_tx_commitment list \<Rightarrow> watch_tower_challenge_tx_commitment list" where
  "sort_by_work cs = foldr insert_by_work cs []"

fun first_verified_work ::
  "(watch_tower_challenge_tx_commitment \<Rightarrow> bool result) \<Rightarrow> watch_tower_challenge_tx_commitment list \<Rightarrow> bytes result" where
  "first_verified_work check [] = Inr (replicate 16 0)"
| "first_verified_work check (c # cs) =
     rbind (check c) (\<lambda>ok. if ok then Inr (commitment_total_work c) else first_verified_work check cs)"

definition check_commitment ::
  "('g1, 'g2, 'fq, 'fq2, 'fr, 'vk) groth16_api \<Rightarrow> hasher \<Rightarrow> bytes \<Rightarrow> bytes \<Rightarrow>
   watch_tower_challenge_tx_commitment \<Rightarrow> bool result" where
  "check_commitment G sha work_only_image_id genesis c =
     convert_to_groth16_and_verify G sha (compressed_g16_proof c) (commitment_total_work c) work_only_image_id genesis"

definition challenge_commitments ::
  "bitcoin_api \<Rightarrow> tx_out list list \<Rightarrow> watch_tower_challenge_tx_commitment list result" where
  "challenge_commitments N outputs =
     rbind (rmap (challenge_commitment N) outputs) (\<lambda>cs. Inr (concat (map (\<lambda>c. case c of Some x \<Rightarrow> [x] | None \<Rightarrow> []) cs)))"

definition total_work_and_watchtower_flags ::
  "('g1, 'g2, 'fq, 'fq2, 'fr, 'vk) groth16_api \<Rightarrow> sighash_api \<Rightarrow> hasher \<Rightarrow> hasher \<Rightarrow> bitcoin_api \<Rightarrow>
   bridge_circuit_input \<Rightarrow> bytes \<Rightarrow> (bytes \<times> bytes) result" where
  "total_work_and_watchtower_flags G A sha tap_hash N input work_only_image_id =
     rbind (verify_watchtower_challenges A sha tap_hash N input) (\<lambda>challenges.
     rbind (challenge_commitments N (challenge_outputs challenges)) (\<lambda>commitments.
     rbind (first_verified_work (check_commitment G sha work_only_image_id (genesis_state_hash (hcp input)))
              (sort_by_work commitments)) (\<lambda>work.
     Inr (work, challenge_senders challenges))))"

section \<open>Byte order and numbers\<close>

lemma bytes_less_be_nat: "length xs = length ys \<Longrightarrow> bytes_less xs ys \<longleftrightarrow> be_nat xs < be_nat ys"
proof (induction xs ys rule: bytes_less.induct)
  case (1 x xs y ys)
  have len: "length xs = length ys" using 1(2) by simp
  have b: "be_nat xs < 256 ^ length ys" "be_nat ys < 256 ^ length ys"
    using be_nat_less [of xs] be_nat_less [of ys] len by simp_all
  show ?case
  proof (cases "x = y")
    case True
    then show ?thesis using 1(1) len by (simp add: be_nat_Cons)
  next
    case False
    have less: "a * k + p < c * k + q" if "a < c" "p < k" for a c k p q :: nat
    proof -
      have "a * k + p < (a + 1) * k" using that by simp
      also have "\<dots> \<le> c * k" using that by (intro mult_le_mono1) simp
      finally show ?thesis by simp
    qed
    show ?thesis
    proof (cases "unat x < unat y")
      case True
      then show ?thesis using less [OF True b(1)] False len by (simp add: be_nat_Cons word_less_nat_alt)
    next
      case F: False
      with False have "unat y < unat x" by (simp add: word_unat_eq_iff)
      then show ?thesis using less [OF _ b(2), of "unat y" "unat x" "be_nat xs"] False F len
        by (simp add: be_nat_Cons word_less_nat_alt)
    qed
  qed
qed simp_all

text \<open>Sorting keeps the commitments and puts larger works first.\<close>

definition works_desc :: "watch_tower_challenge_tx_commitment list \<Rightarrow> bool" where
  "works_desc cs \<longleftrightarrow> sorted_wrt (\<lambda>c d. be_nat (commitment_total_work d) \<le> be_nat (commitment_total_work c)) cs"

definition wf_commitment :: "watch_tower_challenge_tx_commitment \<Rightarrow> bool" where
  "wf_commitment c \<longleftrightarrow> length (compressed_g16_proof c) = 128 \<and> length (commitment_total_work c) = 16"

lemma set_insert_by_work [simp]: "set (insert_by_work c cs) = insert c (set cs)"
  by (induction cs) auto

lemma insert_by_work_desc:
  "works_desc cs \<Longrightarrow> \<forall>d \<in> set (c # cs). wf_commitment d \<Longrightarrow> works_desc (insert_by_work c cs)"
proof (induction cs)
  case Nil
  then show ?case by (simp add: works_desc_def)
next
  case (Cons d ds)
  have less: "bytes_less (commitment_total_work c) (commitment_total_work d) \<longleftrightarrow>
      be_nat (commitment_total_work c) < be_nat (commitment_total_work d)"
    using Cons.prems(2) by (intro bytes_less_be_nat) (simp add: wf_commitment_def)
  from Cons show ?case by (auto simp: works_desc_def less)
qed

lemma sort_by_work_desc:
  "\<forall>c \<in> set cs. wf_commitment c \<Longrightarrow> works_desc (sort_by_work cs) \<and> set (sort_by_work cs) = set cs"
proof (induction cs)
  case Nil
  then show ?case by (simp add: sort_by_work_def works_desc_def)
next
  case (Cons c cs)
  then have "works_desc (foldr insert_by_work cs [])" "set (foldr insert_by_work cs []) = set cs"
    by (simp_all add: sort_by_work_def)
  with Cons.prems show ?case by (simp add: sort_by_work_def insert_by_work_desc)
qed

lemma first_verified_work_max:
  assumes "first_verified_work check cs = Inr work" "works_desc cs"
  shows "(\<forall>c \<in> set cs. check c = Inr True \<longrightarrow> be_nat (commitment_total_work c) \<le> be_nat work) \<and>
    ((\<exists>c \<in> set cs. check c = Inr True \<and> work = commitment_total_work c) \<or>
     work = replicate 16 0 \<and> (\<forall>c \<in> set cs. check c = Inr False))"
  using assms by (induction cs) (auto simp: works_desc_def split: if_splits)

lemma challenge_commitment_wf: "challenge_commitment N outs = Inr (Some c) \<Longrightarrow> wf_commitment c"
  by (auto simp: challenge_commitment_def single_output_commitment_def three_outputs_commitment_def wf_commitment_def
      split: list.splits if_splits option.splits)

lemma challenge_commitments_set:
  assumes "challenge_commitments N outs = Inr cs"
  shows "set cs = {c. \<exists>txo \<in> set outs. challenge_commitment N txo = Inr (Some c)}"
proof -
  obtain ds where ds: "rmap (challenge_commitment N) outs = Inr ds"
    and cs: "cs = concat (map (\<lambda>c. case c of Some x \<Rightarrow> [x] | None \<Rightarrow> []) ds)"
    using assms by (auto simp: challenge_commitments_def)
  have "set ds = {d. \<exists>txo \<in> set outs. challenge_commitment N txo = Inr d}"
    using ds by (induction outs arbitrary: ds) auto
  then show ?thesis by (auto simp: cs split: option.splits)
qed

section \<open>Accepted challenges\<close>

text \<open>
  What a challenge must satisfy, in terms of the transactions: it spends the output of the kickoff
  that belongs to the watchtower, this output pays to the registered key, and the only witness
  element is a signature of the transaction under this key.
\<close>

definition valid_challenge ::
  "sighash_api \<Rightarrow> hasher \<Rightarrow> hasher \<Rightarrow> bitcoin_api \<Rightarrow> bridge_circuit_input \<Rightarrow> watchtower_input \<Rightarrow> bool" where
  "valid_challenge A sha tap_hash N input w \<longleftrightarrow>
     (let k = unat (watchtower_challenge_input_idx w); i = unat (watchtower_idx w);
          tx = watchtower_challenge_tx w; utxos = watchtower_challenge_utxos w;
          key = take 32 (drop 2 (script_pubkey (utxos ! k))) in
      i < MAX_NUMBER_OF_WATCHTOWERS \<and> k < length (tx_input tx) \<and> k < length utxos \<and>
      op_txid (previous_output (tx_input tx ! k)) = compute_txid N (kickoff_tx input) \<and>
      unat (op_vout (previous_output (tx_input tx ! k))) =
        2 * i + unat (watchtower_challenge_connector_start_idx input) \<and>
      is_p2tr N (script_pubkey (utxos ! k)) \<and> 34 \<le> length (script_pubkey (utxos ! k)) \<and>
      i < length (all_tweaked_watchtower_pubkeys input) \<and> all_tweaked_watchtower_pubkeys input ! i = key \<and>
      (\<exists>sighash_type sig hash. challenge_signature A w = Inr (sighash_type, sig) \<and>
         sighash A sha tap_hash tx (PrevoutsAll utxos) k sighash_type (annex_digest w) = Inr hash \<and>
         verifying_key_ok N key \<and> signature_ok N sig \<and> verify_prehash N key hash sig))"

lemma challenge_vout_Inr:
  "challenge_vout idx start = Inr v \<longleftrightarrow> unat v = 2 * unat idx + unat start"
proof -
  have m: "unat (idx * 2) = unat idx * 2" if "unat idx * 2 < 2 ^ 32"
    using that by (simp add: unat_word_ariths)
  have a: "unat (idx * 2 + start) = unat idx * 2 + unat start" if "unat idx * 2 + unat start < 2 ^ 32"
    using that by (simp add: unat_word_ariths)
  show ?thesis
  proof (cases "unat idx * 2 + unat start < 2 ^ 32")
    case True
    then have "challenge_vout idx start = Inr (idx * 2 + start)"
      using m by (simp add: challenge_vout_def checked_mul_u32_def checked_add_u32_def expect_def)
    then show ?thesis using a [OF True] by (auto simp: word_unat_eq_iff)
  next
    case False
    have "unat v < 2 ^ 32" using unat_u32_less [of v] by simp
    moreover have "challenge_vout idx start = Inl (Panic ''Overflow occurred while calculating vout'')"
      using m False by (auto simp: challenge_vout_def checked_mul_u32_def checked_add_u32_def expect_def)
    ultimately show ?thesis using False by auto
  qed
qed

lemma verify_challenge_Inr:
  assumes "length (challenge_senders st) = 20"
  shows "verify_challenge A sha tap_hash N input w st = Inr st' \<longleftrightarrow>
     valid_challenge A sha tap_hash N input w \<and>
     st' = \<lparr>challenge_senders = (challenge_senders st)[unat (watchtower_idx w) div 8 :=
              challenge_senders st ! (unat (watchtower_idx w) div 8) OR push_bit (unat (watchtower_idx w) mod 8) 1],
            challenge_outputs = challenge_outputs st @ [tx_output (watchtower_challenge_tx w)]\<rparr>"
proof -
  have i: "unat (watchtower_idx w) div 8 < 20 \<longleftrightarrow> unat (watchtower_idx w) < MAX_NUMBER_OF_WATCHTOWERS"
    by (auto simp: MAX_NUMBER_OF_WATCHTOWERS_def)
  have m: "unat (watchtower_idx w mod 8) = unat (watchtower_idx w) mod 8" by (simp add: unat_mod)
  show ?thesis
    unfolding verify_challenge_def valid_challenge_def Let_def
    using assms
    by (auto simp: challenge_vout_Inr set_challenge_flag_def i m split: prod.splits)
qed

definition challenge_flag :: "nat \<Rightarrow> bytes \<Rightarrow> bool" where
  "challenge_flag i flags \<longleftrightarrow> bit (flags ! (i div 8)) (i mod 8)"

lemma challenge_flag_set:
  assumes "length flags = 20" "i < 160" "j < 160"
  shows "challenge_flag i (flags[j div 8 := flags ! (j div 8) OR push_bit (j mod 8) 1]) \<longleftrightarrow> challenge_flag i flags \<or> i = j"
proof (cases "i div 8 = j div 8")
  case True
  have "j div 8 < length flags" using assms by simp
  moreover have "bit (push_bit (j mod 8) (1 :: u8)) (i mod 8) \<longleftrightarrow> i mod 8 = j mod 8"
    by (auto simp: bit_exp_iff)
  moreover have "i mod 8 = j mod 8 \<longleftrightarrow> i = j" using True by (metis div_mult_mod_eq)
  ultimately show ?thesis using True by (simp add: challenge_flag_def bit_or_iff)
next
  case False
  then show ?thesis by (auto simp: challenge_flag_def)
qed

lemma verify_challenges_fold:
  assumes "length (challenge_senders st) = 20"
    and "rfold (verify_challenge A sha tap_hash N input) ws st = Inr st'"
  shows "(\<forall>w \<in> set ws. valid_challenge A sha tap_hash N input w) \<and> length (challenge_senders st') = 20 \<and>
     challenge_outputs st' = challenge_outputs st @ map (\<lambda>w. tx_output (watchtower_challenge_tx w)) ws \<and>
     (\<forall>i < 160. challenge_flag i (challenge_senders st') \<longleftrightarrow>
        challenge_flag i (challenge_senders st) \<or> (\<exists>w \<in> set ws. unat (watchtower_idx w) = i))"
  using assms
proof (induction ws arbitrary: st)
  case Nil
  then show ?case by simp
next
  case (Cons w ws)
  from Cons.prems(2) obtain st1 where st1: "verify_challenge A sha tap_hash N input w st = Inr st1"
    and rest: "rfold (verify_challenge A sha tap_hash N input) ws st1 = Inr st'" by auto
  note v = verify_challenge_Inr [OF Cons.prems(1), THEN iffD1, OF st1]
  have len: "length (challenge_senders st1) = 20" using v Cons.prems(1) by simp
  have idx: "unat (watchtower_idx w) < 160"
    using v by (simp add: valid_challenge_def Let_def MAX_NUMBER_OF_WATCHTOWERS_def)
  have flags: "challenge_flag i (challenge_senders st1) \<longleftrightarrow> challenge_flag i (challenge_senders st) \<or> i = unat (watchtower_idx w)"
    if "i < 160" for i using v challenge_flag_set [OF Cons.prems(1) that idx] by simp
  from Cons.IH [OF len rest] v flags show ?case by auto
qed

lemma verify_challenges_fold_complete:
  assumes "length (challenge_senders st) = 20" "\<forall>w \<in> set ws. valid_challenge A sha tap_hash N input w"
  shows "\<exists>st'. rfold (verify_challenge A sha tap_hash N input) ws st = Inr st'"
  using assms
proof (induction ws arbitrary: st)
  case Nil
  then show ?case by simp
next
  case (Cons w ws)
  obtain st1 where st1: "verify_challenge A sha tap_hash N input w st = Inr st1"
    using verify_challenge_Inr [OF Cons.prems(1), of A sha tap_hash N input w] Cons.prems(2) by auto
  have "length (challenge_senders st1) = 20"
    using verify_challenge_Inr [OF Cons.prems(1), THEN iffD1, OF st1] Cons.prems(1) by simp
  with Cons.IH [of st1] Cons.prems(2) st1 show ?case by simp
qed

lemma challenge_flag_zero: "i < 160 \<Longrightarrow> \<not> challenge_flag i (replicate 20 0)"
  by (simp add: challenge_flag_def)

lemma verify_watchtower_challenges_iff:
  "(\<exists>challenges. verify_watchtower_challenges A sha tap_hash N input = Inr challenges) \<longleftrightarrow>
     length (watchtower_inputs input) \<le> MAX_NUMBER_OF_WATCHTOWERS \<and>
     (\<forall>w \<in> set (watchtower_inputs input). valid_challenge A sha tap_hash N input w)"
  using verify_challenges_fold_complete [of "\<lparr>challenge_senders = replicate 20 0, challenge_outputs = []\<rparr>"]
    verify_challenges_fold [of "\<lparr>challenge_senders = replicate 20 0, challenge_outputs = []\<rparr>"]
  by (fastforce simp: verify_watchtower_challenges_def)

lemma verify_watchtower_challenges_Inr:
  assumes "verify_watchtower_challenges A sha tap_hash N input = Inr challenges"
  shows "length (challenge_senders challenges) = 20"
    and "challenge_outputs challenges = map (\<lambda>w. tx_output (watchtower_challenge_tx w)) (watchtower_inputs input)"
    and "i < 160 \<Longrightarrow> challenge_flag i (challenge_senders challenges) \<longleftrightarrow>
           (\<exists>w \<in> set (watchtower_inputs input). unat (watchtower_idx w) = i)"
proof -
  have "rfold (verify_challenge A sha tap_hash N input) (watchtower_inputs input)
     \<lparr>challenge_senders = replicate 20 0, challenge_outputs = []\<rparr> = Inr challenges"
    using assms by (simp add: verify_watchtower_challenges_def)
  from verify_challenges_fold [OF _ this] challenge_flag_zero
  show "length (challenge_senders challenges) = 20"
    "challenge_outputs challenges = map (\<lambda>w. tx_output (watchtower_challenge_tx w)) (watchtower_inputs input)"
    "i < 160 \<Longrightarrow> challenge_flag i (challenge_senders challenges) \<longleftrightarrow>
       (\<exists>w \<in> set (watchtower_inputs input). unat (watchtower_idx w) = i)" by auto
qed

lemma total_work_max:
  assumes "total_work_and_watchtower_flags G A sha tap_hash N input image_id = Inr (work, flags)"
  defines "check \<equiv> check_commitment G sha image_id (genesis_state_hash (hcp input))"
  defines "cs \<equiv> {c. \<exists>w \<in> set (watchtower_inputs input). challenge_commitment N (tx_output (watchtower_challenge_tx w)) = Inr (Some c)}"
  shows "length work = 16 \<and>
     (\<forall>c \<in> cs. check c = Inr True \<longrightarrow> be_nat (commitment_total_work c) \<le> be_nat work) \<and>
     ((\<exists>c \<in> cs. check c = Inr True \<and> work = commitment_total_work c) \<or>
      work = replicate 16 0 \<and> (\<forall>c \<in> cs. check c = Inr False))"
proof -
  obtain ch commitments where ch: "verify_watchtower_challenges A sha tap_hash N input = Inr ch"
    and com: "challenge_commitments N (challenge_outputs ch) = Inr commitments"
    and first: "first_verified_work check (sort_by_work commitments) = Inr work"
    using assms(1) by (auto simp: total_work_and_watchtower_flags_def check_def)
  have set: "set commitments = cs"
    using challenge_commitments_set [OF com] verify_watchtower_challenges_Inr(2) [OF ch] by (auto simp: cs_def)
  have wf: "\<forall>c \<in> set commitments. wf_commitment c"
    unfolding set cs_def using challenge_commitment_wf by blast
  from sort_by_work_desc [OF wf] first_verified_work_max [OF first] set
  have *: "(\<forall>c \<in> cs. check c = Inr True \<longrightarrow> be_nat (commitment_total_work c) \<le> be_nat work) \<and>
     ((\<exists>c \<in> cs. check c = Inr True \<and> work = commitment_total_work c) \<or>
      work = replicate 16 0 \<and> (\<forall>c \<in> cs. check c = Inr False))" by simp
  moreover from * wf have "length work = 16" unfolding set wf_commitment_def by auto
  ultimately show ?thesis by blast
qed

section \<open>Challenges built from the chain\<close>

text \<open>The checks that remain for an input that \<open>from_txs\<close> built.\<close>

lemma from_txs_valid_challenge:
  assumes built: "from_txs N sha (compute_txid N (kickoff_tx input)) tx prevs
      (watchtower_challenge_connector_start_idx input) = Inr w" and len: "length (tx_input tx) < 4294967296"
  defines "k \<equiv> unat (watchtower_challenge_input_idx w)" and "i \<equiv> unat (watchtower_idx w)"
  defines "key \<equiv> take 32 (drop 2 (script_pubkey (watchtower_challenge_utxos w ! k)))"
  shows "valid_challenge A sha tap_hash N input w \<longleftrightarrow>
     even (unat (op_vout (previous_output (tx_input tx ! k))) - unat (watchtower_challenge_connector_start_idx input)) \<and>
     is_p2tr N (script_pubkey (watchtower_challenge_utxos w ! k)) \<and>
     34 \<le> length (script_pubkey (watchtower_challenge_utxos w ! k)) \<and>
     i < length (all_tweaked_watchtower_pubkeys input) \<and> all_tweaked_watchtower_pubkeys input ! i = key \<and>
     (\<exists>sighash_type sig hash. challenge_signature A w = Inr (sighash_type, sig) \<and>
        sighash A sha tap_hash (watchtower_challenge_tx w) (PrevoutsAll (watchtower_challenge_utxos w)) k sighash_type
          (annex_digest w) = Inr hash \<and>
        verifying_key_ok N key \<and> signature_ok N sig \<and> verify_prehash N key hash sig)"
proof -
  from from_txs_Inr [OF built len] obtain j where j: "j < length (tx_input tx)"
    "op_txid (previous_output (tx_input tx ! j)) = compute_txid N (kickoff_tx input)" "k = j"
    "unat (watchtower_challenge_connector_start_idx input) \<le> unat (op_vout (previous_output (tx_input tx ! j)))"
    "i = (unat (op_vout (previous_output (tx_input tx ! j))) - unat (watchtower_challenge_connector_start_idx input)) div 2"
    "i < MAX_NUMBER_OF_WATCHTOWERS" "rmap (spent_output N prevs) (tx_input tx) = Inr (watchtower_challenge_utxos w)"
    "watchtower_challenge_tx w = tx\<lparr>tx_input := map (\<lambda>i. i\<lparr>witness := []\<rparr>) (tx_input tx)\<rparr>"
    unfolding k_def i_def by metis
  have idx: "unat (op_vout (previous_output (tx_input tx ! k))) = 2 * i + unat (watchtower_challenge_connector_start_idx input) \<longleftrightarrow>
      even (unat (op_vout (previous_output (tx_input tx ! k))) - unat (watchtower_challenge_connector_start_idx input))"
    using j(3,4,5) by presburger
  have ins: "k < length (tx_input (watchtower_challenge_tx w))" "k < length (watchtower_challenge_utxos w)"
      "previous_output (tx_input (watchtower_challenge_tx w) ! k) = previous_output (tx_input tx ! k)"
    using j rmap_eq_Inr_length [OF j(7)] by simp_all
  show ?thesis
    unfolding valid_challenge_def Let_def k_def [symmetric] i_def [symmetric] key_def [symmetric] ins(3) idx
    using ins j(2,3,6) by blast
qed

section \<open>A concrete challenge\<close>

definition demo_bitcoin :: bitcoin_api where
  "demo_bitcoin =
     \<lparr>compute_txid = (\<lambda>tx. replicate 32 (ucast (tx_version tx))),
      is_p2tr = (\<lambda>s. length s = 34 \<and> take 2 s = [0x51, 0x20]),
      is_op_return = (\<lambda>s. s \<noteq> [] \<and> hd s = OP_RETURN),
      instructions = (\<lambda>s. case s of [] \<Rightarrow> [] | b # r \<Rightarrow> [Inr (InstructionOp b), Inr (InstructionPushBytes (drop 1 r))]),
      annex_new = Some, annex_encode = Some, verifying_key_ok = (\<lambda>_. True), signature_ok = (\<lambda>_. True),
      verify_prehash = (\<lambda>_ _ s. s = replicate 64 7)\<rparr>"

definition demo_kickoff :: transaction where
  "demo_kickoff = \<lparr>tx_version = 1, lock_time = 0,
     tx_input = [\<lparr>previous_output = \<lparr>op_txid = replicate 32 9, op_vout = 4\<rparr>, script_sig = [], sequence = 0, witness = []\<rparr>],
     tx_output = replicate 6 \<lparr>txo_value = 330, script_pubkey = 0x51 # 0x20 # replicate 32 6\<rparr>\<rparr>"

definition demo_challenge_tx :: transaction where
  "demo_challenge_tx = \<lparr>tx_version = 3, lock_time = 0,
     tx_input = [\<lparr>previous_output = \<lparr>op_txid = replicate 32 1, op_vout = 5\<rparr>, script_sig = [], sequence = 0,
                  witness = [replicate 64 7]\<rparr>],
     tx_output = [\<lparr>txo_value = 0, script_pubkey = OP_RETURN # 0x90 # replicate 128 0 @ work_u128 demo_work_only\<rparr>]\<rparr>"

definition demo_watchtower_input :: watchtower_input where
  "demo_watchtower_input =
     \<lparr>watchtower_idx = 1, watchtower_challenge_input_idx = 0,
      watchtower_challenge_utxos = [\<lparr>txo_value = 330, script_pubkey = 0x51 # 0x20 # replicate 32 6\<rparr>],
      watchtower_challenge_tx = demo_challenge_tx\<lparr>tx_input := map (\<lambda>i. i\<lparr>witness := []\<rparr>) (tx_input demo_challenge_tx)\<rparr>,
      watchtower_challenge_witness = [replicate 64 7], annex_digest = None\<rparr>"

lemma demo_from_txs:
  "from_txs demo_bitcoin toy_sha (replicate 32 1) demo_challenge_tx [demo_kickoff] 3 = Inr demo_watchtower_input"
  by (simp add: from_txs_def demo_challenge_tx_def demo_watchtower_input_def expect_def ensure_def nth_checked_def
      spent_output_def demo_bitcoin_def demo_kickoff_def MAX_NUMBER_OF_WATCHTOWERS_def challenge_annex_digest_def
      challenge_annex_def)

definition demo_payout :: transaction where
  "demo_payout = (demo_block_tx 2)
     \<lparr>tx_input := [\<lparr>previous_output = \<lparr>op_txid = u256_to_be_bytes 77, op_vout = 1\<rparr>, script_sig = [], sequence = 0, witness = []\<rparr>],
      tx_output := [\<lparr>txo_value = 0, script_pubkey = OP_RETURN # 0x20 # replicate 32 8\<rparr>]\<rparr>"

definition demo_bridge_input :: bridge_circuit_input where
  "demo_bridge_input =
     \<lparr>kickoff_tx = demo_kickoff, all_tweaked_watchtower_pubkeys = [replicate 32 5, replicate 32 6],
      watchtower_inputs = [demo_watchtower_input],
      hcp = \<lparr>hc_method_id = HEADER_CHAIN_METHOD_ID Mainnet, genesis_state_hash = wo_genesis_state_hash demo_work_only,
             hc_chain_state = demo_hc_state\<rparr>,
      payout_spv = demo_spv\<lparr>spv_transaction := demo_payout\<rparr>, payout_input_index = 0,
      lcp = \<lparr>lc_journal = replicate 32 0 @ compute_block_hash toy_sha demo_spv_header\<rparr>,
      sp = demo_storage_proof, watchtower_challenge_connector_start_idx = 3\<rparr>"

lemma demo_valid_challenge: "valid_challenge sighash_spec toy_sha (\<lambda>m. m) demo_bitcoin demo_bridge_input demo_watchtower_input"
  by (simp add: valid_challenge_def demo_bridge_input_def demo_watchtower_input_def demo_challenge_tx_def demo_kickoff_def
      demo_bitcoin_def MAX_NUMBER_OF_WATCHTOWERS_def challenge_signature_def nth_checked_def ensure_def sighash_def
      taproot_encode_signing_data_to_with_annex_digest_def split_anyonecanpay_flag_def check_all_prevouts_def
      unwrap_all_prevouts_def)

lemma demo_commitment:
  "challenge_commitment demo_bitcoin (tx_output (watchtower_challenge_tx demo_watchtower_input)) =
     Inr (Some \<lparr>compressed_g16_proof = replicate 128 0, commitment_total_work = work_u128 demo_work_only\<rparr>)"
  by (simp add: challenge_commitment_def demo_watchtower_input_def demo_challenge_tx_def single_output_commitment_def
      demo_bitcoin_def parse_op_return_data_def try_array_def slice_def demo_work_only_def)

lemma demo_total_work:
  "\<exists>flags. total_work_and_watchtower_flags demo_groth16 sighash_spec toy_sha (\<lambda>m. m) demo_bitcoin demo_bridge_input
     MAINNET_WORK_ONLY_METHOD_ID = Inr (work_u128 demo_work_only, flags)"
proof -
  have ws: "watchtower_inputs demo_bridge_input = [demo_watchtower_input]"
    "genesis_state_hash (hcp demo_bridge_input) = wo_genesis_state_hash demo_work_only"
    by (simp_all add: demo_bridge_input_def)
  then obtain ch where ch: "verify_watchtower_challenges sighash_spec toy_sha (\<lambda>m. m) demo_bitcoin demo_bridge_input = Inr ch"
    using verify_watchtower_challenges_iff [of sighash_spec toy_sha "\<lambda>m. m" demo_bitcoin demo_bridge_input] demo_valid_challenge
    by (auto simp: MAX_NUMBER_OF_WATCHTOWERS_def)
  have outs: "challenge_outputs ch = [tx_output (watchtower_challenge_tx demo_watchtower_input)]"
    using verify_watchtower_challenges_Inr(2) [OF ch] ws by simp
  show ?thesis
    unfolding total_work_and_watchtower_flags_def ch rbind_simps outs ws
    by (simp add: challenge_commitments_def demo_commitment sort_by_work_def check_commitment_def demo_groth16_accepts)
qed

section \<open>Properties\<close>

text \<open>
  C26. The challenge checks accept exactly valid challenges. The loop over the watchtower inputs
  finishes without a panic if and only if there are at most 160 inputs and each is valid; it then
  returns the outputs of the challenges in order and a 20-byte bitmap in which the bit of a
  watchtower is set if and only if one of the inputs is its challenge.
\<close>

theorem watchtower_challenges_exact:
  "(case verify_watchtower_challenges A sha tap_hash N input of
      Inl e \<Rightarrow> \<not> (length (watchtower_inputs input) \<le> MAX_NUMBER_OF_WATCHTOWERS \<and>
                 (\<forall>w \<in> set (watchtower_inputs input). valid_challenge A sha tap_hash N input w))
    | Inr challenges \<Rightarrow>
        length (watchtower_inputs input) \<le> MAX_NUMBER_OF_WATCHTOWERS \<and>
        (\<forall>w \<in> set (watchtower_inputs input). valid_challenge A sha tap_hash N input w) \<and>
        length (challenge_senders challenges) = 20 \<and>
        challenge_outputs challenges = map (\<lambda>w. tx_output (watchtower_challenge_tx w)) (watchtower_inputs input) \<and>
        (\<forall>i < 160. challenge_flag i (challenge_senders challenges) \<longleftrightarrow>
           (\<exists>w \<in> set (watchtower_inputs input). unat (watchtower_idx w) = i)))"
  using verify_watchtower_challenges_iff [of A sha tap_hash N input]
  by (cases "verify_watchtower_challenges A sha tap_hash N input")
    (auto simp: verify_watchtower_challenges_Inr)

theorem watchtower_challenges_exact_witness:
  "\<exists>(challenges :: watchtower_challenge_set).
     verify_watchtower_challenges sighash_spec toy_sha (\<lambda>m. m) demo_bitcoin demo_bridge_input = Inr challenges \<and>
     challenge_flag 1 (challenge_senders challenges) \<and> \<not> challenge_flag 0 (challenge_senders challenges)"
proof -
  have "watchtower_inputs demo_bridge_input = [demo_watchtower_input]" "unat (watchtower_idx demo_watchtower_input) = 1"
    by (simp_all add: demo_bridge_input_def demo_watchtower_input_def)
  then show ?thesis
    using watchtower_challenges_exact [where A = sighash_spec and sha = toy_sha and tap_hash = "\<lambda>m. m" and N = demo_bitcoin
        and input = demo_bridge_input] demo_valid_challenge
    by (auto simp: MAX_NUMBER_OF_WATCHTOWERS_def split: sum.splits)
qed

text \<open>
  C27. The largest verified work is selected. When the work and the flags are computed, every
  challenge whose outputs carry a commitment with an accepted Groth16 proof claims at most the
  returned work, and the returned work is that of such a challenge, or zero if there is none.
\<close>

theorem max_verified_work:
  assumes "total_work_and_watchtower_flags G A sha tap_hash N input image_id = Inr (work, flags)"
  defines "check \<equiv> check_commitment G sha image_id (genesis_state_hash (hcp input))"
  defines "cs \<equiv> {c. \<exists>w \<in> set (watchtower_inputs input). challenge_commitment N (tx_output (watchtower_challenge_tx w)) = Inr (Some c)}"
  shows "length work = 16 \<and>
     (\<forall>c \<in> cs. check c = Inr True \<longrightarrow> be_nat (commitment_total_work c) \<le> be_nat work) \<and>
     ((\<exists>c \<in> cs. check c = Inr True \<and> work = commitment_total_work c) \<or>
      work = replicate 16 0 \<and> (\<forall>c \<in> cs. check c = Inr False))"
  unfolding check_def cs_def using assms(1) by (rule total_work_max)

theorem max_verified_work_witness:
  "\<exists>(c :: watch_tower_challenge_tx_commitment).
     challenge_commitment demo_bitcoin (tx_output (watchtower_challenge_tx demo_watchtower_input)) = Inr (Some c) \<and>
     check_commitment demo_groth16 toy_sha MAINNET_WORK_ONLY_METHOD_ID (genesis_state_hash (hcp demo_bridge_input)) c = Inr True \<and>
     be_nat (commitment_total_work c) \<le> be_nat (work_u128 demo_work_only) \<and> be_nat (work_u128 demo_work_only) = 9"
proof -
  let ?c = "\<lparr>compressed_g16_proof = replicate 128 0, commitment_total_work = work_u128 demo_work_only\<rparr>"
  obtain flags where f: "total_work_and_watchtower_flags demo_groth16 sighash_spec toy_sha (\<lambda>m. m) demo_bitcoin demo_bridge_input
     MAINNET_WORK_ONLY_METHOD_ID = Inr (work_u128 demo_work_only, flags)" using demo_total_work by blast
  have in_set: "demo_watchtower_input \<in> set (watchtower_inputs demo_bridge_input)"
    and gen: "genesis_state_hash (hcp demo_bridge_input) = wo_genesis_state_hash demo_work_only"
    by (simp_all add: demo_bridge_input_def)
  have ok: "check_commitment demo_groth16 toy_sha MAINNET_WORK_ONLY_METHOD_ID (genesis_state_hash (hcp demo_bridge_input)) ?c = Inr True"
    using demo_groth16_accepts by (simp add: check_commitment_def gen)
  have nine: "be_nat (work_u128 demo_work_only) = 9" by (simp add: demo_work_only_def be_nat_append be_nat_Cons)
  have "be_nat (commitment_total_work ?c) \<le> be_nat (work_u128 demo_work_only)"
    using max_verified_work [OF f] in_set demo_commitment ok by blast
  with demo_commitment ok nine show ?thesis by blast
qed

text \<open>
  C28. Inputs built from the chain pass the index checks. For an input that \<open>from_txs\<close> builds from a
  challenge transaction with the id of the kickoff and the first connector of the circuit input, and
  a bitmap of 20 bytes, \<open>verify_challenge\<close> accepts the challenge if and only if the spent output of
  the kickoff has an even offset from the first connector, pays to the key registered for the index
  the builder computed, and the signature verifies; an odd offset is always rejected. When accepted,
  the bit of this index is set and the outputs of the challenge transaction are recorded.
\<close>

theorem from_txs_challenge_accepted:
  assumes "from_txs N sha (compute_txid N (kickoff_tx input)) tx prevs
      (watchtower_challenge_connector_start_idx input) = Inr w" "length (tx_input tx) < 4294967296"
    and "length (challenge_senders st) = 20"
  defines "k \<equiv> unat (watchtower_challenge_input_idx w)" and "i \<equiv> unat (watchtower_idx w)"
  defines "key \<equiv> take 32 (drop 2 (script_pubkey (watchtower_challenge_utxos w ! k)))"
  shows "verify_challenge A sha tap_hash N input w st = Inr st' \<longleftrightarrow>
     even (unat (op_vout (previous_output (tx_input tx ! k))) - unat (watchtower_challenge_connector_start_idx input)) \<and>
     is_p2tr N (script_pubkey (watchtower_challenge_utxos w ! k)) \<and>
     34 \<le> length (script_pubkey (watchtower_challenge_utxos w ! k)) \<and>
     i < length (all_tweaked_watchtower_pubkeys input) \<and> all_tweaked_watchtower_pubkeys input ! i = key \<and>
     (\<exists>sighash_type sig hash. challenge_signature A w = Inr (sighash_type, sig) \<and>
        sighash A sha tap_hash (watchtower_challenge_tx w) (PrevoutsAll (watchtower_challenge_utxos w)) k sighash_type
          (annex_digest w) = Inr hash \<and>
        verifying_key_ok N key \<and> signature_ok N sig \<and> verify_prehash N key hash sig) \<and>
     st' = \<lparr>challenge_senders = (challenge_senders st)[i div 8 := challenge_senders st ! (i div 8) OR push_bit (i mod 8) 1],
            challenge_outputs = challenge_outputs st @ [tx_output tx]\<rparr>"
proof -
  have "tx_output (watchtower_challenge_tx w) = tx_output tx" using from_txs_Inr [OF assms(1,2)] by fastforce
  then show ?thesis
    unfolding verify_challenge_Inr [OF assms(3)] from_txs_valid_challenge [OF assms(1,2)] k_def i_def key_def by auto
qed

theorem from_txs_challenge_accepted_witness:
  "from_txs demo_bitcoin toy_sha (compute_txid demo_bitcoin (kickoff_tx demo_bridge_input)) demo_challenge_tx [demo_kickoff]
     (watchtower_challenge_connector_start_idx demo_bridge_input) = Inr demo_watchtower_input \<and>
   (\<exists>st'. verify_challenge sighash_spec toy_sha (\<lambda>m. m) demo_bitcoin demo_bridge_input demo_watchtower_input
       \<lparr>challenge_senders = replicate 20 0, challenge_outputs = []\<rparr> = Inr st' \<and>
     all_tweaked_watchtower_pubkeys demo_bridge_input ! 1 = replicate 32 6 \<and> challenge_senders st' ! 0 = 2)"
proof -
  let ?st = "\<lparr>challenge_senders = replicate 20 0, challenge_outputs = []\<rparr> :: watchtower_challenge_set"
  have built: "from_txs demo_bitcoin toy_sha (compute_txid demo_bitcoin (kickoff_tx demo_bridge_input)) demo_challenge_tx [demo_kickoff]
     (watchtower_challenge_connector_start_idx demo_bridge_input) = Inr demo_watchtower_input"
    using demo_from_txs by (simp add: demo_bitcoin_def demo_bridge_input_def demo_kickoff_def)
  have len: "length (tx_input demo_challenge_tx) < 4294967296" "length (challenge_senders ?st) = 20"
    by (simp_all add: demo_challenge_tx_def)
  obtain st' where st': "verify_challenge sighash_spec toy_sha (\<lambda>m. m) demo_bitcoin demo_bridge_input demo_watchtower_input ?st = Inr st'"
    using verify_challenge_Inr [OF len(2)] demo_valid_challenge by blast
  from from_txs_challenge_accepted [OF built len, of sighash_spec "\<lambda>m. m" st', THEN iffD1, OF st'] built st'
  show ?thesis by (simp add: demo_watchtower_input_def)
qed

end
