(* ===== verification/Bridge_Circuit.thy ===== *)
theory Bridge_Circuit
  imports Watchtowers
begin

text \<open>
  The bridge circuit (\<open>bridge_circuit\<close> of \<open>src/circuits-lib/src/bridge_circuit/mod.rs\<close>): it puts the
  header chain proof, the watchtower challenges, the payout's SPV proof, the light client and the
  storage proofs together and commits to one hash. Its environment is the record \<open>bridge_env\<close>: the
  network of the build, the hash functions and the parameters of the components.
\<close>

section \<open>The circuit\<close>

record ('g1, 'g2, 'fq, 'fq2, 'fr, 'vk, 'jmt) bridge_env =
  env_net :: network
  env_sha :: hasher
  env_tap_hash :: hasher
  env_blake3 :: hasher
  env_consensus :: consensus
  env_sighash :: sighash_api
  env_bitcoin :: bitcoin_api
  env_groth16 :: "('g1, 'g2, 'fq, 'fq2, 'fr, 'vk) groth16_api"
  env_rollup :: "'jmt rollup_api"
  env_verify :: "method_id \<Rightarrow> block_header_circuit_output \<Rightarrow> bool"

definition deposit_constant ::
  "hasher \<Rightarrow> bytes \<Rightarrow> u32 \<Rightarrow> bytes list \<Rightarrow> bytes \<Rightarrow> bytes \<Rightarrow> u32 \<Rightarrow> bytes \<Rightarrow> bytes" where
  "deposit_constant sha operator_xonlypk start_idx watchtower_pubkeys move_txid round_txid kickoff_round_vout genesis =
     (let watchtower_pubkeys_digest = sha (concat watchtower_pubkeys) in
      sha (move_txid @ watchtower_pubkeys_digest @ operator_xonlypk @ u32_to_be_bytes start_idx @ round_txid
           @ u32_to_be_bytes kickoff_round_vout @ genesis))"

definition journal_hash :: "hasher \<Rightarrow> bytes \<Rightarrow> bytes \<Rightarrow> bytes \<Rightarrow> bytes \<Rightarrow> bytes" where
  "journal_hash blake3 payout_tx_blockhash latest_blockhash challenge_sending_watchtowers deposit_const =
     (let hash_bytes = blake3 (payout_tx_blockhash @ latest_blockhash @ challenge_sending_watchtowers) in
      blake3 (deposit_const @ hash_bytes))"

definition get_first_op_return_output :: "bitcoin_api \<Rightarrow> transaction \<Rightarrow> tx_out option" where
  "get_first_op_return_output N tx = find (\<lambda>out. is_op_return N (script_pubkey out)) (tx_output tx)"

definition WORK_ONLY_IMAGE_ID :: "network \<Rightarrow> bytes" where
  "WORK_ONLY_IMAGE_ID net =
     (case net of
        Mainnet \<Rightarrow> MAINNET_WORK_ONLY_METHOD_ID
      | Testnet4 \<Rightarrow> TESTNET4_WORK_ONLY_METHOD_ID
      | Signet \<Rightarrow> SIGNET_WORK_ONLY_METHOD_ID
      | Regtest \<Rightarrow> REGTEST_WORK_ONLY_METHOD_ID)"

definition bridge_circuit ::
  "('g1, 'g2, 'fq, 'fq2, 'fr, 'vk, 'jmt) bridge_env \<Rightarrow> bytes \<Rightarrow> bridge_circuit_input \<Rightarrow> bytes result" where
  "bridge_circuit V work_only_image_id input =
     rbind (ensure (HEADER_CHAIN_METHOD_ID (env_net V) = hc_method_id (hcp input))
              (Panic ''Invalid method ID for header chain circuit'')) (\<lambda>_.
     rbind (ensure (env_verify V (hc_method_id (hcp input)) (hcp input)) (Panic ''env::verify'')) (\<lambda>_.
     rbind (total_work_and_watchtower_flags (env_groth16 V) (env_sighash V) (env_sha V) (env_tap_hash V) (env_bitcoin V)
              input work_only_image_id) (\<lambda>(max_total_work, challenge_sending_watchtowers).
     rbind (slice 16 32 (total_work (hc_chain_state (hcp input)))) (\<lambda>work_bytes.
     rbind (expect_ok (total_work_try_from work_bytes) (Panic ''Cannot fail'')) (\<lambda>operator_work.
     rbind (ensure (\<not> bytes_less operator_work max_total_work) (Panic ''Insufficient total work'')) (\<lambda>_.
     let mmr = block_hashes_mmr (hc_chain_state (hcp input)) in
     rbind (spv_verify (env_sha V) (env_consensus V) (payout_spv input) mmr) (\<lambda>spv_ok.
     rbind (ensure spv_ok (Panic ''Invalid SPV proof'')) (\<lambda>_.
     rbind (lc_proof_verifier (env_net V) (env_rollup V) (lcp input)) (\<lambda>light_client_output.
     let lc_l1_block_hash = latest_da_block_hash light_client_output;
         spv_l1_block_hash = compute_block_hash (env_sha V) (spv_block_header (payout_spv input)) in
     rbind (ensure (lc_l1_block_hash = spv_l1_block_hash) (Panic ''L1 block hash mismatch'')) (\<lambda>_.
     rbind (verify_storage_proofs (env_rollup V) (env_sha V) (sp input) (l2_state_root light_client_output))
       (\<lambda>(user_wd_txid, vout, move_txid).
     rbind (nth_checked (tx_input (spv_transaction (payout_spv input))) (unat (payout_input_index input))) (\<lambda>payout_input.
     rbind (ensure (user_wd_txid = op_txid (previous_output payout_input)) (Panic ''Invalid withdrawal transaction ID'')) (\<lambda>_.
     rbind (ensure (vout = op_vout (previous_output payout_input))
              (Panic ''Invalid withdrawal transaction output index'')) (\<lambda>_.
     rbind (expect (get_first_op_return_output (env_bitcoin V) (spv_transaction (payout_spv input)))
              (Panic ''Payout transaction must have an OP_RETURN output'')) (\<lambda>first_op_return_output.
     rbind (nth_checked (tx_input (kickoff_tx input)) 0) (\<lambda>kickoff_input.
     let round_txid = op_txid (previous_output kickoff_input);
         kickoff_round_vout = op_vout (previous_output kickoff_input) in
     rbind (expect (parse_op_return_data (env_bitcoin V) (script_pubkey first_op_return_output))
              (Panic ''Invalid operator xonlypk'')) (\<lambda>xonlypk_bytes.
     rbind (expect (try_array 32 xonlypk_bytes) (Panic ''Invalid xonlypk'')) (\<lambda>operator_xonlypk.
     let deposit_const = deposit_constant (env_sha V) operator_xonlypk (watchtower_challenge_connector_start_idx input)
           (all_tweaked_watchtower_pubkeys input) move_txid round_txid kickoff_round_vout (genesis_state_hash (hcp input)) in
     rbind (slice 12 32 (best_block_hash (hc_chain_state (hcp input)))) (\<lambda>latest_bytes.
     rbind (expect_ok (latest_blockhash_try_from latest_bytes) (Panic ''called Result::unwrap() on an Err value''))
       (\<lambda>latest_blockhash.
     rbind (slice 12 32 spv_l1_block_hash) (\<lambda>payout_bytes.
     rbind (expect_ok (payout_tx_blockhash_try_from payout_bytes) (Panic ''called Result::unwrap() on an Err value''))
       (\<lambda>payout_tx_blockhash.
     Inr (journal_hash (env_blake3 V) payout_tx_blockhash latest_blockhash challenge_sending_watchtowers deposit_const)
     ))))))))))))))))))))))"

definition bridge_circuit_guest_main ::
  "('g1, 'g2, 'fq, 'fq2, 'fr, 'vk, 'jmt) bridge_env \<Rightarrow> bridge_circuit_input \<Rightarrow> bytes result" where
  "bridge_circuit_guest_main V input = bridge_circuit V (WORK_ONLY_IMAGE_ID (env_net V)) input"

section \<open>An accepted run\<close>

text \<open>The values of an accepted run, and the checks it passed.\<close>

lemma bridge_circuit_Inr:
  assumes "bridge_circuit V image_id input = Inr j"
  obtains work flags out txid vout move_txid ret key where
    "hc_method_id (hcp input) = HEADER_CHAIN_METHOD_ID (env_net V)"
    "env_verify V (HEADER_CHAIN_METHOD_ID (env_net V)) (hcp input)"
    "total_work_and_watchtower_flags (env_groth16 V) (env_sighash V) (env_sha V) (env_tap_hash V) (env_bitcoin V) input image_id
       = Inr (work, flags)"
    "32 \<le> length (total_work (hc_chain_state (hcp input)))"
    "\<not> bytes_less (take 16 (drop 16 (total_work (hc_chain_state (hcp input))))) work"
    "spv_verify (env_sha V) (env_consensus V) (payout_spv input) (block_hashes_mmr (hc_chain_state (hcp input))) = Inr True"
    "lc_proof_verifier (env_net V) (env_rollup V) (lcp input) = Inr out"
    "latest_da_block_hash out = compute_block_hash (env_sha V) (spv_block_header (payout_spv input))"
    "verify_storage_proofs (env_rollup V) (env_sha V) (sp input) (l2_state_root out) = Inr (txid, vout, move_txid)"
    "unat (payout_input_index input) < length (tx_input (spv_transaction (payout_spv input)))"
    "previous_output (tx_input (spv_transaction (payout_spv input)) ! unat (payout_input_index input))
       = \<lparr>op_txid = txid, op_vout = vout\<rparr>"
    "get_first_op_return_output (env_bitcoin V) (spv_transaction (payout_spv input)) = Some ret"
    "parse_op_return_data (env_bitcoin V) (script_pubkey ret) = Some key" "length key = 32"
    "tx_input (kickoff_tx input) \<noteq> []"
    "j = journal_hash (env_blake3 V) (take 20 (drop 12 (compute_block_hash (env_sha V) (spv_block_header (payout_spv input)))))
           (take 20 (drop 12 (best_block_hash (hc_chain_state (hcp input))))) flags
           (deposit_constant (env_sha V) key (watchtower_challenge_connector_start_idx input)
              (all_tweaked_watchtower_pubkeys input) move_txid (op_txid (previous_output (tx_input (kickoff_tx input) ! 0)))
              (op_vout (previous_output (tx_input (kickoff_tx input) ! 0))) (genesis_state_hash (hcp input)))"
proof -
  have op: "x = \<lparr>op_txid = op_txid x, op_vout = op_vout x\<rparr>" for x :: out_point by simp
  from assms show thesis
    unfolding bridge_circuit_def Let_def
    by (auto simp: total_work_try_from_def latest_blockhash_try_from_def payout_tx_blockhash_try_from_def
        intro!: that [OF _ _ _ _ _ _ _ _ _ _ op] split: prod.splits)
qed

lemma accepted_work_bound:
  assumes run: "bridge_circuit V image_id input = Inr j" and len: "length (total_work (hc_chain_state (hcp input))) = 32"
    and w: "w \<in> set (watchtower_inputs input)"
    and c: "challenge_commitment (env_bitcoin V) (tx_output (watchtower_challenge_tx w)) = Inr (Some c)"
    and ok: "check_commitment (env_groth16 V) (env_sha V) image_id (genesis_state_hash (hcp input)) c = Inr True"
  shows "be_nat (commitment_total_work c) \<le> be_nat (total_work (hc_chain_state (hcp input))) mod 2 ^ 128"
proof -
  let ?tw = "total_work (hc_chain_state (hcp input))"
  from run obtain work flags where f: "total_work_and_watchtower_flags (env_groth16 V) (env_sighash V) (env_sha V) (env_tap_hash V)
      (env_bitcoin V) input image_id = Inr (work, flags)" and le: "\<not> bytes_less (take 16 (drop 16 ?tw)) work"
    by (rule bridge_circuit_Inr)
  have m: "length work = 16" "be_nat (commitment_total_work c) \<le> be_nat work"
    using total_work_max [OF f] w c ok by blast+
  have "take 16 (drop 16 ?tw) = drop 16 ?tw" using len by simp
  then have "be_nat work \<le> be_nat (drop 16 ?tw)" using le bytes_less_be_nat [of "drop 16 ?tw" work] m(1) len by simp
  also have "\<dots> = be_nat ?tw mod 2 ^ 128" using len by (simp add: be_nat_drop)
  finally show ?thesis using m(2) by simp
qed

section \<open>The committed hash\<close>

text \<open>The fields a deposit constant is made of, and the strings hashed for it and for the journal.\<close>

record deposit_fields =
  df_operator_xonlypk :: bytes
  df_start_idx :: u32
  df_watchtower_pubkeys :: "bytes list"
  df_move_txid :: bytes
  df_round_txid :: bytes
  df_kickoff_round_vout :: u32
  df_genesis :: bytes

definition deposit_constant_of :: "hasher \<Rightarrow> deposit_fields \<Rightarrow> bytes" where
  "deposit_constant_of sha d =
     deposit_constant sha (df_operator_xonlypk d) (df_start_idx d) (df_watchtower_pubkeys d) (df_move_txid d)
       (df_round_txid d) (df_kickoff_round_vout d) (df_genesis d)"

definition deposit_pre_constant :: "hasher \<Rightarrow> deposit_fields \<Rightarrow> bytes" where
  "deposit_pre_constant sha d =
     df_move_txid d @ sha (concat (df_watchtower_pubkeys d)) @ df_operator_xonlypk d @ u32_to_be_bytes (df_start_idx d)
     @ df_round_txid d @ u32_to_be_bytes (df_kickoff_round_vout d) @ df_genesis d"

definition deposit_fields_wf :: "deposit_fields \<Rightarrow> bool" where
  "deposit_fields_wf d \<longleftrightarrow> length (df_operator_xonlypk d) = 32 \<and> (\<forall>k \<in> set (df_watchtower_pubkeys d). length k = 32) \<and>
     length (df_move_txid d) = 32 \<and> length (df_round_txid d) = 32 \<and> length (df_genesis d) = 32"

definition deposit_strings :: "hasher \<Rightarrow> deposit_fields \<Rightarrow> bytes set" where
  "deposit_strings sha d = {concat (df_watchtower_pubkeys d), deposit_pre_constant sha d}"

lemma deposit_constant_commits:
  assumes sha: "digest32 sha" and wf: "deposit_fields_wf d" "deposit_fields_wf d'"
    and inj: "inj_on sha (deposit_strings sha d \<union> deposit_strings sha d')"
    and eq: "deposit_constant_of sha d = deposit_constant_of sha d'"
  shows "d = d'"
proof -
  have "sha (deposit_pre_constant sha d) = sha (deposit_pre_constant sha d')"
    using eq by (simp add: deposit_constant_of_def deposit_constant_def deposit_pre_constant_def)
  then have "deposit_pre_constant sha d = deposit_pre_constant sha d'"
    by (rule inj_onD [OF inj]) (simp_all add: deposit_strings_def)
  then have f: "df_move_txid d = df_move_txid d'" "df_operator_xonlypk d = df_operator_xonlypk d'"
      "df_start_idx d = df_start_idx d'" "df_round_txid d = df_round_txid d'"
      "df_kickoff_round_vout d = df_kickoff_round_vout d'" "df_genesis d = df_genesis d'"
      "sha (concat (df_watchtower_pubkeys d)) = sha (concat (df_watchtower_pubkeys d'))"
    using wf sha by (simp_all add: deposit_pre_constant_def deposit_fields_wf_def)
  from f(7) have "concat (df_watchtower_pubkeys d) = concat (df_watchtower_pubkeys d')"
    by (rule inj_onD [OF inj]) (simp_all add: deposit_strings_def)
  then have "df_watchtower_pubkeys d = df_watchtower_pubkeys d'"
    using wf by (intro concat_fixed_inject [of _ _ 32]) (simp_all add: deposit_fields_wf_def)
  with f show ?thesis by (simp add: deposit_fields.equality)
qed

definition journal_strings :: "hasher \<Rightarrow> bytes \<Rightarrow> bytes \<Rightarrow> bytes \<Rightarrow> bytes \<Rightarrow> bytes set" where
  "journal_strings blake3 p l f d = {p @ l @ f, d @ blake3 (p @ l @ f)}"

lemma journal_hash_commits:
  assumes len: "length p = 20" "length l = 20" "length f = 20" "length p' = 20" "length l' = 20" "length f' = 20"
      "length d = 32" "length d' = 32"
    and inj: "inj_on blake3 (journal_strings blake3 p l f d \<union> journal_strings blake3 p' l' f' d')"
    and eq: "journal_hash blake3 p l f d = journal_hash blake3 p' l' f' d'"
  shows "p = p' \<and> l = l' \<and> f = f' \<and> d = d'"
proof -
  have "blake3 (d @ blake3 (p @ l @ f)) = blake3 (d' @ blake3 (p' @ l' @ f'))"
    using eq by (simp add: journal_hash_def)
  then have "d @ blake3 (p @ l @ f) = d' @ blake3 (p' @ l' @ f')"
    by (rule inj_onD [OF inj]) (simp_all add: journal_strings_def)
  then have d: "d = d'" "blake3 (p @ l @ f) = blake3 (p' @ l' @ f')" using len by simp_all
  from d(2) have "p @ l @ f = p' @ l' @ f'" by (rule inj_onD [OF inj]) (simp_all add: journal_strings_def)
  with d len show ?thesis by simp
qed

section \<open>A concrete run\<close>

definition demo_open_rollup :: "unit rollup_api" where
  "demo_open_rollup = demo_rollup\<lparr>jmt_verify := (\<lambda>_ _ _ _. True)\<rparr>"

definition demo_env :: "(u256, 512 word, unit, unit, nat, unit, unit) bridge_env" where
  "demo_env =
     \<lparr>env_net = Mainnet, env_sha = toy_sha, env_tap_hash = (\<lambda>m. m), env_blake3 = toy_sha, env_consensus = demo_consensus,
      env_sighash = sighash_spec, env_bitcoin = demo_bitcoin, env_groth16 = demo_groth16, env_rollup = demo_open_rollup,
      env_verify = (\<lambda>_ r. r = hcp demo_bridge_input)\<rparr>"

lemma demo_storage_open:
  "verify_storage_proofs demo_open_rollup toy_sha demo_storage_proof root = Inr (u256_to_be_bytes 77, 1, u256_to_be_bytes 99)"
proof (rule demo_storage_eval(1))
  fix i :: nat
  show "storage_verify demo_open_rollup toy_sha (demo_entry i) root = Inr ()"
    by (simp add: storage_verify_def demo_open_rollup_def demo_rollup_def demo_entry_def nth_checked_def expect_def ensure_def)
qed (simp_all add: demo_open_rollup_def demo_rollup_def)

lemma demo_lc:
  "lc_proof_verifier Mainnet demo_open_rollup \<lparr>lc_journal = replicate 32 0 @ h\<rparr> =
     Inr \<lparr>l2_state_root = replicate 32 0, latest_da_block_hash = h, light_client_proof_method_id = demo_lc_method_id\<rparr>"
proof -
  have "length MAINNET_LC_IMAGE_ID = 32" by (simp add: MAINNET_LC_IMAGE_ID_def)
  then show ?thesis
    by (simp add: lc_proof_verifier_def is_regtest_def deserialize_circuit_output_def check_method_id_def demo_open_rollup_def
        demo_rollup_def expect_def ensure_def try_array_def demo_lc_method_id LC_IMAGE_ID_def)
qed

lemma demo_payout_spv:
  "spv_verify toy_sha demo_consensus (demo_spv\<lparr>spv_transaction := demo_payout\<rparr>) demo_range = Inr True"
proof -
  have "mid_state_txid toy_sha demo_consensus demo_payout = mid_state_txid toy_sha demo_consensus (demo_block_tx 2)"
    by (simp add: mid_state_txid_def tx_bytes_def demo_consensus_def demo_payout_def demo_block_tx_def)
  moreover have "spv_transaction demo_spv = demo_block_tx 2" by (simp add: demo_spv_def)
  ultimately have "spv_verify toy_sha demo_consensus (demo_spv\<lparr>spv_transaction := demo_payout\<rparr>) demo_range =
      spv_verify toy_sha demo_consensus demo_spv demo_range"
    unfolding spv_verify_def by (simp cong: if_cong)
  with demo_spv_accepted show ?thesis by simp
qed

lemma demo_bridge_accepted: "\<exists>j. bridge_circuit demo_env MAINNET_WORK_ONLY_METHOD_ID demo_bridge_input = Inr j"
proof -
  obtain flags where f: "total_work_and_watchtower_flags demo_groth16 sighash_spec toy_sha (\<lambda>m. m) demo_bitcoin demo_bridge_input
     MAINNET_WORK_ONLY_METHOD_ID = Inr (work_u128 demo_work_only, flags)" using demo_total_work by blast
  have env: "env_net demo_env = Mainnet" "env_sha demo_env = toy_sha" "env_tap_hash demo_env = (\<lambda>m. m)"
    "env_consensus demo_env = demo_consensus" "env_sighash demo_env = sighash_spec" "env_bitcoin demo_env = demo_bitcoin"
    "env_groth16 demo_env = demo_groth16" "env_rollup demo_env = demo_open_rollup" "env_verify demo_env = (\<lambda>_ r. r = hcp demo_bridge_input)"
    by (simp_all add: demo_env_def)
  have inp: "payout_spv demo_bridge_input = demo_spv\<lparr>spv_transaction := demo_payout\<rparr>"
    "lcp demo_bridge_input = \<lparr>lc_journal = replicate 32 0 @ compute_block_hash toy_sha demo_spv_header\<rparr>"
    "sp demo_bridge_input = demo_storage_proof" "hc_method_id (hcp demo_bridge_input) = HEADER_CHAIN_METHOD_ID Mainnet"
    "total_work (hc_chain_state (hcp demo_bridge_input)) = replicate 31 0 @ [10]"
    "best_block_hash (hc_chain_state (hcp demo_bridge_input)) = replicate 32 4"
    "block_hashes_mmr (hc_chain_state (hcp demo_bridge_input)) = demo_range"
    "unat (payout_input_index demo_bridge_input) = 0" "kickoff_tx demo_bridge_input = demo_kickoff"
    by (simp_all add: demo_bridge_input_def demo_hc_state_def)
  have less: "\<not> bytes_less (take 16 (drop 16 (replicate 31 0 @ [10]))) (work_u128 demo_work_only)"
  proof -
    have "take 16 (drop 16 (replicate 31 0 @ [10 :: u8])) = replicate 15 0 @ [10]" by simp
    then show ?thesis by (simp add: bytes_less_be_nat demo_work_only_def be_nat_append be_nat_Cons)
  qed
  have hdr: "spv_block_header (demo_spv\<lparr>spv_transaction := demo_payout\<rparr>) = demo_spv_header"
    "spv_transaction (demo_spv\<lparr>spv_transaction := demo_payout\<rparr>) = demo_payout"
    by (simp_all add: demo_spv_def)
  have pay: "tx_input demo_payout = [\<lparr>previous_output = \<lparr>op_txid = u256_to_be_bytes 77, op_vout = 1\<rparr>, script_sig = [], sequence = 0, witness = []\<rparr>]"
    "get_first_op_return_output demo_bitcoin demo_payout = Some \<lparr>txo_value = 0, script_pubkey = OP_RETURN # 0x20 # replicate 32 8\<rparr>"
    "parse_op_return_data demo_bitcoin (OP_RETURN # 0x20 # replicate 32 8) = Some (replicate 32 8)"
    by (simp_all add: demo_payout_def get_first_op_return_output_def demo_bitcoin_def parse_op_return_data_def)
  have len: "length (compute_block_hash toy_sha demo_spv_header) = 32" by (simp add: compute_block_hash_bytes)
  show ?thesis
    unfolding bridge_circuit_def env f inp demo_payout_spv demo_lc rbind_simps prod.case Let_def hdr
    using less len
    by (simp add: demo_storage_open pay nth_checked_def ensure_def expect_def expect_ok_def slice_def try_array_def
        total_work_try_from_def latest_blockhash_try_from_def payout_tx_blockhash_try_from_def demo_kickoff_def)
qed

lemma demo_receipt:
  "hc_receipt Mainnet toy_sha (HEADER_CHAIN_METHOD_ID Mainnet) (\<lambda>_ _. False) (hcp demo_bridge_input)"
proof (rule hc_receipt.run)
  have t: "u256_to_be_bytes (u256_from_be_bytes (replicate 31 0 @ [10])) = replicate 31 0 @ [10]"
    by (rule u256_to_from_be_bytes) simp
  have "apply_block_headers Mainnet toy_sha [] demo_hc_state = Inr demo_hc_state"
    by (simp add: apply_block_headers_def start_loop_def finish_loop_def demo_hc_state_def t)
  then show "header_chain_circuit Mainnet toy_sha (\<lambda>_ _. False) \<lparr>input_method_id = HEADER_CHAIN_METHOD_ID Mainnet,
      prev_proof = GenesisBlock demo_hc_state, block_headers = []\<rparr> = Inr (hcp demo_bridge_input)"
    by (simp add: header_chain_circuit_def demo_bridge_input_def demo_work_only_def)
qed simp

section \<open>Properties\<close>

text \<open>
  C23. The operator's chain has the most work. Suppose the zkVM accepts only genuine header chain
  outputs under the network's image id and the Groth16 system is sound. If the bridge circuit
  commits a journal, the operator's header chain goes back to its committed genesis state by
  accepted batches of headers, and every commitment of an accepted challenge whose proof verifies
  is a genuine work output for the same genesis hash, with at most the work of the operator's chain
  (modulo \<open>2 ^ 128\<close>).
\<close>

theorem bridge_operator_has_most_work:
  assumes run: "bridge_circuit V image_id input = Inr j"
    and hc: "\<forall>r. env_verify V (HEADER_CHAIN_METHOD_ID (env_net V)) r \<longrightarrow>
               hc_receipt (env_net V) (env_sha V) (HEADER_CHAIN_METHOD_ID (env_net V)) other r"
    and g16: "groth16_laws (env_groth16 V) fr" "digest32 (env_sha V)" "groth16_sound (env_groth16 V) fr (env_sha V) proven"
    and len: "length image_id = 32" "length (genesis_state_hash (hcp input)) = 32"
      "length (total_work (hc_chain_state (hcp input))) = 32"
    and bind: "\<forall>w \<in> set (watchtower_inputs input). \<forall>c.
        challenge_commitment (env_bitcoin V) (tx_output (watchtower_challenge_tx w)) = Inr (Some c) \<longrightarrow>
        claim_binding (env_groth16 V) (env_sha V) proven image_id
          \<lparr>work_u128 = commitment_total_work c, wo_genesis_state_hash = genesis_state_hash (hcp input)\<rparr>"
  shows "(\<exists>gs batches. genesis_state_hash (hcp input) = to_hash (env_sha V) gs \<and>
            rfold (apply_block_headers (env_net V) (env_sha V)) batches gs = Inr (hc_chain_state (hcp input))) \<and>
     (\<forall>w \<in> set (watchtower_inputs input). \<forall>c.
        challenge_commitment (env_bitcoin V) (tx_output (watchtower_challenge_tx w)) = Inr (Some c) \<longrightarrow>
        check_commitment (env_groth16 V) (env_sha V) image_id (genesis_state_hash (hcp input)) c = Inr True \<longrightarrow>
        proven image_id \<lparr>work_u128 = commitment_total_work c, wo_genesis_state_hash = genesis_state_hash (hcp input)\<rparr> \<and>
        be_nat (commitment_total_work c) \<le> be_nat (total_work (hc_chain_state (hcp input))) mod 2 ^ 128)"
proof (intro conjI ballI allI impI)
  from run have "hc_method_id (hcp input) = HEADER_CHAIN_METHOD_ID (env_net V)"
    "env_verify V (HEADER_CHAIN_METHOD_ID (env_net V)) (hcp input)" by (auto elim: bridge_circuit_Inr)
  with hc hc_receipt_trace show "\<exists>gs batches. genesis_state_hash (hcp input) = to_hash (env_sha V) gs \<and>
            rfold (apply_block_headers (env_net V) (env_sha V)) batches gs = Inr (hc_chain_state (hcp input))" by blast
next
  fix w c
  assume w: "w \<in> set (watchtower_inputs input)"
    and c: "challenge_commitment (env_bitcoin V) (tx_output (watchtower_challenge_tx w)) = Inr (Some c)"
    and ok: "check_commitment (env_groth16 V) (env_sha V) image_id (genesis_state_hash (hcp input)) c = Inr True"
  show "be_nat (commitment_total_work c) \<le> be_nat (total_work (hc_chain_state (hcp input))) mod 2 ^ 128"
    by (rule accepted_work_bound [OF run len(3) w c ok])
  have "length (commitment_total_work c) = 16" using challenge_commitment_wf [OF c] by (simp add: wf_commitment_def)
  then show "proven image_id \<lparr>work_u128 = commitment_total_work c, wo_genesis_state_hash = genesis_state_hash (hcp input)\<rparr>"
    using accepted_work_proven [OF g16 len(1) _ len(2) _ ok [unfolded check_commitment_def]] bind w c by blast
qed

theorem bridge_operator_has_most_work_witness:
  "\<exists>(c :: watch_tower_challenge_tx_commitment) w.
     w \<in> set (watchtower_inputs demo_bridge_input) \<and>
     challenge_commitment demo_bitcoin (tx_output (watchtower_challenge_tx w)) = Inr (Some c) \<and>
     demo_proven MAINNET_WORK_ONLY_METHOD_ID
       \<lparr>work_u128 = commitment_total_work c, wo_genesis_state_hash = genesis_state_hash (hcp demo_bridge_input)\<rparr> \<and>
     be_nat (commitment_total_work c) \<le> be_nat (total_work (hc_chain_state (hcp demo_bridge_input))) mod 2 ^ 128"
proof -
  let ?c = "\<lparr>compressed_g16_proof = replicate 128 0, commitment_total_work = work_u128 demo_work_only\<rparr>"
  obtain j where j: "bridge_circuit demo_env MAINNET_WORK_ONLY_METHOD_ID demo_bridge_input = Inr j"
    using demo_bridge_accepted by blast
  have env: "env_net demo_env = Mainnet" "env_sha demo_env = toy_sha" "env_bitcoin demo_env = demo_bitcoin"
    "env_groth16 demo_env = demo_groth16" "env_verify demo_env = (\<lambda>_ r. r = hcp demo_bridge_input)"
    by (simp_all add: demo_env_def)
  have inp: "watchtower_inputs demo_bridge_input = [demo_watchtower_input]"
    "genesis_state_hash (hcp demo_bridge_input) = wo_genesis_state_hash demo_work_only"
    "hc_chain_state (hcp demo_bridge_input) = demo_hc_state"
    by (simp_all add: demo_bridge_input_def)
  have out: "\<lparr>work_u128 = work_u128 demo_work_only, wo_genesis_state_hash = wo_genesis_state_hash demo_work_only\<rparr> = demo_work_only"
    by (simp add: demo_work_only_def)
  have ok: "check_commitment demo_groth16 toy_sha MAINNET_WORK_ONLY_METHOD_ID (wo_genesis_state_hash demo_work_only) ?c = Inr True"
    using demo_groth16_accepts by (simp add: check_commitment_def)
  have bind: "\<forall>w \<in> set (watchtower_inputs demo_bridge_input). \<forall>c.
        challenge_commitment (env_bitcoin demo_env) (tx_output (watchtower_challenge_tx w)) = Inr (Some c) \<longrightarrow>
        claim_binding (env_groth16 demo_env) (env_sha demo_env) demo_proven MAINNET_WORK_ONLY_METHOD_ID
          \<lparr>work_u128 = commitment_total_work c, wo_genesis_state_hash = genesis_state_hash (hcp demo_bridge_input)\<rparr>"
    unfolding env inp using demo_claim_binding by (auto simp: out demo_commitment)
  have "demo_proven MAINNET_WORK_ONLY_METHOD_ID
       \<lparr>work_u128 = commitment_total_work ?c, wo_genesis_state_hash = genesis_state_hash (hcp demo_bridge_input)\<rparr> \<and>
     be_nat (commitment_total_work ?c) \<le> be_nat (total_work (hc_chain_state (hcp demo_bridge_input))) mod 2 ^ 128"
  proof (rule bridge_operator_has_most_work [OF j _ _ _ _ _ _ _ bind, THEN conjunct2, rule_format])
    show "demo_watchtower_input \<in> set (watchtower_inputs demo_bridge_input)" by (simp add: inp)
    show "challenge_commitment (env_bitcoin demo_env) (tx_output (watchtower_challenge_tx demo_watchtower_input)) = Inr (Some ?c)"
      unfolding env by (rule demo_commitment)
    show "check_commitment (env_groth16 demo_env) (env_sha demo_env) MAINNET_WORK_ONLY_METHOD_ID
        (genesis_state_hash (hcp demo_bridge_input)) ?c = Inr True" unfolding env inp by (rule ok)
    show "hc_receipt (env_net demo_env) (env_sha demo_env) (HEADER_CHAIN_METHOD_ID (env_net demo_env)) (\<lambda>_ _. False) r"
      if "env_verify demo_env (HEADER_CHAIN_METHOD_ID (env_net demo_env)) r" for r
      using that demo_receipt by (simp add: env)
    show "length (total_work (hc_chain_state (hcp demo_bridge_input))) = 32" by (simp add: inp demo_hc_state_def)
    show "length (genesis_state_hash (hcp demo_bridge_input)) = 32" by (simp add: inp demo_work_only_def)
    show "groth16_laws (env_groth16 demo_env) (\<lambda>n. n)" unfolding env by (rule demo_groth16_laws)
    show "groth16_sound (env_groth16 demo_env) (\<lambda>n. n) (env_sha demo_env) demo_proven"
      unfolding env by (rule demo_groth16_sound)
  qed (simp_all add: env)
  with demo_commitment show ?thesis unfolding inp by (intro exI [of _ ?c] exI [of _ demo_watchtower_input]) simp
qed

text \<open>
  C24. The payout is the requested one. A committed journal implies that the payout transaction
  passed the SPV check against the operator's chain, in the block whose hash the light client
  reports; that its checked input spends exactly the outpoint the storage proofs return; and that
  the journal is built from the operator key in its first OP_RETURN output, the move transaction
  the storage proofs return, and the round outpoint of the kickoff.
\<close>

theorem bridge_payout_checked:
  assumes "bridge_circuit V image_id input = Inr j"
  shows "\<exists>lc txid vout move_txid ret key work flags.
     spv_verify (env_sha V) (env_consensus V) (payout_spv input) (block_hashes_mmr (hc_chain_state (hcp input))) = Inr True \<and>
     lc_proof_verifier (env_net V) (env_rollup V) (lcp input) = Inr lc \<and>
     latest_da_block_hash lc = compute_block_hash (env_sha V) (spv_block_header (payout_spv input)) \<and>
     verify_storage_proofs (env_rollup V) (env_sha V) (sp input) (l2_state_root lc) = Inr (txid, vout, move_txid) \<and>
     unat (payout_input_index input) < length (tx_input (spv_transaction (payout_spv input))) \<and>
     previous_output (tx_input (spv_transaction (payout_spv input)) ! unat (payout_input_index input))
       = \<lparr>op_txid = txid, op_vout = vout\<rparr> \<and>
     get_first_op_return_output (env_bitcoin V) (spv_transaction (payout_spv input)) = Some ret \<and>
     parse_op_return_data (env_bitcoin V) (script_pubkey ret) = Some key \<and> length key = 32 \<and>
     total_work_and_watchtower_flags (env_groth16 V) (env_sighash V) (env_sha V) (env_tap_hash V) (env_bitcoin V) input image_id
       = Inr (work, flags) \<and>
     j = journal_hash (env_blake3 V) (take 20 (drop 12 (compute_block_hash (env_sha V) (spv_block_header (payout_spv input)))))
           (take 20 (drop 12 (best_block_hash (hc_chain_state (hcp input))))) flags
           (deposit_constant (env_sha V) key (watchtower_challenge_connector_start_idx input)
              (all_tweaked_watchtower_pubkeys input) move_txid (op_txid (previous_output (tx_input (kickoff_tx input) ! 0)))
              (op_vout (previous_output (tx_input (kickoff_tx input) ! 0))) (genesis_state_hash (hcp input)))"
  using assms by (rule bridge_circuit_Inr) blast

theorem bridge_payout_checked_witness:
  "previous_output (tx_input (spv_transaction (payout_spv demo_bridge_input)) ! unat (payout_input_index demo_bridge_input))
     = \<lparr>op_txid = u256_to_be_bytes 77, op_vout = 1\<rparr> \<and>
   verify_storage_proofs demo_open_rollup toy_sha (sp demo_bridge_input) (replicate 32 0)
     = Inr (u256_to_be_bytes 77, 1, u256_to_be_bytes 99)"
proof -
  obtain j where j: "bridge_circuit demo_env MAINNET_WORK_ONLY_METHOD_ID demo_bridge_input = Inr j"
    using demo_bridge_accepted by blast
  have env: "env_rollup demo_env = demo_open_rollup" "env_sha demo_env = toy_sha" by (simp_all add: demo_env_def)
  have sp: "sp demo_bridge_input = demo_storage_proof" by (simp add: demo_bridge_input_def)
  from bridge_payout_checked [OF j] show ?thesis unfolding env sp demo_storage_open by auto
qed

text \<open>
  C25. The journal binds the run. Two equal journals have the same payout block, latest block,
  challenge flags and deposit constant, and two equal deposit constants have the same operator key,
  connector index, watchtower keys, move transaction, round transaction and output, and genesis
  state hash, unless one of the hash functions collides on the strings hashed.
\<close>

theorem journal_binds_deposit:
  assumes "digest32 sha" "deposit_fields_wf d" "deposit_fields_wf d'"
    and "length p = 20" "length l = 20" "length f = 20" "length p' = 20" "length l' = 20" "length f' = 20"
    and "inj_on sha (deposit_strings sha d \<union> deposit_strings sha d')"
    and "inj_on blake3 (journal_strings blake3 p l f (deposit_constant_of sha d) \<union>
                        journal_strings blake3 p' l' f' (deposit_constant_of sha d'))"
    and "journal_hash blake3 p l f (deposit_constant_of sha d) = journal_hash blake3 p' l' f' (deposit_constant_of sha d')"
  shows "p = p' \<and> l = l' \<and> f = f' \<and> d = d'"
proof -
  have "length (deposit_constant_of sha x) = 32" for x
    using assms(1) by (simp add: deposit_constant_of_def deposit_constant_def Let_def)
  then have "p = p' \<and> l = l' \<and> f = f' \<and> deposit_constant_of sha d = deposit_constant_of sha d'"
    using journal_hash_commits [OF assms(4-9) _ _ assms(11,12)] by blast
  with deposit_constant_commits [OF assms(1-3,10)] show ?thesis by blast
qed

definition demo_deposit_fields :: deposit_fields where
  "demo_deposit_fields = \<lparr>df_operator_xonlypk = replicate 32 8, df_start_idx = 3,
     df_watchtower_pubkeys = [replicate 32 5, replicate 32 6], df_move_txid = replicate 32 1, df_round_txid = replicate 32 9,
     df_kickoff_round_vout = 4, df_genesis = replicate 32 0\<rparr>"

theorem journal_binds_deposit_witness:
  "\<exists>x. journal_hash toy_sha (replicate 20 1) (replicate 20 2) (replicate 20 3) (deposit_constant_of toy_sha demo_deposit_fields) = x \<and>
     deposit_fields_wf demo_deposit_fields \<and> demo_deposit_fields = demo_deposit_fields\<lparr>df_start_idx := 3\<rparr>"
proof -
  let ?d = "demo_deposit_fields"
  have wf: "deposit_fields_wf ?d" by (simp add: deposit_fields_wf_def demo_deposit_fields_def)
  have eq: "?d\<lparr>df_start_idx := 3\<rparr> = ?d" by (simp add: demo_deposit_fields_def)
  have sha: "inj_on toy_sha (deposit_strings toy_sha ?d)"
    by (rule toy_sha_inj_on) (auto simp: deposit_strings_def deposit_pre_constant_def demo_deposit_fields_def)
  have "length (deposit_constant_of toy_sha ?d) = 32" by (simp add: deposit_constant_of_def deposit_constant_def Let_def)
  then have blake: "inj_on toy_sha (journal_strings toy_sha (replicate 20 1) (replicate 20 2) (replicate 20 3) (deposit_constant_of toy_sha ?d))"
    by (intro toy_sha_inj_on) (auto simp: journal_strings_def)
  have "?d = ?d\<lparr>df_start_idx := 3\<rparr>"
    using journal_binds_deposit [of toy_sha ?d "?d\<lparr>df_start_idx := 3\<rparr>" "replicate 20 1" "replicate 20 2" "replicate 20 3"
        "replicate 20 1" "replicate 20 2" "replicate 20 3" toy_sha] wf sha blake eq by simp
  with wf show ?thesis by blast
qed

end
