(* ===== verification/Protocol_Params.thy ===== *)
theory Protocol_Params
  imports Prelude
begin

text \<open>
  The vocabulary the bridge's actors share: the indices of the protocol's outputs, the rounds of an
  operator and the types of transactions (\<open>src/crates/clementine-primitives/src/lib.rs\<close>), their
  encoding in the gRPC interface (\<open>src/core/src/builder/transaction/mod.rs\<close>, the enumerations of
  \<open>src/core/src/rpc/clementine.rs\<close>), and the protocol parameters
  (\<open>src/crates/clementine-config/src/protocol.rs\<close>). \<open>usize\<close> values are natural numbers; a cast to
  \<open>u32\<close> or \<open>i32\<close> is \<open>of_nat\<close>, which truncates as the cast does.
\<close>

section \<open>Output indices\<close>

definition NUMBER_OF_ASSERT_TXS :: nat where
  "NUMBER_OF_ASSERT_TXS = 36"

datatype utxo_vout =
    Vout_Assert nat
  | Vout_WatchtowerChallenge nat
  | Vout_WatchtowerChallengeAck nat
  | Vout_Challenge
  | Vout_KickoffFinalizer
  | Vout_ReimburseInKickoff
  | Vout_Disprove
  | Vout_LatestBlockhash
  | Vout_DepositInMove
  | Vout_ReimburseInRound nat nat
  | Vout_Kickoff nat
  | Vout_CollateralInRound
  | Vout_CollateralInReadyToReimburse

fun get_vout :: "utxo_vout \<Rightarrow> u32" where
  "get_vout (Vout_Assert idx) = of_nat idx + 5"
| "get_vout (Vout_WatchtowerChallenge idx) = of_nat (2 * idx + 5 + NUMBER_OF_ASSERT_TXS)"
| "get_vout (Vout_WatchtowerChallengeAck idx) = of_nat (2 * idx + 6 + NUMBER_OF_ASSERT_TXS)"
| "get_vout Vout_Challenge = 0"
| "get_vout Vout_KickoffFinalizer = 1"
| "get_vout Vout_ReimburseInKickoff = 2"
| "get_vout Vout_Disprove = 3"
| "get_vout Vout_LatestBlockhash = 4"
| "get_vout (Vout_ReimburseInRound idx num_kickoffs_per_round) = of_nat (num_kickoffs_per_round + idx + 1)"
| "get_vout (Vout_Kickoff idx) = of_nat idx + 1"
| "get_vout Vout_DepositInMove = 0"
| "get_vout Vout_CollateralInRound = 0"
| "get_vout Vout_CollateralInReadyToReimburse = 0"

section \<open>Rounds\<close>

datatype round_index = Collateral | Round nat

fun to_index :: "round_index \<Rightarrow> nat" where
  "to_index Collateral = 0"
| "to_index (Round index) = index + 1"

definition from_index :: "nat \<Rightarrow> round_index" where
  "from_index index = (if index = 0 then Collateral else Round (index - 1))"

fun next_round :: "round_index \<Rightarrow> round_index" where
  "next_round Collateral = Round 0"
| "next_round (Round index) = Round (index + 1)"

definition iter_rounds_range :: "nat \<Rightarrow> nat \<Rightarrow> round_index list" where
  "iter_rounds_range start end_idx = map Round [start..<end_idx]"

definition iter_rounds :: "nat \<Rightarrow> round_index list" where
  "iter_rounds num_rounds = iter_rounds_range 0 num_rounds"

section \<open>Transaction types\<close>

datatype transaction_type =
    Tx_AssertTimeout nat
  | Tx_BurnUnusedKickoffConnectors
  | Tx_Challenge
  | Tx_ChallengeTimeout
  | Tx_Disprove
  | Tx_DisproveTimeout
  | Tx_EmergencyStop
  | Tx_Kickoff
  | Tx_KickoffNotFinalized
  | Tx_LatestBlockhash
  | Tx_LatestBlockhashTimeout
  | Tx_MiniAssert nat
  | Tx_MoveToVault
  | Tx_OperatorChallengeAck nat
  | Tx_OperatorChallengeNack nat
  | Tx_OptimisticPayout
  | Tx_Payout
  | Tx_ReadyToReimburse
  | Tx_Reimburse
  | Tx_ReplacementDeposit
  | Tx_Round
  | Tx_UnspentKickoff nat
  | Tx_WatchtowerChallenge nat
  | Tx_WatchtowerChallengeTimeout nat
  | Tx_AllNeededForDeposit
  | Tx_YieldKickoffTxid
  | Tx_Dummy

datatype bitcoin_syncer_event = NewBlock u32 | ReorgedBlock u32

text \<open>\<open>u32::try_from\<close> on the \<open>i32\<close> block id of the database.\<close>

definition u32_try_from_i32 :: "i32 \<Rightarrow> u32 option" where
  "u32_try_from_i32 x = (if 0 \<le> sint x then Some x else None)"

definition bitcoin_syncer_event_try_from :: "string \<times> i32 \<Rightarrow> bitcoin_syncer_event result" where
  "bitcoin_syncer_event_try_from value =
     (if fst value = ''new_block''
      then rbind (expect (u32_try_from_i32 (snd value)) (Err ''Int conversion error for new_block''))
             (\<lambda>id. Inr (NewBlock id))
      else if fst value = ''reorged_block''
      then rbind (expect (u32_try_from_i32 (snd value)) (Err ''Int conversion error for reorged_block''))
             (\<lambda>id. Inr (ReorgedBlock id))
      else Inl (Err ''Invalid event type''))"

section \<open>Transaction types in the gRPC interface\<close>

text \<open>
  \<open>NormalTransactionId\<close> and \<open>NumberedTransactionType\<close> travel as their \<open>i32\<close> discriminants.
\<close>

datatype normal_transaction_id =
    N_Unspecified | N_Round | N_Kickoff | N_MoveToVault | N_Payout | N_Challenge | N_Disprove
  | N_DisproveTimeout | N_Reimburse | N_AllNeededForDeposit | N_Dummy | N_ReadyToReimburse
  | N_KickoffNotFinalized | N_ChallengeTimeout | N_BurnUnusedKickoffConnectors | N_YieldKickoffTxid
  | N_ReplacementDeposit | N_LatestBlockhashTimeout | N_LatestBlockhash | N_OptimisticPayout

fun normal_transaction_code :: "normal_transaction_id \<Rightarrow> i32" where
  "normal_transaction_code N_Unspecified = 0"
| "normal_transaction_code N_Round = 1"
| "normal_transaction_code N_Kickoff = 2"
| "normal_transaction_code N_MoveToVault = 3"
| "normal_transaction_code N_Payout = 4"
| "normal_transaction_code N_Challenge = 5"
| "normal_transaction_code N_Disprove = 6"
| "normal_transaction_code N_DisproveTimeout = 7"
| "normal_transaction_code N_Reimburse = 8"
| "normal_transaction_code N_AllNeededForDeposit = 9"
| "normal_transaction_code N_Dummy = 10"
| "normal_transaction_code N_ReadyToReimburse = 11"
| "normal_transaction_code N_KickoffNotFinalized = 12"
| "normal_transaction_code N_ChallengeTimeout = 13"
| "normal_transaction_code N_BurnUnusedKickoffConnectors = 14"
| "normal_transaction_code N_YieldKickoffTxid = 15"
| "normal_transaction_code N_ReplacementDeposit = 17"
| "normal_transaction_code N_LatestBlockhashTimeout = 18"
| "normal_transaction_code N_LatestBlockhash = 19"
| "normal_transaction_code N_OptimisticPayout = 20"

datatype numbered_transaction_type =
    Num_Unspecified | Num_WatchtowerChallenge | Num_OperatorChallengeNack | Num_OperatorChallengeAck
  | Num_AssertTimeout | Num_UnspentKickoff | Num_MiniAssert | Num_WatchtowerChallengeTimeout

fun numbered_transaction_code :: "numbered_transaction_type \<Rightarrow> i32" where
  "numbered_transaction_code Num_Unspecified = 0"
| "numbered_transaction_code Num_WatchtowerChallenge = 1"
| "numbered_transaction_code Num_OperatorChallengeNack = 2"
| "numbered_transaction_code Num_OperatorChallengeAck = 3"
| "numbered_transaction_code Num_AssertTimeout = 4"
| "numbered_transaction_code Num_UnspentKickoff = 5"
| "numbered_transaction_code Num_MiniAssert = 6"
| "numbered_transaction_code Num_WatchtowerChallengeTimeout = 7"

text \<open>The derived \<open>try_from(i32)\<close> of an enumeration finds the variant with that discriminant.\<close>

definition normal_transaction_ids :: "normal_transaction_id list" where
  "normal_transaction_ids =
     [N_Unspecified, N_Round, N_Kickoff, N_MoveToVault, N_Payout, N_Challenge, N_Disprove,
      N_DisproveTimeout, N_Reimburse, N_AllNeededForDeposit, N_Dummy, N_ReadyToReimburse,
      N_KickoffNotFinalized, N_ChallengeTimeout, N_BurnUnusedKickoffConnectors, N_YieldKickoffTxid,
      N_ReplacementDeposit, N_LatestBlockhashTimeout, N_LatestBlockhash, N_OptimisticPayout]"

definition numbered_transaction_types :: "numbered_transaction_type list" where
  "numbered_transaction_types =
     [Num_Unspecified, Num_WatchtowerChallenge, Num_OperatorChallengeNack, Num_OperatorChallengeAck,
      Num_AssertTimeout, Num_UnspentKickoff, Num_MiniAssert, Num_WatchtowerChallengeTimeout]"

definition normal_try_from :: "i32 \<Rightarrow> normal_transaction_id option" where
  "normal_try_from code = find (\<lambda>v. normal_transaction_code v = code) normal_transaction_ids"

definition numbered_try_from :: "i32 \<Rightarrow> numbered_transaction_type option" where
  "numbered_try_from code = find (\<lambda>v. numbered_transaction_code v = code) numbered_transaction_types"

datatype grpc_id = NormalTransaction i32 | NumberedTransaction i32 i32

record grpc_transaction_id =
  grpc_id :: "grpc_id option"

text \<open>\<open>index as usize\<close> sign-extends the \<open>i32\<close> to 64 bits.\<close>

definition usize_of_i32 :: "i32 \<Rightarrow> nat" where
  "usize_of_i32 x = unat (scast x :: u64)"

definition unknown_enum_value :: error where
  "unknown_enum_value = Err ''UnknownEnumValue''"

fun normal_transaction_type :: "normal_transaction_id \<Rightarrow> transaction_type result" where
  "normal_transaction_type N_Round = Inr Tx_Round"
| "normal_transaction_type N_Kickoff = Inr Tx_Kickoff"
| "normal_transaction_type N_MoveToVault = Inr Tx_MoveToVault"
| "normal_transaction_type N_Payout = Inr Tx_Payout"
| "normal_transaction_type N_Challenge = Inr Tx_Challenge"
| "normal_transaction_type N_Disprove = Inr Tx_Disprove"
| "normal_transaction_type N_DisproveTimeout = Inr Tx_DisproveTimeout"
| "normal_transaction_type N_Reimburse = Inr Tx_Reimburse"
| "normal_transaction_type N_AllNeededForDeposit = Inr Tx_AllNeededForDeposit"
| "normal_transaction_type N_Dummy = Inr Tx_Dummy"
| "normal_transaction_type N_ReadyToReimburse = Inr Tx_ReadyToReimburse"
| "normal_transaction_type N_KickoffNotFinalized = Inr Tx_KickoffNotFinalized"
| "normal_transaction_type N_ChallengeTimeout = Inr Tx_ChallengeTimeout"
| "normal_transaction_type N_Unspecified = Inl unknown_enum_value"
| "normal_transaction_type N_BurnUnusedKickoffConnectors = Inr Tx_BurnUnusedKickoffConnectors"
| "normal_transaction_type N_YieldKickoffTxid = Inr Tx_YieldKickoffTxid"
| "normal_transaction_type N_ReplacementDeposit = Inr Tx_ReplacementDeposit"
| "normal_transaction_type N_LatestBlockhashTimeout = Inr Tx_LatestBlockhashTimeout"
| "normal_transaction_type N_LatestBlockhash = Inr Tx_LatestBlockhash"
| "normal_transaction_type N_OptimisticPayout = Inr Tx_OptimisticPayout"

fun numbered_transaction_type_of :: "numbered_transaction_type \<Rightarrow> nat \<Rightarrow> transaction_type result" where
  "numbered_transaction_type_of Num_WatchtowerChallenge idx = Inr (Tx_WatchtowerChallenge idx)"
| "numbered_transaction_type_of Num_OperatorChallengeNack idx = Inr (Tx_OperatorChallengeNack idx)"
| "numbered_transaction_type_of Num_OperatorChallengeAck idx = Inr (Tx_OperatorChallengeAck idx)"
| "numbered_transaction_type_of Num_AssertTimeout idx = Inr (Tx_AssertTimeout idx)"
| "numbered_transaction_type_of Num_UnspentKickoff idx = Inr (Tx_UnspentKickoff idx)"
| "numbered_transaction_type_of Num_MiniAssert idx = Inr (Tx_MiniAssert idx)"
| "numbered_transaction_type_of Num_WatchtowerChallengeTimeout idx = Inr (Tx_WatchtowerChallengeTimeout idx)"
| "numbered_transaction_type_of Num_Unspecified idx = Inl unknown_enum_value"

definition transaction_type_try_from :: "grpc_transaction_id \<Rightarrow> transaction_type result" where
  "transaction_type_try_from value =
     rbind (expect (grpc_id value) unknown_enum_value) (\<lambda>inner_id.
     case inner_id of
       NormalTransaction idx \<Rightarrow>
         rbind (expect (normal_try_from idx) unknown_enum_value) normal_transaction_type
     | NumberedTransaction ty index \<Rightarrow>
         rbind (expect (numbered_try_from ty) unknown_enum_value)
           (\<lambda>tx_type. numbered_transaction_type_of tx_type (usize_of_i32 index)))"

definition numbered_grpc_id :: "numbered_transaction_type \<Rightarrow> nat \<Rightarrow> grpc_id" where
  "numbered_grpc_id ty index = NumberedTransaction (numbered_transaction_code ty) (of_nat index)"

fun grpc_id_of :: "transaction_type \<Rightarrow> grpc_id" where
  "grpc_id_of Tx_Round = NormalTransaction (normal_transaction_code N_Round)"
| "grpc_id_of Tx_Kickoff = NormalTransaction (normal_transaction_code N_Kickoff)"
| "grpc_id_of Tx_MoveToVault = NormalTransaction (normal_transaction_code N_MoveToVault)"
| "grpc_id_of Tx_Payout = NormalTransaction (normal_transaction_code N_Payout)"
| "grpc_id_of Tx_Challenge = NormalTransaction (normal_transaction_code N_Challenge)"
| "grpc_id_of Tx_Disprove = NormalTransaction (normal_transaction_code N_Disprove)"
| "grpc_id_of Tx_DisproveTimeout = NormalTransaction (normal_transaction_code N_DisproveTimeout)"
| "grpc_id_of Tx_Reimburse = NormalTransaction (normal_transaction_code N_Reimburse)"
| "grpc_id_of Tx_AllNeededForDeposit = NormalTransaction (normal_transaction_code N_AllNeededForDeposit)"
| "grpc_id_of Tx_Dummy = NormalTransaction (normal_transaction_code N_Dummy)"
| "grpc_id_of Tx_ReadyToReimburse = NormalTransaction (normal_transaction_code N_ReadyToReimburse)"
| "grpc_id_of Tx_KickoffNotFinalized = NormalTransaction (normal_transaction_code N_KickoffNotFinalized)"
| "grpc_id_of Tx_ChallengeTimeout = NormalTransaction (normal_transaction_code N_ChallengeTimeout)"
| "grpc_id_of Tx_ReplacementDeposit = NormalTransaction (normal_transaction_code N_ReplacementDeposit)"
| "grpc_id_of Tx_LatestBlockhashTimeout = NormalTransaction (normal_transaction_code N_LatestBlockhashTimeout)"
| "grpc_id_of Tx_LatestBlockhash = NormalTransaction (normal_transaction_code N_LatestBlockhash)"
| "grpc_id_of Tx_OptimisticPayout = NormalTransaction (normal_transaction_code N_OptimisticPayout)"
| "grpc_id_of (Tx_WatchtowerChallenge index) = numbered_grpc_id Num_WatchtowerChallenge index"
| "grpc_id_of (Tx_OperatorChallengeNack index) = numbered_grpc_id Num_OperatorChallengeNack index"
| "grpc_id_of (Tx_OperatorChallengeAck index) = numbered_grpc_id Num_OperatorChallengeAck index"
| "grpc_id_of (Tx_AssertTimeout index) = numbered_grpc_id Num_AssertTimeout index"
| "grpc_id_of (Tx_UnspentKickoff index) = numbered_grpc_id Num_UnspentKickoff index"
| "grpc_id_of (Tx_MiniAssert index) = numbered_grpc_id Num_MiniAssert index"
| "grpc_id_of (Tx_WatchtowerChallengeTimeout index) = numbered_grpc_id Num_WatchtowerChallengeTimeout index"
| "grpc_id_of Tx_BurnUnusedKickoffConnectors = NormalTransaction (normal_transaction_code N_BurnUnusedKickoffConnectors)"
| "grpc_id_of Tx_YieldKickoffTxid = NormalTransaction (normal_transaction_code N_YieldKickoffTxid)"
| "grpc_id_of Tx_EmergencyStop = NormalTransaction (normal_transaction_code N_Unspecified)"

definition grpc_transaction_id_from :: "transaction_type \<Rightarrow> grpc_transaction_id" where
  "grpc_transaction_id_from value = \<lparr>grpc_id = Some (grpc_id_of value)\<rparr>"

section \<open>Amounts\<close>

text \<open>
  \<open>bitcoin::Amount\<close> holds satoshis as \<open>u64\<close>; its operators panic on overflow, the checked ones
  return nothing.
\<close>

type_synonym amount = u64
type_synonym u16 = "16 word"

definition amount_checked_add :: "amount \<Rightarrow> amount \<Rightarrow> amount option" where
  "amount_checked_add a b = (if unat a + unat b < 2 ^ 64 then Some (a + b) else None)"

definition amount_checked_sub :: "amount \<Rightarrow> amount \<Rightarrow> amount option" where
  "amount_checked_sub a b = (if unat b \<le> unat a then Some (a - b) else None)"

definition amount_checked_mul :: "amount \<Rightarrow> u64 \<Rightarrow> amount option" where
  "amount_checked_mul a b = (if unat a * unat b < 2 ^ 64 then Some (a * b) else None)"

definition amount_add :: "amount \<Rightarrow> amount \<Rightarrow> amount result" where
  "amount_add a b = expect (amount_checked_add a b) (Panic ''Amount addition error'')"

definition amount_sub :: "amount \<Rightarrow> amount \<Rightarrow> amount result" where
  "amount_sub a b = expect (amount_checked_sub a b) (Panic ''Amount subtraction error'')"

definition amount_mul :: "amount \<Rightarrow> u64 \<Rightarrow> amount result" where
  "amount_mul a b = expect (amount_checked_mul a b) (Panic ''Amount multiplication error'')"

section \<open>Protocol parameters\<close>

datatype btc_network = Net_Bitcoin | Net_Testnet | Net_Testnet4 | Net_Signet | Net_Regtest

definition BLOCKS_PER_HOUR :: u16 where
  "BLOCKS_PER_HOUR = 6"

definition WINTERNITZ_LOG_D :: u32 where
  "WINTERNITZ_LOG_D = 4"

definition MIN_TAPROOT_AMOUNT :: amount where
  "MIN_TAPROOT_AMOUNT = 330"

definition NON_EPHEMERAL_ANCHOR_AMOUNT :: amount where
  "NON_EPHEMERAL_ANCHOR_AMOUNT = 240"

definition NON_STANDARD_V3 :: i32 where
  "NON_STANDARD_V3 = 3"

record protocol_paramset =
  network :: btc_network
  num_round_txs :: nat
  num_kickoffs_per_round :: nat
  num_signed_kickoffs :: nat
  bridge_amount :: amount
  kickoff_amount :: amount
  operator_challenge_amount :: amount
  collateral_funding_amount :: amount
  kickoff_blockhash_commit_length :: u32
  watchtower_challenge_bytes :: nat
  winternitz_log_d :: u32
  user_takes_after :: u16
  operator_challenge_timeout_timelock :: u16
  operator_challenge_nack_timelock :: u16
  disprove_timeout_timelock :: u16
  assert_timeout_timelock :: u16
  latest_blockhash_timeout_timelock :: u16
  operator_reimburse_timelock :: u16
  watchtower_challenge_timeout_timelock :: u16
  finality_depth :: u32
  start_height :: u32
  genesis_height :: u32
  genesis_chain_state_hash :: bytes
  bridge_nonstandard :: bool

definition default_utxo_amount :: "protocol_paramset \<Rightarrow> amount" where
  "default_utxo_amount paramset = (if bridge_nonstandard paramset then 0 else MIN_TAPROOT_AMOUNT)"

definition anchor_amount :: "protocol_paramset \<Rightarrow> amount" where
  "anchor_amount paramset = (if bridge_nonstandard paramset then 0 else NON_EPHEMERAL_ANCHOR_AMOUNT)"

definition is_block_finalized :: "protocol_paramset \<Rightarrow> u32 \<Rightarrow> u32 \<Rightarrow> bool" where
  "is_block_finalized paramset block_height chain_tip_height =
     (if block_height > chain_tip_height then False
      else chain_tip_height - block_height + 1 \<ge> finality_depth paramset)"

definition is_regtest :: "protocol_paramset \<Rightarrow> bool" where
  "is_regtest paramset \<longleftrightarrow> network paramset = Net_Regtest"

definition REGTEST_PARAMSET :: protocol_paramset where
  "REGTEST_PARAMSET =
     \<lparr>network = Net_Regtest, num_round_txs = 2, num_kickoffs_per_round = 10, num_signed_kickoffs = 2,
      bridge_amount = 1000000000, kickoff_amount = 0, operator_challenge_amount = 200000000,
      collateral_funding_amount = 99000000, kickoff_blockhash_commit_length = 40,
      watchtower_challenge_bytes = 144, winternitz_log_d = WINTERNITZ_LOG_D, user_takes_after = 200,
      operator_challenge_timeout_timelock = 4 * BLOCKS_PER_HOUR,
      operator_challenge_nack_timelock = 4 * BLOCKS_PER_HOUR * 3,
      disprove_timeout_timelock = 4 * BLOCKS_PER_HOUR * 5,
      assert_timeout_timelock = 4 * BLOCKS_PER_HOUR * 4,
      latest_blockhash_timeout_timelock = 4 * BLOCKS_PER_HOUR * 5 div 2,
      operator_reimburse_timelock = 2,
      watchtower_challenge_timeout_timelock = 4 * BLOCKS_PER_HOUR * 2,
      finality_depth = 5, start_height = 190, genesis_height = 0,
      genesis_chain_state_hash =
        [95, 115, 2, 173, 22, 200, 189, 158, 242, 243, 190, 0, 200, 25, 154, 134, 249, 224, 186,
         134, 20, 132, 171, 180, 175, 95, 126, 69, 127, 140, 34, 22],
      bridge_nonstandard = True\<rparr>"

section \<open>Lemmas\<close>

lemma to_from_index [simp]: "to_index (from_index i) = i" "from_index (to_index r) = r"
  by (cases i; simp add: from_index_def) (cases r; simp add: from_index_def)

lemma to_index_next_round [simp]: "to_index (next_round r) = Suc (to_index r)"
  by (cases r) simp_all

lemma normal_try_from_code [simp]: "normal_try_from (normal_transaction_code v) = Some v"
  by (cases v) (simp_all add: normal_try_from_def normal_transaction_ids_def)

lemma numbered_try_from_code [simp]: "numbered_try_from (numbered_transaction_code v) = Some v"
  by (cases v) (simp_all add: numbered_try_from_def numbered_transaction_types_def)

lemma usize_of_i32_of_nat [simp]:
  assumes "index < 2 ^ 31"
  shows "usize_of_i32 (of_nat index) = index"
proof -
  have "sint (of_nat index :: i32) = int index"
    using assms by transfer (simp add: signed_take_bit_int_eq_self)
  then have "(scast (of_nat index :: i32) :: u64) = of_nat index"
    by (metis of_int_of_nat_eq of_int_sint)
  then show ?thesis using assms by (simp add: usize_of_i32_def take_bit_nat_eq_self)
qed

lemma amount_add_eq_Inr: "amount_add a b = Inr c \<longleftrightarrow> unat a + unat b < 2 ^ 64 \<and> c = a + b"
  by (auto simp: amount_add_def amount_checked_add_def expect_def)

lemma amount_sub_eq_Inr: "amount_sub a b = Inr c \<longleftrightarrow> unat b \<le> unat a \<and> c = a - b"
  by (auto simp: amount_sub_def amount_checked_sub_def expect_def)

lemma amount_mul_eq_Inr: "amount_mul a b = Inr c \<longleftrightarrow> unat a * unat b < 2 ^ 64 \<and> c = a * b"
  by (auto simp: amount_mul_def amount_checked_mul_def expect_def)

lemma amount_checked_Some:
  "amount_checked_add a b = Some c \<longleftrightarrow> unat a + unat b < 2 ^ 64 \<and> c = a + b"
  "amount_checked_sub a b = Some c \<longleftrightarrow> unat b \<le> unat a \<and> c = a - b"
  "amount_checked_mul a b = Some c \<longleftrightarrow> unat a * unat b < 2 ^ 64 \<and> c = a * b"
  by (auto simp: amount_checked_add_def amount_checked_sub_def amount_checked_mul_def)

fun type_index :: "transaction_type \<Rightarrow> nat" where
  "type_index (Tx_AssertTimeout i) = i"
| "type_index (Tx_MiniAssert i) = i"
| "type_index (Tx_OperatorChallengeAck i) = i"
| "type_index (Tx_OperatorChallengeNack i) = i"
| "type_index (Tx_UnspentKickoff i) = i"
| "type_index (Tx_WatchtowerChallenge i) = i"
| "type_index (Tx_WatchtowerChallengeTimeout i) = i"
| "type_index _ = 0"

text \<open>
  Every transaction type survives the trip through the gRPC interface, up to the first index
  that does not fit an \<open>i32\<close>; the emergency stop is the one type the interface cannot carry.
\<close>

theorem grpc_transaction_type_roundtrip:
  assumes "type_index t < 2 ^ 31"
  shows "transaction_type_try_from (grpc_transaction_id_from t) =
           (if t = Tx_EmergencyStop then Inl unknown_enum_value else Inr t)"
  using assms
  by (cases t)
    (simp_all add: transaction_type_try_from_def grpc_transaction_id_from_def numbered_grpc_id_def expect_def
      del: normal_transaction_code.simps numbered_transaction_code.simps)

theorem grpc_transaction_type_roundtrip_witness:
  "type_index (Tx_MiniAssert 35) < 2 ^ 31 \<and>
   transaction_type_try_from (grpc_transaction_id_from (Tx_MiniAssert 35)) = Inr (Tx_MiniAssert 35)"
  using grpc_transaction_type_roundtrip [of "Tx_MiniAssert 35"] by simp

end
