(* ===== verification/Taproot_Tree.thy ===== *)
theory Taproot_Tree
  imports Protocol_Params Circuit_Tx
begin

text \<open>
  Taproot script trees (\<open>src/crates/clementine-utils/src/address.rs\<close>). \<open>TaprootBuilder\<close>, the keys of a
  finished tree and addresses are those of the \<open>bitcoin\<close> crate: the parameter \<open>T\<close>. A builder is the
  list of the nodes added to it, each with its depth; the spend info of a finished tree is that list
  and the internal key.
\<close>

section \<open>The taproot builder\<close>

datatype tap_node = TapLeaf bytes | TapHidden bytes

type_synonym taproot_builder = "(u8 \<times> tap_node) list"
type_synonym address = bytes

record spend_info =
  si_nodes :: taproot_builder
  si_internal_key :: bytes

record taproot_api =
  tb_accepts :: "taproot_builder \<Rightarrow> u8 \<times> tap_node \<Rightarrow> bool"
  tb_finalizable :: "taproot_builder \<Rightarrow> bool"
  output_key :: "spend_info \<Rightarrow> bytes"
  tap_merkle_root :: "spend_info \<Rightarrow> bytes option"
  in_script_map :: "spend_info \<Rightarrow> bytes \<Rightarrow> bool"
  control_block :: "spend_info \<Rightarrow> bytes \<Rightarrow> bytes option"
  p2tr_script :: "bytes \<Rightarrow> bytes"
  p2tr_tweaked :: "bytes \<Rightarrow> btc_network \<Rightarrow> address"
  p2tr :: "bytes \<Rightarrow> bytes option \<Rightarrow> btc_network \<Rightarrow> address"
  address_script_pubkey :: "address \<Rightarrow> bytes"

definition add_node :: "taproot_api \<Rightarrow> u8 \<Rightarrow> tap_node \<Rightarrow> taproot_builder \<Rightarrow> taproot_builder option" where
  "add_node T depth node b = (if tb_accepts T b (depth, node) then Some (b @ [(depth, node)]) else None)"

definition add_leaf :: "taproot_api \<Rightarrow> u8 \<Rightarrow> bytes \<Rightarrow> taproot_builder \<Rightarrow> taproot_builder option" where
  "add_leaf T depth script b = add_node T depth (TapLeaf script) b"

definition add_hidden_node :: "taproot_api \<Rightarrow> u8 \<Rightarrow> bytes \<Rightarrow> taproot_builder \<Rightarrow> taproot_builder option" where
  "add_hidden_node T depth hash b = add_node T depth (TapHidden hash) b"

definition tb_finalize :: "taproot_api \<Rightarrow> bytes \<Rightarrow> taproot_builder \<Rightarrow> spend_info option" where
  "tb_finalize T key b =
     (if tb_finalizable T b then Some \<lparr>si_nodes = b, si_internal_key = key\<rparr> else None)"

section \<open>Balanced script trees\<close>

definition ilog2 :: "nat \<Rightarrow> nat" where
  "ilog2 n = bit_len n - 1"

definition UNSPENDABLE_XONLY_PUBKEY :: bytes where
  "UNSPENDABLE_XONLY_PUBKEY =
     [0x50, 0x92, 0x9b, 0x74, 0xc1, 0xa0, 0x49, 0x54, 0xb7, 0x8b, 0x4b, 0x60, 0x35, 0xe9, 0x7a, 0x5e,
      0x07, 0x8a, 0x5a, 0x0f, 0x28, 0xec, 0x96, 0xd5, 0x47, 0xbf, 0xee, 0x9a, 0xce, 0x80, 0x3a, 0xc0]"

definition deepest_layer_depth :: "nat \<Rightarrow> u8" where
  "deepest_layer_depth num_scripts = of_nat (ilog2 (num_scripts - 1) + 1)"

definition num_nodes_in_final_depth :: "nat \<Rightarrow> nat" where
  "num_nodes_in_final_depth num_scripts =
     (let num_empty_nodes_in_final_depth = 2 ^ unat (deepest_layer_depth num_scripts) - num_scripts
      in num_scripts - num_empty_nodes_in_final_depth)"

definition taproot_builder_with_scripts :: "taproot_api \<Rightarrow> bytes list \<Rightarrow> taproot_builder result" where
  "taproot_builder_with_scripts T scripts =
     (if length scripts = 0 then Inr []
      else if length scripts = 1
      then expect (add_leaf T 0 (scripts ! 0) []) (Panic ''one root leaf added on empty builder'')
      else rfold (\<lambda>(i, script) acc.
             let is_node_in_last_minus_one_depth =
                   (if i \<ge> num_nodes_in_final_depth (length scripts) then 1 else 0)
             in expect (add_leaf T (deepest_layer_depth (length scripts) - is_node_in_last_minus_one_depth) script acc)
                  (Panic ''algorithm tested to be correct''))
             (zip [0..<length scripts] scripts) [])"

definition calculate_taproot_leaf_depths :: "nat \<Rightarrow> u8 list" where
  "calculate_taproot_leaf_depths num_scripts =
     (if num_scripts = 0 then []
      else if num_scripts = 1 then [0]
      else map (\<lambda>i. let is_node_in_last_minus_one_depth =
                          (if i \<ge> num_nodes_in_final_depth num_scripts then 1 else 0)
                    in deepest_layer_depth num_scripts - is_node_in_last_minus_one_depth)
             [0..<num_scripts])"

definition create_taproot_address ::
  "taproot_api \<Rightarrow> bytes list \<Rightarrow> bytes option \<Rightarrow> btc_network \<Rightarrow> (address \<times> spend_info) result" where
  "create_taproot_address T scripts internal_key net =
     rbind (taproot_builder_with_scripts T scripts) (\<lambda>builder.
     rbind (expect (tb_finalize T
              (case internal_key of Some xonly_pk \<Rightarrow> xonly_pk | None \<Rightarrow> UNSPENDABLE_XONLY_PUBKEY) builder)
              (Panic ''builder return is finalizable'')) (\<lambda>tree_info.
     Inr (p2tr_tweaked T (output_key T tree_info) net, tree_info)))"

definition is_p2a_anchor :: "tx_out \<Rightarrow> bool" where
  "is_p2a_anchor output \<longleftrightarrow> script_pubkey output = [0x51, 0x02, 0x4e, 0x73]"

section \<open>What the builder accepts\<close>

text \<open>
  The builder takes the nodes of a binary tree in depth-first order (BIP 341 trees, at most 128
  deep). \<open>dfs_add\<close> is that discipline on depths alone: the list holds the depths of the finished
  subtrees that still wait for a right sibling, the deepest first; a node completes every waiting
  subtree of its own depth, and \<open>[0]\<close> is a complete tree.
\<close>

fun dfs_add :: "nat \<Rightarrow> nat list \<Rightarrow> nat list option" where
  "dfs_add d [] = Some [d]"
| "dfs_add d (t # st) =
     (if t = 0 \<or> d < t then None else if d = t then dfs_add (d - 1) st else Some (d # t # st))"

fun dfs_run :: "nat list \<Rightarrow> nat list \<Rightarrow> nat list option" where
  "dfs_run st [] = Some st"
| "dfs_run st (d # ds) = Option.bind (dfs_add d st) (\<lambda>st'. dfs_run st' ds)"

definition node_depths :: "taproot_builder \<Rightarrow> nat list" where
  "node_depths b = map (unat \<circ> fst) b"

text \<open>
  The documented behaviour of the crate: \<open>add_leaf\<close> and \<open>add_hidden_node\<close> take a node at a depth of
  at most 128 in depth-first order, \<open>finalize\<close> takes a complete tree or the empty one, the script
  map of a tree has exactly its leaves and gives each a control block, and a taproot address pays to
  the witness program of its output key, which the internal key and the merkle root determine.
\<close>

definition taproot_laws :: "taproot_api \<Rightarrow> bool" where
  "taproot_laws T \<longleftrightarrow>
     (\<forall>b d node. tb_accepts T b (d, node) \<longleftrightarrow>
        unat d \<le> 128 \<and> dfs_run [] (node_depths b @ [unat d]) \<noteq> None) \<and>
     (\<forall>b. tb_finalizable T b \<longleftrightarrow> b = [] \<or> dfs_run [] (node_depths b) = Some [0]) \<and>
     (\<forall>si script. in_script_map T si script \<longleftrightarrow> TapLeaf script \<in> snd ` set (si_nodes si)) \<and>
     (\<forall>si script. control_block T si script \<noteq> None \<longleftrightarrow> in_script_map T si script) \<and>
     (\<forall>key net. address_script_pubkey T (p2tr_tweaked T key net) = p2tr_script T key) \<and>
     (\<forall>si net. p2tr T (si_internal_key si) (tap_merkle_root T si) net = p2tr_tweaked T (output_key T si) net)"

lemma taproot_lawsD:
  assumes "taproot_laws T"
  shows "tb_accepts T b (d, node) \<longleftrightarrow> unat d \<le> 128 \<and> dfs_run [] (node_depths b @ [unat d]) \<noteq> None"
    and "tb_finalizable T b \<longleftrightarrow> b = [] \<or> dfs_run [] (node_depths b) = Some [0]"
    and "in_script_map T si script \<longleftrightarrow> TapLeaf script \<in> snd ` set (si_nodes si)"
    and "control_block T si script \<noteq> None \<longleftrightarrow> in_script_map T si script"
    and "address_script_pubkey T (p2tr_tweaked T key net) = p2tr_script T key"
    and "p2tr T (si_internal_key si) (tap_merkle_root T si) net = p2tr_tweaked T (output_key T si) net"
  using assms unfolding taproot_laws_def by blast+

section \<open>Balanced trees are complete\<close>

lemma dfs_run_append: "dfs_run st (xs @ ys) = Option.bind (dfs_run st xs) (\<lambda>st'. dfs_run st' ys)"
  by (induction xs arbitrary: st) (simp_all split: Option.bind_split)

definition fits :: "nat list \<Rightarrow> nat \<Rightarrow> bool" where
  "fits st d \<longleftrightarrow> (case st of [] \<Rightarrow> True | t # _ \<Rightarrow> t \<le> d)"

lemma dfs_add_fits: "dfs_add d st = Some st' \<Longrightarrow> fits st' d"
  by (induction d st rule: dfs_add.induct) (auto simp: fits_def split: if_splits list.splits)

lemma dfs_add_pair: "fits st d \<Longrightarrow> Option.bind (dfs_add (Suc d) st) (dfs_add (Suc d)) = dfs_add d st"
  by (cases st) (auto simp: fits_def)

lemma dfs_run_pairs: "fits st d \<Longrightarrow> dfs_run st (replicate (2 * m) (Suc d)) = dfs_run st (replicate m d)"
proof (induction m arbitrary: st)
  case 0
  then show ?case by simp
next
  case (Suc m)
  have "dfs_run st (replicate (2 * Suc m) (Suc d)) =
        Option.bind (Option.bind (dfs_add (Suc d) st) (dfs_add (Suc d))) (\<lambda>st'. dfs_run st' (replicate (2 * m) (Suc d)))"
    by simp
  also have "\<dots> = Option.bind (dfs_add d st) (\<lambda>st'. dfs_run st' (replicate (2 * m) (Suc d)))"
    using dfs_add_pair [OF Suc.prems] by simp
  also have "\<dots> = Option.bind (dfs_add d st) (\<lambda>st'. dfs_run st' (replicate m d))"
    by (rule Option.bind_cong) (auto intro: Suc.IH dest: dfs_add_fits)
  finally show ?case by simp
qed

lemma fits_mono: "fits st k \<Longrightarrow> k \<le> d \<Longrightarrow> fits st d"
  by (auto simp: fits_def split: list.splits)

lemma dfs_run_layer: "fits st k \<Longrightarrow> dfs_run st (replicate (2 ^ d) (k + d)) = dfs_add k st"
proof (induction d)
  case 0
  then show ?case by (cases "dfs_add k st") simp_all
next
  case (Suc d)
  have "dfs_run st (replicate (2 * 2 ^ d) (Suc (k + d))) = dfs_run st (replicate (2 ^ d) (k + d))"
    using Suc.prems fits_mono by (intro dfs_run_pairs) auto
  with Suc.IH [OF Suc.prems] show ?case by simp
qed

lemma dfs_run_two_layers:
  assumes "fits st k" "2 * m + l = 2 ^ Suc d - l'" "m + l = 2 ^ d"
  shows "dfs_run st (replicate (2 * m) (k + Suc d) @ replicate l (k + d)) = dfs_add k st"
proof -
  have "dfs_run st (replicate (2 * m) (Suc (k + d))) = dfs_run st (replicate m (k + d))"
    using assms(1) fits_mono by (intro dfs_run_pairs) auto
  then have "dfs_run st (replicate (2 * m) (k + Suc d) @ replicate l (k + d)) =
             dfs_run st (replicate m (k + d) @ replicate l (k + d))"
    by (simp add: dfs_run_append)
  also have "\<dots> = dfs_run st (replicate (2 ^ d) (k + d))" using assms(3) by (simp flip: replicate_add)
  finally show ?thesis using dfs_run_layer [OF assms(1)] by simp
qed

lemma layer_counts:
  assumes "2 \<le> n" "n \<le> 2 ^ 63"
  obtains d m where "unat (deepest_layer_depth n) = Suc d" "d < 63" "num_nodes_in_final_depth n = 2 * m"
    "m + (n - 2 * m) = 2 ^ d" "2 * m \<le> n"
proof -
  define b where "b = bit_len (n - 1)"
  have pos: "0 < n - 1" using assms by simp
  have lo: "2 ^ (b - 1) \<le> n - 1" and hi: "n - 1 < 2 ^ b" and b: "0 < b"
    using bit_len_bounds [of "n - 1"] bit_len_pos [of "n - 1"] pos unfolding b_def by auto
  have "(2 :: nat) ^ (b - 1) < 2 ^ 63" using lo assms by linarith
  then have b63: "b - 1 < 63" by (rule power_less_imp_less_exp [rotated]) simp
  have depth: "unat (deepest_layer_depth n) = b"
    unfolding deepest_layer_depth_def ilog2_def b_def [symmetric] using b b63 unat_u8_of_nat [of b] by simp
  have pow: "(2 :: nat) ^ b = 2 * 2 ^ (b - 1)" using b by (cases b) simp_all
  define m where "m = n - 2 ^ (b - 1)"
  have "num_nodes_in_final_depth n = n - (2 ^ b - n)" by (simp add: num_nodes_in_final_depth_def depth)
  also have "\<dots> = 2 * m" unfolding m_def pow using lo hi pow by linarith
  finally have nodes: "num_nodes_in_final_depth n = 2 * m" .
  have le: "2 * m \<le> n" and sum: "m + (n - 2 * m) = 2 ^ (b - 1)"
    unfolding m_def using lo hi pow by linarith+
  show thesis by (rule that [of "b - 1" m]) (use depth b b63 nodes sum le in auto)
qed

lemma map_two_layers:
  "map (\<lambda>i. if i \<ge> m then (b :: 'a) else a) [0..<n] = (if m \<le> n then replicate m a @ replicate (n - m) b else replicate n a)"
proof (cases "m \<le> n")
  case True
  have "[0..<n] = [0..<m] @ [m..<n]" using True by (metis le_add_diff_inverse upt_add_eq_append zero_le)
  then have "map (\<lambda>i. if i \<ge> m then b else a) [0..<n] =
             map (\<lambda>i. if i \<ge> m then b else a) [0..<m] @ map (\<lambda>i. if i \<ge> m then b else a) [m..<n]"
    by (simp only: map_append)
  also have "map (\<lambda>i. if i \<ge> m then b else a) [0..<m] = replicate m a"
    by (intro nth_equalityI) auto
  also have "map (\<lambda>i. if i \<ge> m then b else a) [m..<n] = replicate (n - m) b"
    by (intro nth_equalityI) auto
  finally show ?thesis using True by simp
next
  case False
  then show ?thesis by (auto intro!: nth_equalityI)
qed

lemma leaf_depths_run:
  assumes "0 < n" "n \<le> 2 ^ 63" "fits st k"
  shows "dfs_run st (map (\<lambda>d. k + unat d) (calculate_taproot_leaf_depths n)) = dfs_add k st"
    and "\<forall>d \<in> set (calculate_taproot_leaf_depths n). unat d \<le> 63"
proof -
  have "dfs_run st (map (\<lambda>d. k + unat d) (calculate_taproot_leaf_depths n)) = dfs_add k st \<and>
        (\<forall>d \<in> set (calculate_taproot_leaf_depths n). unat d \<le> 63)"
  proof (cases "n = 1")
    case True
    then show ?thesis by (cases "dfs_add k st") (simp_all add: calculate_taproot_leaf_depths_def)
  next
    case False
    with assms have "2 \<le> n" by simp
    from layer_counts [OF this assms(2)] obtain d m where
      dm: "unat (deepest_layer_depth n) = Suc d" "d < 63" "num_nodes_in_final_depth n = 2 * m"
          "m + (n - 2 * m) = 2 ^ d" "2 * m \<le> n" .
    have below: "unat (deepest_layer_depth n - 1) = d" using dm(1) by (metis Suc_eq_plus1 add_diff_cancel_right' unat_minus_one word_neq_0_conv nat.simps(3) unat_0)
    have depths: "calculate_taproot_leaf_depths n =
                  replicate (2 * m) (deepest_layer_depth n) @ replicate (n - 2 * m) (deepest_layer_depth n - 1)"
    proof -
      have "calculate_taproot_leaf_depths n =
            map (\<lambda>i. if i \<ge> 2 * m then deepest_layer_depth n - 1 else deepest_layer_depth n) [0..<n]"
        using \<open>2 \<le> n\<close> by (auto simp: calculate_taproot_leaf_depths_def dm(3) Let_def)
      then show ?thesis using dm(5) by (simp add: map_two_layers)
    qed
    have "dfs_run st (map (\<lambda>d. k + unat d) (calculate_taproot_leaf_depths n)) = dfs_add k st"
      using dfs_run_two_layers [OF assms(3), of m "n - 2 * m" d "2 ^ Suc d - n"] dm below
      by (simp add: depths)
    then show ?thesis using dm(1,2) below by (auto simp: depths)
  qed
  then show "dfs_run st (map (\<lambda>d. k + unat d) (calculate_taproot_leaf_depths n)) = dfs_add k st"
    and "\<forall>d \<in> set (calculate_taproot_leaf_depths n). unat d \<le> 63" by blast+
qed

text \<open>Nodes whose depths run through can be added one after the other.\<close>

definition add_all :: "taproot_api \<Rightarrow> error \<Rightarrow> (u8 \<times> tap_node) list \<Rightarrow> taproot_builder \<Rightarrow> taproot_builder result" where
  "add_all T e nodes b = rfold (\<lambda>(d, node) b. expect (add_node T d node b) e) nodes b"

lemma node_depths_append [simp]:
  "node_depths (a @ b) = node_depths a @ node_depths b" "node_depths ((d, n) # b) = unat d # node_depths b"
  "node_depths [] = []"
  by (simp_all add: node_depths_def)

lemma add_all_accepted:
  assumes "taproot_laws T" "dfs_run [] (node_depths b @ node_depths nodes) \<noteq> None"
    and "\<forall>n \<in> set nodes. unat (fst n) \<le> 128"
  shows "add_all T e nodes b = Inr (b @ nodes)"
  using assms(2,3)
proof (induction nodes arbitrary: b)
  case Nil
  then show ?case by (simp add: add_all_def)
next
  case (Cons n nodes)
  obtain d node where n: "n = (d, node)" by (cases n)
  have "dfs_run [] (node_depths b @ [unat d] @ node_depths nodes) \<noteq> None" using Cons.prems(1) n by simp
  then have "dfs_run [] (node_depths b @ [unat d]) \<noteq> None"
    by (metis append_assoc bind_eq_None_conv dfs_run_append)
  then have "tb_accepts T b (d, node)" using taproot_lawsD(1) [OF assms(1)] Cons.prems(2) n by simp
  then have "add_all T e (n # nodes) b = add_all T e nodes (b @ [n])"
    by (simp add: add_all_def n add_node_def expect_def)
  also have "\<dots> = Inr ((b @ [n]) @ nodes)"
    by (rule Cons.IH) (use Cons.prems n in simp_all)
  finally show ?case by simp
qed

lemma rfold_map_eq: "rfold f (map h xs) s = rfold (\<lambda>x. f (h x)) xs s"
  by (induction xs arbitrary: s) (auto simp: rbind_def split: sum.splits)

lemma builder_with_scripts_all:
  assumes "2 \<le> length scripts"
  shows "taproot_builder_with_scripts T scripts =
         add_all T (Panic ''algorithm tested to be correct'')
           (zip (calculate_taproot_leaf_depths (length scripts)) (map TapLeaf scripts)) []"
proof -
  let ?d = "\<lambda>i. deepest_layer_depth (length scripts) - (if i \<ge> num_nodes_in_final_depth (length scripts) then 1 else 0)"
  have "zip (calculate_taproot_leaf_depths (length scripts)) (map TapLeaf scripts) =
        map (\<lambda>(i, script). (?d i, TapLeaf script)) (zip [0..<length scripts] scripts)"
    using assms by (simp add: calculate_taproot_leaf_depths_def Let_def zip_map1 zip_map2 case_prod_unfold)
  then show ?thesis
    using assms unfolding taproot_builder_with_scripts_def add_all_def
    by (simp add: rfold_map_eq case_prod_unfold comp_def Let_def add_leaf_def)
qed

lemma builder_with_scripts_ok:
  assumes "taproot_laws T" "length scripts \<le> 2 ^ 63"
  defines "nodes \<equiv> zip (calculate_taproot_leaf_depths (length scripts)) (map TapLeaf scripts)"
  shows "taproot_builder_with_scripts T scripts = Inr nodes"
    and "tb_finalizable T nodes"
    and "map snd nodes = map TapLeaf scripts"
proof -
  have len: "length (calculate_taproot_leaf_depths (length scripts)) = length scripts"
    by (simp add: calculate_taproot_leaf_depths_def)
  then have nd: "node_depths nodes = map (\<lambda>d. 0 + unat d) (calculate_taproot_leaf_depths (length scripts))"
    by (simp add: nodes_def node_depths_def map_fst_zip flip: map_map)
  show snd: "map snd nodes = map TapLeaf scripts" by (simp add: nodes_def len map_snd_zip)
  have "taproot_builder_with_scripts T scripts = Inr nodes \<and> tb_finalizable T nodes"
  proof (cases "scripts = []")
    case True
    then show ?thesis
      by (simp add: taproot_builder_with_scripts_def nodes_def taproot_lawsD(2) [OF assms(1)])
  next
    case False
    then have n: "0 < length scripts" by simp
    have run: "dfs_run [] (node_depths nodes) = Some [0]"
      using leaf_depths_run(1) [OF n assms(2), of "[]" 0] by (simp add: nd fits_def)
    have small: "\<forall>n \<in> set nodes. unat (fst n) \<le> 128"
      using leaf_depths_run(2) [OF n assms(2), of "[]" 0] by (fastforce simp: nodes_def fits_def dest: set_zip_leftD)
    have "taproot_builder_with_scripts T scripts = Inr nodes"
    proof (cases "length scripts = 1")
      case True
      then obtain s where s: "scripts = [s]" by (cases scripts) auto
      then have "add_all T e nodes [] = Inr nodes" for e
        using add_all_accepted [OF assms(1), of "[]" nodes e] run small by simp
      then show ?thesis
        by (simp add: taproot_builder_with_scripts_def s add_all_def nodes_def calculate_taproot_leaf_depths_def
              add_leaf_def)
    next
      case False
      with n have "2 \<le> length scripts" by linarith
      then show ?thesis
        using add_all_accepted [OF assms(1), of "[]" nodes] run small
        by (simp add: builder_with_scripts_all nodes_def)
    qed
    with run show ?thesis by (simp add: taproot_lawsD(2) [OF assms(1)])
  qed
  then show "taproot_builder_with_scripts T scripts = Inr nodes" "tb_finalizable T nodes" by blast+
qed

lemma create_taproot_address_ok:
  assumes "taproot_laws T" "length scripts \<le> 2 ^ 63"
  obtains si where "create_taproot_address T scripts key net = Inr (p2tr_tweaked T (output_key T si) net, si)"
    "si_internal_key si = (case key of Some k \<Rightarrow> k | None \<Rightarrow> UNSPENDABLE_XONLY_PUBKEY)"
    "map snd (si_nodes si) = map TapLeaf scripts"
proof -
  note ok = builder_with_scripts_ok [OF assms]
  let ?nodes = "zip (calculate_taproot_leaf_depths (length scripts)) (map TapLeaf scripts)"
  let ?si = "\<lparr>si_nodes = ?nodes, si_internal_key = (case key of Some k \<Rightarrow> k | None \<Rightarrow> UNSPENDABLE_XONLY_PUBKEY)\<rparr>"
  show thesis
    by (rule that [of ?si]) (use ok in \<open>simp_all add: create_taproot_address_def tb_finalize_def expect_def\<close>)
qed

section \<open>A concrete builder\<close>

text \<open>The interface of the crate with the nodes themselves in place of the hashes of the tree.\<close>

definition node_bytes :: "tap_node \<Rightarrow> bytes" where
  "node_bytes node = (case node of TapLeaf s \<Rightarrow> 0 # s | TapHidden h \<Rightarrow> 1 # h)"

definition taproot_spec :: taproot_api where
  "taproot_spec =
     \<lparr>tb_accepts = (\<lambda>b (d, node). unat d \<le> 128 \<and> dfs_run [] (node_depths b @ [unat d]) \<noteq> None),
      tb_finalizable = (\<lambda>b. b = [] \<or> dfs_run [] (node_depths b) = Some [0]),
      output_key = (\<lambda>si. si_internal_key si @ concat (map (node_bytes \<circ> snd) (si_nodes si))),
      tap_merkle_root = (\<lambda>si. Some (concat (map (node_bytes \<circ> snd) (si_nodes si)))),
      in_script_map = (\<lambda>si script. TapLeaf script \<in> snd ` set (si_nodes si)),
      control_block = (\<lambda>si script. if TapLeaf script \<in> snd ` set (si_nodes si) then Some [0xc0] else None),
      p2tr_script = (\<lambda>key. 0x51 # 0x20 # key),
      p2tr_tweaked = (\<lambda>key net. key),
      p2tr = (\<lambda>key root net. key @ (case root of None \<Rightarrow> [] | Some r \<Rightarrow> r)),
      address_script_pubkey = (\<lambda>a. 0x51 # 0x20 # a)\<rparr>"

lemma taproot_spec_laws: "taproot_laws taproot_spec"
  by (simp add: taproot_laws_def taproot_spec_def)

section \<open>Properties\<close>

text \<open>
  C40. The script tree of an output can always be built: for any number of scripts that fits in
  memory no \<open>expect\<close> of \<open>taproot_builder_with_scripts\<close> and \<open>create_taproot_address\<close> fails, the tree has
  exactly the given scripts as its leaves, in their order, at the depths
  \<open>calculate_taproot_leaf_depths\<close> announces, and the address pays to its output key.
\<close>

theorem taproot_tree_always_builds:
  assumes "taproot_laws T" "length scripts \<le> 2 ^ 63"
  shows "\<exists>si. create_taproot_address T scripts key net = Inr (p2tr_tweaked T (output_key T si) net, si) \<and>
              taproot_builder_with_scripts T scripts = Inr (si_nodes si) \<and>
              map snd (si_nodes si) = map TapLeaf scripts \<and>
              map fst (si_nodes si) = calculate_taproot_leaf_depths (length scripts)"
proof -
  note ok = builder_with_scripts_ok [OF assms]
  let ?nodes = "zip (calculate_taproot_leaf_depths (length scripts)) (map TapLeaf scripts)"
  have "length (calculate_taproot_leaf_depths (length scripts)) = length scripts"
    by (simp add: calculate_taproot_leaf_depths_def)
  then have "map fst ?nodes = calculate_taproot_leaf_depths (length scripts)" by (simp add: map_fst_zip)
  with ok show ?thesis
    by (intro exI [of _ "\<lparr>si_nodes = ?nodes, si_internal_key = (case key of Some k \<Rightarrow> k | None \<Rightarrow> UNSPENDABLE_XONLY_PUBKEY)\<rparr>"])
      (simp add: create_taproot_address_def tb_finalize_def expect_def)
qed

theorem taproot_tree_always_builds_witness:
  "taproot_laws taproot_spec \<and> length [[1], [2], [3 :: u8]] \<le> (2 :: nat) ^ 63 \<and>
   calculate_taproot_leaf_depths 3 = [2, 2, 1] \<and>
   taproot_builder_with_scripts taproot_spec [[1], [2], [3]] = Inr [(2, TapLeaf [1]), (2, TapLeaf [2]), (1, TapLeaf [3])]"
proof -
  have small: "length [[1], [2], [3 :: u8]] \<le> 2 ^ 63" and three: "length [[1], [2], [3 :: u8]] = 3" by simp_all
  have depths: "calculate_taproot_leaf_depths 3 = [2, 2, 1]"
    by (simp add: calculate_taproot_leaf_depths_def deepest_layer_depth_def num_nodes_in_final_depth_def
          ilog2_def bit_len.simps upt_rec)
  obtain si :: spend_info where si: "taproot_builder_with_scripts taproot_spec [[1], [2], [3]] = Inr (si_nodes si)"
    "map snd (si_nodes si) = map TapLeaf [[1], [2], [3]]"
    "map fst (si_nodes si) = calculate_taproot_leaf_depths (length [[1], [2], [3 :: u8]])"
    using taproot_tree_always_builds [OF taproot_spec_laws small, of None Net_Regtest] by blast
  have "si_nodes si = zip (map fst (si_nodes si)) (map snd (si_nodes si))" by (simp add: zip_map_fst_snd)
  then have "si_nodes si = [(2, TapLeaf [1]), (2, TapLeaf [2]), (1, TapLeaf [3])]" using si(2,3) depths three by (simp only: list.map zip_Cons_Cons zip_Nil)
  with si(1) depths taproot_spec_laws show ?thesis by simp
qed

end
