(* ===== verification/Winternitz.thy ===== *)
theory Winternitz
  imports Protocol_Params Circuit_Tx
begin

text \<open>
  One-time keys: the paths the actors derive their Winternitz keys and preimages from
  (\<open>WinternitzDerivationPath\<close> in \<open>src/core/src/actor.rs\<close>), and the reading of committed data out of a
  witness (\<open>extract_winternitz_commits\<close> in \<open>src/core/src/builder/script.rs\<close>). The signature scheme is
  the \<open>bitvm\<close> crate's, key expansion the \<open>hkdf\<close> crate's: the parameter \<open>W\<close>.
\<close>

section \<open>Derivation paths\<close>

datatype winternitz_derivation_path =
    KickoffPath round_index u32 protocol_paramset
  | BitvmAssertPath u32 u32 u32 out_point protocol_paramset
  | ChallengeAckHashPath u32 out_point protocol_paramset

fun get_type_id :: "winternitz_derivation_path \<Rightarrow> u8" where
  "get_type_id (KickoffPath _ _ _) = 0"
| "get_type_id (BitvmAssertPath _ _ _ _ _) = 1"
| "get_type_id (ChallengeAckHashPath _ _ _) = 2"

fun path_paramset :: "winternitz_derivation_path \<Rightarrow> protocol_paramset" where
  "path_paramset (KickoffPath _ _ paramset) = paramset"
| "path_paramset (BitvmAssertPath _ _ _ _ paramset) = paramset"
| "path_paramset (ChallengeAckHashPath _ _ paramset) = paramset"

definition get_network_prefix :: "winternitz_derivation_path \<Rightarrow> u8 result" where
  "get_network_prefix path =
     (case network (path_paramset path) of
        Net_Regtest \<Rightarrow> Inr 0
      | Net_Testnet4 \<Rightarrow> Inr 1
      | Net_Signet \<Rightarrow> Inr 2
      | Net_Bitcoin \<Rightarrow> Inr 3
      | _ \<Rightarrow> Inl (Panic ''Unsupported network''))"

definition usize_to_be_bytes :: "nat \<Rightarrow> bytes" where
  "usize_to_be_bytes n = nat_be 8 n"

fun path_fields :: "winternitz_derivation_path \<Rightarrow> bytes" where
  "path_fields (KickoffPath round_idx kickoff_idx _) =
     usize_to_be_bytes (to_index round_idx) @ u32_to_be_bytes kickoff_idx"
| "path_fields (BitvmAssertPath message_length pk_type_idx pk_idx deposit_outpoint _) =
     u32_to_be_bytes message_length @ u32_to_be_bytes pk_type_idx @ u32_to_be_bytes pk_idx
     @ op_txid deposit_outpoint @ u32_to_be_bytes (op_vout deposit_outpoint)"
| "path_fields (ChallengeAckHashPath watchtower_idx deposit_outpoint _) =
     u32_to_be_bytes watchtower_idx @ op_txid deposit_outpoint @ u32_to_be_bytes (op_vout deposit_outpoint)"

definition path_to_bytes :: "winternitz_derivation_path \<Rightarrow> bytes result" where
  "path_to_bytes path =
     rbind (get_network_prefix path) (\<lambda>prefix. Inr ([get_type_id path, prefix] @ path_fields path))"

text \<open>\<open>winternitz::Parameters::new(a, log_d)\<close> is the pair of its arguments.\<close>

type_synonym winternitz_params = "u32 \<times> u32"

definition get_params :: "winternitz_derivation_path \<Rightarrow> winternitz_params" where
  "get_params path =
     (case path of
        KickoffPath _ _ paramset \<Rightarrow> (kickoff_blockhash_commit_length paramset, winternitz_log_d paramset)
      | BitvmAssertPath message_length _ _ _ paramset \<Rightarrow> (message_length, winternitz_log_d paramset)
      | ChallengeAckHashPath _ _ paramset \<Rightarrow> (1, winternitz_log_d paramset))"

section \<open>Keys and preimages\<close>

type_synonym winternitz_pk = "bytes list"

record winternitz_api =
  message_byte_len :: "winternitz_params \<Rightarrow> u32"
  total_digit_len :: "winternitz_params \<Rightarrow> u32"
  winternitz_sign :: "winternitz_params \<Rightarrow> bytes \<Rightarrow> bytes \<Rightarrow> bytes list"
  generate_public_key :: "winternitz_params \<Rightarrow> bytes \<Rightarrow> winternitz_pk"
  hkdf_expand :: "bytes \<Rightarrow> bytes \<Rightarrow> bytes option"
  hash160 :: "bytes \<Rightarrow> bytes"

definition get_derived_winternitz_sk :: "winternitz_api \<Rightarrow> bytes \<Rightarrow> winternitz_derivation_path \<Rightarrow> bytes result" where
  "get_derived_winternitz_sk W secret_key path =
     rbind (path_to_bytes path) (\<lambda>path_bytes.
     expect (hkdf_expand W secret_key path_bytes) (Err ''Key derivation failed''))"

definition derive_winternitz_pk ::
  "winternitz_api \<Rightarrow> bytes \<Rightarrow> winternitz_derivation_path \<Rightarrow> winternitz_pk result" where
  "derive_winternitz_pk W secret_key path =
     rbind (get_derived_winternitz_sk W secret_key path) (\<lambda>altered_secret_key.
     Inr (generate_public_key W (get_params path) altered_secret_key))"

definition generate_preimage_from_path :: "winternitz_api \<Rightarrow> bytes \<Rightarrow> winternitz_derivation_path \<Rightarrow> bytes result" where
  "generate_preimage_from_path W secret_key path =
     rbind (get_derived_winternitz_sk W secret_key path) (\<lambda>first_preimage. Inr (hash160 W first_preimage))"

definition generate_public_hash_from_path :: "winternitz_api \<Rightarrow> bytes \<Rightarrow> winternitz_derivation_path \<Rightarrow> bytes result" where
  "generate_public_hash_from_path W secret_key path =
     rbind (generate_preimage_from_path W secret_key path) (\<lambda>preimage. Inr (hash160 W preimage))"

section \<open>Committed data in a witness\<close>

definition from_minimal_to_u32_le_bytes :: "bytes \<Rightarrow> bytes result" where
  "from_minimal_to_u32_le_bytes minimal =
     (if length minimal > 4 then Inl (Err ''u32 bytes length is greater than 4'')
      else Inr (minimal @ replicate (4 - length minimal) 0))"

definition u8_try_from_u32 :: "u32 \<Rightarrow> u8 option" where
  "u8_try_from_u32 x = (if unat x < 256 then Some (ucast x) else None)"

text \<open>\<open>skip(1).step_by(2)\<close>: the elements at odd positions; \<open>chunks_exact(2)\<close>: pairs, without a remainder.\<close>

fun odd_elements :: "'a list \<Rightarrow> 'a list" where
  "odd_elements (x # y # rest) = y # odd_elements rest"
| "odd_elements _ = []"

fun pair_chunks :: "'a list \<Rightarrow> ('a \<times> 'a) list" where
  "pair_chunks (x # y # rest) = (x, y) # pair_chunks rest"
| "pair_chunks _ = []"

definition commit_byte :: "bytes \<times> bytes \<Rightarrow> u8 result" where
  "commit_byte digits =
     rbind (from_minimal_to_u32_le_bytes (fst digits)) (\<lambda>first_bytes.
     rbind (from_minimal_to_u32_le_bytes (snd digits)) (\<lambda>second_bytes.
     rbind (expect (u8_try_from_u32 (u32_from_le_bytes first_bytes)) (Err ''Failed to convert first digit to u8'')) (\<lambda>first_u8.
     rbind (expect (u8_try_from_u32 (u32_from_le_bytes second_bytes)) (Err ''Failed to convert second digit to u8'')) (\<lambda>second_u8.
     Inr (second_u8 * (2 ^ 4) + first_u8)))))"

text \<open>
  \<open>message_digits\<close> is \<open>(message_byte_len * 8).div_ceil(log_d)\<close> on \<open>u32\<close>. Reading one commitment takes
  the odd elements of the next \<open>2 * message_digits\<close> witness elements and skips the checksum. Without a
  checksum \<open>checksum_digits * 2 - 1\<close> wraps around to a huge \<open>usize\<close>, and the whole rest is skipped.
\<close>

definition message_digits :: "winternitz_api \<Rightarrow> winternitz_params \<Rightarrow> u32 \<Rightarrow> nat" where
  "message_digits W wt_params log_d =
     (let bits = unat (message_byte_len W wt_params * 8); d = unat log_d
      in bits div d + (if bits mod d = 0 then 0 else 1))"

definition extract_one ::
  "winternitz_api \<Rightarrow> u32 \<Rightarrow> winternitz_params \<Rightarrow> bytes list \<times> bytes list \<Rightarrow> (bytes list \<times> bytes list) result" where
  "extract_one W log_d wt_params st =
     (case st of (cur, commits) \<Rightarrow>
     let md = message_digits W wt_params log_d;
         total = unat (total_digit_len W wt_params);
         elements = rev (take md (odd_elements cur));
         cur = drop (2 * md) cur;
         cur = (if total \<le> md then [] else drop (2 * (total - md)) cur)
     in rbind (rmap commit_byte (pair_chunks elements)) (\<lambda>commit. Inr (cur, commits @ [commit])))"

definition extract_winternitz_commits ::
  "winternitz_api \<Rightarrow> bytes list \<Rightarrow> winternitz_derivation_path list \<Rightarrow> protocol_paramset \<Rightarrow> bytes list result" where
  "extract_winternitz_commits W wit wt_derive_paths paramset =
     (if winternitz_log_d paramset \<noteq> 4 then Inl (Err ''Only winternitz_log_d = 4 is supported'')
      else rbind (rfold (\<lambda>wt_path. extract_one W (winternitz_log_d paramset) (get_params wt_path))
                    (rev wt_derive_paths) (drop 1 wit, []))
             (\<lambda>(_, commits). Inr (rev commits)))"

definition extract_winternitz_commits_with_sigs ::
  "winternitz_api \<Rightarrow> bytes list \<Rightarrow> winternitz_derivation_path list \<Rightarrow> protocol_paramset \<Rightarrow> bytes list list result" where
  "extract_winternitz_commits_with_sigs W wit wt_derive_paths paramset =
     (if winternitz_log_d paramset \<noteq> 4 then Inl (Err ''Only winternitz_log_d = 4 is supported'')
      else let (_, commits) =
             fold (\<lambda>wt_path (cur, commits).
               let n = unat (total_digit_len W (get_params wt_path)) * 2
               in (drop n cur, commits @ [take n cur]))
               (rev wt_derive_paths) (drop 1 wit, [])
           in Inr commits)"

text \<open>The witness side (\<open>WinternitzCommit::generate_script_inputs\<close>): the last commitment comes first.\<close>

definition winternitz_script_inputs ::
  "winternitz_api \<Rightarrow> winternitz_params list \<Rightarrow> (bytes \<times> bytes) list \<Rightarrow> bytes \<Rightarrow> bytes list" where
  "winternitz_script_inputs W params commit_data signature =
     signature # concat (rev (map (\<lambda>(p, data, secret_key). winternitz_sign W p secret_key data)
                                (zip params commit_data)))"

section \<open>Distinct paths give distinct keys\<close>

definition path_wf :: "winternitz_derivation_path \<Rightarrow> bool" where
  "path_wf path \<longleftrightarrow>
     (case path of
        KickoffPath round_idx _ _ \<Rightarrow> to_index round_idx < 2 ^ 64
      | BitvmAssertPath _ _ _ deposit_outpoint _ \<Rightarrow> length (op_txid deposit_outpoint) = 32
      | ChallengeAckHashPath _ deposit_outpoint _ \<Rightarrow> length (op_txid deposit_outpoint) = 32)"

text \<open>What a path identifies: everything but the parameter set, of which only the network enters.\<close>

fun path_identity :: "winternitz_derivation_path \<Rightarrow> u8 \<times> u32 list \<times> round_index \<times> out_point" where
  "path_identity (KickoffPath round_idx kickoff_idx _) = (0, [kickoff_idx], round_idx, \<lparr>op_txid = [], op_vout = 0\<rparr>)"
| "path_identity (BitvmAssertPath message_length pk_type_idx pk_idx deposit_outpoint _) =
     (1, [message_length, pk_type_idx, pk_idx], Collateral, deposit_outpoint)"
| "path_identity (ChallengeAckHashPath watchtower_idx deposit_outpoint _) =
     (2, [watchtower_idx], Collateral, deposit_outpoint)"

lemma get_network_prefix_inject:
  "get_network_prefix p = Inr x \<Longrightarrow> get_network_prefix q = Inr x \<Longrightarrow>
   network (path_paramset p) = network (path_paramset q)"
  by (auto simp: get_network_prefix_def split: btc_network.splits)

lemma to_index_inject [simp]: "to_index a = to_index b \<longleftrightarrow> a = b"
  by (cases a; cases b) simp_all

lemma usize_to_be_bytes_inject:
  "m < 2 ^ 64 \<Longrightarrow> n < 2 ^ 64 \<Longrightarrow> usize_to_be_bytes m = usize_to_be_bytes n \<longleftrightarrow> m = n"
  using nat_be_inject [of m 8 n] by (simp add: usize_to_be_bytes_def)

lemma length_usize_to_be_bytes [simp]: "length (usize_to_be_bytes n) = 8"
  by (simp add: usize_to_be_bytes_def)

lemma path_fields_inject:
  assumes "path_wf p" "path_wf q" "get_type_id p = get_type_id q" "path_fields p = path_fields q"
  shows "path_identity p = path_identity q"
  using assms
  by (cases p; cases q) (auto simp: path_wf_def usize_to_be_bytes_inject intro: out_point.equality)

lemma path_to_bytes_inject:
  assumes "path_wf p" "path_wf q" "path_to_bytes p = Inr b" "path_to_bytes q = Inr b"
  shows "path_identity p = path_identity q" "network (path_paramset p) = network (path_paramset q)"
proof -
  obtain x y where x: "get_network_prefix p = Inr x" "b = get_type_id p # x # path_fields p"
    and y: "get_network_prefix q = Inr y" "b = get_type_id q # y # path_fields q"
    using assms(3,4) by (auto simp: path_to_bytes_def)
  then show "path_identity p = path_identity q" using path_fields_inject [OF assms(1,2)] by simp
  show "network (path_paramset p) = network (path_paramset q)"
    using x y get_network_prefix_inject [of p x q] by simp
qed

section \<open>Reading back a commitment\<close>

definition nibbles :: "bytes \<Rightarrow> u8 list" where
  "nibbles data = concat (map (\<lambda>b. [b mod 16, b div 16]) data)"

text \<open>A digit as the minimal encoding of a script number: trailing zero bytes removed.\<close>

definition minimal_digit :: "u8 \<Rightarrow> bytes" where
  "minimal_digit d = (if d = 0 then [] else [d])"

text \<open>
  The layout of a signature the reader relies on: signature elements alternate with the signed
  digits, the digits of the message come in reverse order, low digit of a byte before the high one
  when read back, and the checksum follows.
\<close>

definition winternitz_layout :: "winternitz_api \<Rightarrow> bool" where
  "winternitz_layout W \<longleftrightarrow>
     (\<forall>p sk data. length data = unat (message_byte_len W p) \<longrightarrow>
        length (winternitz_sign W p sk data) = 2 * unat (total_digit_len W p) \<and>
        take (2 * length data) (odd_elements (winternitz_sign W p sk data)) = map minimal_digit (rev (nibbles data)))"

definition params_wf :: "winternitz_api \<Rightarrow> winternitz_params \<Rightarrow> bool" where
  "params_wf W p \<longleftrightarrow> unat (message_byte_len W p) < 2 ^ 29 \<and>
     2 * unat (message_byte_len W p) < unat (total_digit_len W p)"

lemma odd_elements_append: "even (length xs) \<Longrightarrow> odd_elements (xs @ ys) = odd_elements xs @ odd_elements ys"
  by (induction xs rule: odd_elements.induct) auto

lemma length_odd_elements: "length (odd_elements xs) = length xs div 2"
  by (induction xs rule: odd_elements.induct) auto

lemma length_nibbles [simp]: "length (nibbles data) = 2 * length data"
  by (induction data) (simp_all add: nibbles_def)

lemma message_digits_4:
  assumes "unat (message_byte_len W p) < 2 ^ 29"
  shows "message_digits W p 4 = 2 * unat (message_byte_len W p)"
proof -
  have "unat (message_byte_len W p * 8) = unat (message_byte_len W p) * 8"
    using assms by (simp add: unat_word_ariths)
  then show ?thesis by (simp add: message_digits_def Let_def)
qed

lemma minimal_digit_value:
  "from_minimal_to_u32_le_bytes (minimal_digit d) = Inr ([d, 0, 0, 0])"
  by (simp add: from_minimal_to_u32_le_bytes_def minimal_digit_def numeral_eq_Suc)

lemma u8_of_le_bytes: "u8_try_from_u32 (u32_from_le_bytes [d, 0, 0, 0]) = Some d"
proof -
  have d: "unat d < 256" by (rule unat_u8_less)
  have e: "u32_from_le_bytes [d, 0, 0, 0] = of_nat (unat d)"
    by (simp add: u32_from_le_bytes_def le_nat_def be_nat_Cons)
  have w: "unat (u32_from_le_bytes [d, 0, 0, 0]) = unat d"
    unfolding e by (rule unat_u32_of_nat) (use d in linarith)
  have "unat (ucast (u32_from_le_bytes [d, 0, 0, 0]) :: u8) = take_bit 8 (unat d)"
    by (simp add: unsigned_ucast_eq unsigned_take_bit_eq w)
  also have "\<dots> = unat d" using d by (intro take_bit_nat_eq_self) simp
  finally show ?thesis using d w by (simp add: u8_try_from_u32_def word_unat_eq_iff)
qed

lemma commit_byte_minimal: "commit_byte (minimal_digit a, minimal_digit b) = Inr (b * 16 + a)"
  by (simp add: commit_byte_def minimal_digit_value u8_of_le_bytes expect_def)

lemma commit_bytes_nibbles: "rmap commit_byte (pair_chunks (map minimal_digit (nibbles data))) = Inr data"
proof (induction data)
  case Nil
  then show ?case by (simp add: nibbles_def)
next
  case (Cons b data)
  have "b div 16 * 16 + b mod 16 = b" by (rule div_mult_mod_eq)
  with Cons show ?case by (simp add: nibbles_def commit_byte_minimal)
qed

lemma extract_one_signature:
  assumes "winternitz_layout W" "params_wf W p" "length data = unat (message_byte_len W p)"
  shows "extract_one W 4 p (winternitz_sign W p sk data @ rest, commits) = Inr (rest, commits @ [data])"
proof -
  let ?s = "winternitz_sign W p sk data"
  have len: "length ?s = 2 * unat (total_digit_len W p)"
    and digits: "take (2 * length data) (odd_elements ?s) = map minimal_digit (rev (nibbles data))"
    using assms(1,3) unfolding winternitz_layout_def by blast+
  have md: "message_digits W p 4 = 2 * length data" and short: "2 * length data < unat (total_digit_len W p)"
    using assms(2,3) message_digits_4 [of W p] by (simp_all add: params_wf_def)
  have "take (2 * length data) (odd_elements (?s @ rest)) = map minimal_digit (rev (nibbles data))"
    using len short digits by (simp add: odd_elements_append length_odd_elements)
  moreover have "drop (2 * (unat (total_digit_len W p) - 2 * length data)) (drop (2 * (2 * length data)) (?s @ rest)) = rest"
    using len short by (simp add: diff_mult_distrib2)
  ultimately show ?thesis
    using short by (simp add: extract_one_def md Let_def rev_map [symmetric] commit_bytes_nibbles del: drop_drop drop_append)
qed

lemma extract_all_signatures:
  assumes "winternitz_layout W"
    and "\<forall>(path, data, sk) \<in> set zs. params_wf W (get_params path) \<and> length data = unat (message_byte_len W (get_params path))"
  shows "rfold (\<lambda>path. extract_one W 4 (get_params path)) (map fst zs)
           (concat (map (\<lambda>(path, data, sk). winternitz_sign W (get_params path) sk data) zs) @ rest, commits) =
         Inr (rest, commits @ map (fst \<circ> snd) zs)"
  using assms(2)
proof (induction zs arbitrary: commits)
  case Nil
  then show ?case by simp
next
  case (Cons z zs)
  obtain path data sk where z: "z = (path, data, sk)" by (cases z)
  show ?case
    using Cons.prems Cons.IH [of "commits @ [data]"] extract_one_signature [OF assms(1), of "get_params path" data]
    by (simp add: z)
qed

section \<open>A concrete scheme\<close>

text \<open>Four checksum digits of zero and the secret key in place of the hash chains.\<close>

definition spec_message_len :: "winternitz_params \<Rightarrow> nat" where
  "spec_message_len p = min (unat (fst p) div 2) 1000"

definition winternitz_spec :: winternitz_api where
  "winternitz_spec =
     \<lparr>message_byte_len = (\<lambda>p. of_nat (spec_message_len p)),
      total_digit_len = (\<lambda>p. of_nat (2 * spec_message_len p + 4)),
      winternitz_sign = (\<lambda>p sk data. concat (map (\<lambda>x. [sk, minimal_digit x]) (rev (nibbles data) @ replicate 4 0))),
      generate_public_key = (\<lambda>p sk. [sk]),
      hkdf_expand = (\<lambda>key info. Some (key @ info)),
      hash160 = take 20\<rparr>"

lemma odd_elements_signed: "odd_elements (concat (map (\<lambda>x. [a, f x]) xs)) = map f xs"
  by (induction xs) simp_all

lemma length_signed: "length (concat (map (\<lambda>x. [a, f x]) xs)) = 2 * length xs"
  by (induction xs) simp_all

lemma spec_lengths:
  "unat (message_byte_len winternitz_spec p) = spec_message_len p"
  "unat (total_digit_len winternitz_spec p) = 2 * spec_message_len p + 4"
  using unat_u32_of_nat [of "spec_message_len p"] unat_u32_of_nat [of "2 * spec_message_len p + 4"]
  by (simp_all add: winternitz_spec_def spec_message_len_def)

lemma winternitz_spec_layout: "winternitz_layout winternitz_spec"
proof -
  have sign: "winternitz_sign winternitz_spec p sk data =
              concat (map (\<lambda>x. [sk, minimal_digit x]) (rev (nibbles data) @ replicate 4 0))" for p sk data
    by (simp add: winternitz_spec_def)
  show ?thesis
    unfolding winternitz_layout_def sign odd_elements_signed length_signed spec_lengths by simp
qed

lemma winternitz_spec_params: "params_wf winternitz_spec p"
  by (simp add: params_wf_def spec_lengths) (simp add: spec_message_len_def)

section \<open>Properties\<close>

text \<open>
  One-time keys are never shared: two derivation paths that give an actor the same Winternitz
  secret key, under a key expansion without a collision on the two, are the same kickoff of the same
  round, the same assert key, or the same challenge acknowledgement of the same deposit, on the same
  network.
\<close>

theorem winternitz_keys_distinct:
  assumes "path_wf p" "path_wf q"
    and "path_to_bytes p = Inr b" "path_to_bytes q = Inr c" "inj_on (hkdf_expand W sk) {b, c}"
    and "get_derived_winternitz_sk W sk p = Inr key" "get_derived_winternitz_sk W sk q = Inr key"
  shows "path_identity p = path_identity q \<and> network (path_paramset p) = network (path_paramset q)"
proof -
  have "hkdf_expand W sk b = hkdf_expand W sk c"
    using assms(3,4,6,7) by (simp add: get_derived_winternitz_sk_def)
  then have "b = c" by (rule inj_onD [OF assms(5)]) simp_all
  then show ?thesis using path_to_bytes_inject [OF assms(1,2,3)] assms(4) by simp
qed

theorem winternitz_keys_distinct_witness:
  "\<exists>key. get_derived_winternitz_sk winternitz_spec [7] (KickoffPath (Round 1) 3 REGTEST_PARAMSET) = Inr key \<and>
     get_derived_winternitz_sk winternitz_spec [7] (KickoffPath (Round 1) 3 (REGTEST_PARAMSET\<lparr>finality_depth := 9\<rparr>)) = Inr key \<and>
     path_identity (KickoffPath (Round 1) 3 REGTEST_PARAMSET) =
       path_identity (KickoffPath (Round 1) 3 (REGTEST_PARAMSET\<lparr>finality_depth := 9\<rparr>))"
proof -
  let ?p = "KickoffPath (Round 1) 3 REGTEST_PARAMSET"
  let ?q = "KickoffPath (Round 1) 3 (REGTEST_PARAMSET\<lparr>finality_depth := 9\<rparr>)"
  have wf: "path_wf ?p" "path_wf ?q" by (simp_all add: path_wf_def)
  have bytes: "path_to_bytes ?p = Inr ([0, 0] @ path_fields ?p)" "path_to_bytes ?q = Inr ([0, 0] @ path_fields ?p)"
    by (simp_all add: path_to_bytes_def get_network_prefix_def REGTEST_PARAMSET_def)
  have key: "get_derived_winternitz_sk winternitz_spec [7] ?p = Inr ([7] @ [0, 0] @ path_fields ?p)"
    "get_derived_winternitz_sk winternitz_spec [7] ?q = Inr ([7] @ [0, 0] @ path_fields ?p)"
    unfolding get_derived_winternitz_sk_def bytes by (simp_all add: winternitz_spec_def expect_def)
  have "inj_on (hkdf_expand winternitz_spec [7]) {[0, 0] @ path_fields ?p, [0, 0] @ path_fields ?p}" by simp
  from winternitz_keys_distinct [OF wf bytes this key] key show ?thesis by blast
qed

text \<open>
  C39. What an actor commits to is what the others read: for Winternitz commitments laid out as the
  scheme documents, \<open>extract_winternitz_commits\<close> returns from a witness that
  \<open>WinternitzCommit::generate_script_inputs\<close> built, followed by any script and control block, exactly the
  messages committed to, in the order of their paths.
\<close>

theorem winternitz_commit_roundtrip:
  assumes "winternitz_layout W" "winternitz_log_d paramset = 4" "length commit_data = length paths"
    and "\<forall>i < length paths. params_wf W (get_params (paths ! i)) \<and>
           length (fst (commit_data ! i)) = unat (message_byte_len W (get_params (paths ! i)))"
  shows "extract_winternitz_commits W
           (winternitz_script_inputs W (map get_params paths) commit_data signature @ rest) paths paramset =
         Inr (map fst commit_data)"
proof -
  let ?zs = "rev (zip paths commit_data)"
  have wf: "\<forall>(path, data, sk) \<in> set ?zs. params_wf W (get_params path) \<and> length data = unat (message_byte_len W (get_params path))"
    using assms(3,4) by (auto simp: set_zip) (metis fst_conv)+
  have fst: "map fst ?zs = rev paths" and snd: "map (fst \<circ> snd) ?zs = rev (map fst commit_data)"
    using assms(3) by (simp_all add: rev_map [symmetric] map_fst_zip map_snd_zip flip: map_map)
  have wit: "drop 1 (winternitz_script_inputs W (map get_params paths) commit_data signature @ rest) =
             concat (map (\<lambda>(path, data, sk). winternitz_sign W (get_params path) sk data) ?zs) @ rest"
    by (simp add: winternitz_script_inputs_def zip_map1 rev_map [symmetric] case_prod_unfold comp_def)
  show ?thesis
    unfolding extract_winternitz_commits_def wit assms(2)
    using extract_all_signatures [OF assms(1) wf, of rest "[]", unfolded fst snd] by simp
qed

theorem winternitz_commit_roundtrip_witness:
  "extract_winternitz_commits winternitz_spec
     (winternitz_script_inputs winternitz_spec [(4, 4), (2, 4)] [([1, 0xab], [9]), ([0x20], [8])] [5] @ [[6], [7]])
     [BitvmAssertPath 4 0 0 \<lparr>op_txid = [], op_vout = 0\<rparr> REGTEST_PARAMSET,
      BitvmAssertPath 2 1 0 \<lparr>op_txid = [], op_vout = 0\<rparr> REGTEST_PARAMSET] REGTEST_PARAMSET
   = Inr [[1, 0xab], [0x20]]"
proof -
  let ?paths = "[BitvmAssertPath 4 0 0 \<lparr>op_txid = [], op_vout = 0\<rparr> REGTEST_PARAMSET,
      BitvmAssertPath 2 1 0 \<lparr>op_txid = [], op_vout = 0\<rparr> REGTEST_PARAMSET]"
  let ?data = "[([1, 0xab], [9]), ([0x20 :: u8], [8 :: u8])]"
  have log_d: "winternitz_log_d REGTEST_PARAMSET = 4" by (simp add: REGTEST_PARAMSET_def WINTERNITZ_LOG_D_def)
  have "\<forall>i < length ?paths. params_wf winternitz_spec (get_params (?paths ! i)) \<and>
      length (fst (?data ! i)) = unat (message_byte_len winternitz_spec (get_params (?paths ! i)))"
    by (auto simp: winternitz_spec_params spec_lengths less_Suc_eq spec_message_len_def get_params_def)
  from winternitz_commit_roundtrip [OF winternitz_spec_layout log_d _ this, of "[5]" "[[6], [7]]"]
  show ?thesis by (simp add: get_params_def log_d)
qed

end
