(* ===== verification/Musig2.thy ===== *)
theory Musig2
  imports Hashes "HOL-Library.List_Lexorder" "HOL-Library.Multiset"
begin

text \<open>
  The MuSig2 helpers of \<open>src/core/src/musig2.rs\<close>: key aggregation with its three taproot modes,
  aggregation of nonces and of partial signatures. The \<open>secp256k1\<close> crate is the parameter \<open>M\<close>; its keys,
  nonces, caches, sessions and signatures are opaque bytes. Keys are ordered by their serialization.
\<close>

record musig_api =
  key_agg_cache_new :: "bytes list \<Rightarrow> bytes"
  cache_agg_pk :: "bytes \<Rightarrow> bytes"
  pubkey_xonly_tweak_add :: "bytes \<Rightarrow> bytes \<Rightarrow> bytes option"
  scalar_from_be_bytes :: "bytes \<Rightarrow> bytes option"
  aggregated_nonce_new :: "bytes list \<Rightarrow> bytes"
  session_new :: "bytes \<Rightarrow> bytes \<Rightarrow> bytes \<Rightarrow> bytes"
  session_partial_sign :: "bytes \<Rightarrow> bytes \<Rightarrow> bytes \<Rightarrow> bytes \<Rightarrow> bytes"
  session_partial_verify :: "bytes \<Rightarrow> bytes \<Rightarrow> bytes \<Rightarrow> bytes \<Rightarrow> bytes \<Rightarrow> bool"
  partial_sig_agg :: "bytes \<Rightarrow> bytes list \<Rightarrow> bytes"
  verify_schnorr :: "bytes \<Rightarrow> bytes \<Rightarrow> bytes \<Rightarrow> bool"
  xonly_from_slice :: "bytes \<Rightarrow> bytes option"

datatype musig2_mode = MusigScriptSpend | MusigOnlyKeySpend | MusigKeySpendWithScript bytes

definition TAPROOT_TWEAK_TAG_DIGEST :: bytes where
  "TAPROOT_TWEAK_TAG_DIGEST =
     [0xe8, 0x0f, 0xe1, 0x63, 0x9c, 0x9c, 0xa0, 0x50, 0xe3, 0xaf, 0x1b, 0x39, 0xc1, 0x43, 0xc6, 0x3e,
      0x42, 0x9c, 0xbc, 0xeb, 0x15, 0xd9, 0x40, 0xfb, 0xb5, 0xc5, 0xa1, 0xf4, 0xaf, 0x57, 0xc5, 0xe9]"

definition TAPROOT_TWEAK_TAGGED_HASH :: bytes where
  "TAPROOT_TWEAK_TAGGED_HASH = TAPROOT_TWEAK_TAG_DIGEST @ TAPROOT_TWEAK_TAG_DIGEST"

text \<open>The bytes that the tweak of a mode hashes, behind the tagged prefix.\<close>

fun tweak_data :: "musig2_mode \<Rightarrow> bytes \<Rightarrow> bytes option" where
  "tweak_data MusigScriptSpend agg_key = None"
| "tweak_data MusigOnlyKeySpend agg_key = Some (TAPROOT_TWEAK_TAGGED_HASH @ agg_key)"
| "tweak_data (MusigKeySpendWithScript merkle_root) agg_key = Some (TAPROOT_TWEAK_TAGGED_HASH @ agg_key @ merkle_root)"

definition create_key_agg_cache ::
  "hasher \<Rightarrow> musig_api \<Rightarrow> bytes list \<Rightarrow> musig2_mode option \<Rightarrow> bytes result" where
  "create_key_agg_cache sha M public_keys mode =
     rbind (ensure (public_keys \<noteq> [])
              (Err ''MuSig2 Error: cannot create key aggregation cache (no public keys provided)'')) (\<lambda>_.
     let cache = key_agg_cache_new M (sort public_keys);
         agg_key = cache_agg_pk M cache
     in case Option.bind mode (\<lambda>m. tweak_data m agg_key) of
          None \<Rightarrow> Inr cache
        | Some preimage \<Rightarrow>
            rbind (expect (scalar_from_be_bytes M (sha preimage))
                     (Err ''Failed to create scalar from xonly tweak bytes'')) (\<lambda>scalar.
            expect (pubkey_xonly_tweak_add M cache scalar) (Err ''Failed to tweak aggregated public key'')))"

definition from_musig2_pks :: "hasher \<Rightarrow> musig_api \<Rightarrow> bytes list \<Rightarrow> musig2_mode option \<Rightarrow> bytes result" where
  "from_musig2_pks sha M pks tweak =
     rbind (create_key_agg_cache sha M pks tweak) (\<lambda>cache.
     expect (xonly_from_slice M (cache_agg_pk M cache))
       (Err ''Failed to create XOnlyPublicKey from aggregated public key''))"

definition aggregate_nonces :: "musig_api \<Rightarrow> bytes list \<Rightarrow> bytes result" where
  "aggregate_nonces M pub_nonces =
     (if pub_nonces = [] then Inl (Err ''MuSig2 Error: cannot aggregate nonces (no public nonces provided)'')
      else Inr (aggregated_nonce_new M pub_nonces))"

text \<open>
  The variable \<open>PARTIAL_SIG_VERIFICATION\<close>; the upper case letters of ASCII are 65 to 90 and 32 below
  the lower case ones.
\<close>

definition ascii_lowercase :: "char \<Rightarrow> char" where
  "ascii_lowercase c = (let n = of_char c in if 65 \<le> n \<and> n \<le> (90 :: nat) then char_of (n + 32) else c)"

definition partial_sig_verification_enabled :: "string option \<Rightarrow> bool" where
  "partial_sig_verification_enabled env =
     (case env of
        None \<Rightarrow> False
      | Some v \<Rightarrow> map ascii_lowercase v \<in> {''1'', ''true'', ''yes'', ''y'', ''on''})"

definition aggregate_partial_signatures ::
  "hasher \<Rightarrow> musig_api \<Rightarrow> string option \<Rightarrow> bytes list \<Rightarrow> musig2_mode option \<Rightarrow> bytes
   \<Rightarrow> (bytes \<times> bytes) list \<Rightarrow> bytes \<Rightarrow> bytes result" where
  "aggregate_partial_signatures sha M env pks tweak agg_nonce partial_sigs message =
     rbind (create_key_agg_cache sha M pks tweak) (\<lambda>cache.
     let session = session_new M cache agg_nonce message;
         bad = filter (\<lambda>((partial_sig, pub_nonce), pub_key).
                 \<not> session_partial_verify M session cache partial_sig pub_nonce pub_key) (zip partial_sigs pks)
     in rbind (ensure (partial_sig_verification_enabled env \<longrightarrow> bad = [])
                 (Err ''MuSig2 Error: partial signature verification failed for verifiers'')) (\<lambda>_.
        let final_sig = partial_sig_agg M session (map fst partial_sigs)
        in rbind (ensure (verify_schnorr M final_sig message (cache_agg_pk M cache))
                    (Err ''Failed to verify schnorr signature'')) (\<lambda>_.
           Inr final_sig)))"

definition partial_sign ::
  "hasher \<Rightarrow> musig_api \<Rightarrow> bytes list \<Rightarrow> musig2_mode option \<Rightarrow> bytes \<Rightarrow> bytes \<Rightarrow> bytes \<Rightarrow> bytes \<Rightarrow> bytes result" where
  "partial_sign sha M pks tweak sec_nonce agg_nonce keypair sighash =
     rbind (create_key_agg_cache sha M pks tweak) (\<lambda>cache.
     let session = session_new M cache agg_nonce sighash
     in Inr (session_partial_sign M session sec_nonce keypair cache))"

section \<open>Order of the keys\<close>

lemma create_key_agg_cache_mset:
  assumes "mset pks = mset pks'"
  shows "create_key_agg_cache sha M pks mode = create_key_agg_cache sha M pks' mode"
proof -
  have "sort pks = sort pks'" by (rule properties_for_sort) (simp_all add: assms)
  moreover have "pks = [] \<longleftrightarrow> pks' = []" using assms by (metis mset_zero_iff)
  ultimately show ?thesis by (simp add: create_key_agg_cache_def)
qed

lemma from_musig2_pks_mset: "mset pks = mset pks' \<Longrightarrow> from_musig2_pks sha M pks tweak = from_musig2_pks sha M pks' tweak"
  using create_key_agg_cache_mset [of pks pks' sha M tweak] by (simp add: from_musig2_pks_def)

lemma from_musig2_pks_sort [simp]: "from_musig2_pks sha M (sort pks) tweak = from_musig2_pks sha M pks tweak"
  by (rule from_musig2_pks_mset) simp

text \<open>
  C37. An aggregated signature is returned only if it verifies, on the message, under the key that
  every party aggregates from the same verifier keys in whatever order it lists them; with partial
  verification switched on, every partial signature of a listed key was verified as well.
\<close>

theorem aggregate_signature_verifies:
  assumes "aggregate_partial_signatures sha M env pks tweak agg_nonce partial_sigs message = Inr signature"
    and "mset pks' = mset pks"
  shows "\<exists>cache. create_key_agg_cache sha M pks' tweak = Inr cache \<and>
    verify_schnorr M signature message (cache_agg_pk M cache) \<and>
    (partial_sig_verification_enabled env \<longrightarrow>
       (\<forall>((psig, nonce), pk) \<in> set (zip partial_sigs pks).
          session_partial_verify M (session_new M cache agg_nonce message) cache psig nonce pk))"
proof -
  obtain cache where "create_key_agg_cache sha M pks tweak = Inr cache"
      "verify_schnorr M signature message (cache_agg_pk M cache)"
      "partial_sig_verification_enabled env \<longrightarrow>
         filter (\<lambda>((psig, nonce), pk). \<not> session_partial_verify M (session_new M cache agg_nonce message) cache psig nonce pk)
           (zip partial_sigs pks) = []"
    using assms(1) unfolding aggregate_partial_signatures_def Let_def by auto
  then show ?thesis
    using create_key_agg_cache_mset [OF assms(2), of sha M tweak]
    by (intro exI [of _ cache]) (auto simp: filter_empty_conv)
qed

definition musig_spec :: musig_api where
  "musig_spec =
     \<lparr>key_agg_cache_new = concat, cache_agg_pk = take 32, pubkey_xonly_tweak_add = (\<lambda>c s. Some (s @ c)),
      scalar_from_be_bytes = Some, aggregated_nonce_new = concat, session_new = (\<lambda>c n m. c @ n @ m),
      session_partial_sign = (\<lambda>s n k c. k), session_partial_verify = (\<lambda>s c psig n pk. psig = pk),
      partial_sig_agg = (\<lambda>s psigs. concat psigs), verify_schnorr = (\<lambda>sig msg pk. sig \<noteq> []),
      xonly_from_slice = (\<lambda>bs. if length bs = 32 then Some bs else None)\<rparr>"

theorem aggregate_signature_verifies_witness:
  "\<exists>cache. create_key_agg_cache id musig_spec [[2], [1]] (Some MusigOnlyKeySpend) = Inr cache \<and>
    verify_schnorr musig_spec [1, 2] [7] (cache_agg_pk musig_spec cache) \<and>
    session_partial_verify musig_spec (session_new musig_spec cache [5, 6] [7]) cache [1] [3] [1]"
proof -
  have run: "aggregate_partial_signatures id musig_spec (Some ''TRUE'') [[1], [2]] (Some MusigOnlyKeySpend) [5, 6]
      [([1], [3]), ([2], [4])] [7] = Inr [1, 2]"
    by (simp add: aggregate_partial_signatures_def create_key_agg_cache_def musig_spec_def ensure_def expect_def)
  have on: "partial_sig_verification_enabled (Some ''TRUE'')"
    by code_simp
  show ?thesis
    using aggregate_signature_verifies [OF run, of "[[2], [1]]"] on by auto
qed

end
