(* ===== verification/Tx_Scripts.thy ===== *)
theory Tx_Scripts
  imports Taproot_Tree Winternitz Watchtowers Musig2
begin

text \<open>
  The scripts of the protocol's outputs and what spends them (\<open>src/core/src/builder/script.rs\<close>), and
  the owner of every signature the protocol needs
  (\<open>src/core/src/builder/transaction/deposit_signature_owner.rs\<close>, the enumerations of
  \<open>src/core/src/rpc/clementine.rs\<close>). A script is the sequence of the calls to \<open>bitcoin\<close>'s script
  builder; its serialization, like everything of the \<open>bitcoin\<close>, \<open>secp256k1\<close> and \<open>bitvm\<close> crates, belongs to
  the parameter \<open>V\<close>. Keys, signatures and digests are their serialized bytes.
\<close>

section \<open>Scripts\<close>

datatype script_item = PushXOnlyKey bytes | PushOpcode u8 | PushInt int | PushSlice bytes

record bitcoin_env =
  taproot :: taproot_api
  wots :: winternitz_api
  btc :: bitcoin_api
  into_script :: "script_item list \<Rightarrow> bytes"
  checksig_verify_items :: "winternitz_params \<Rightarrow> winternitz_pk \<Rightarrow> script_item list"
  musig :: musig_api
  sha256 :: hasher
  x_only_public_key :: "bytes \<Rightarrow> bytes"
  key_spend_sighash :: "transaction \<Rightarrow> nat \<Rightarrow> prevouts \<Rightarrow> tap_sighash_type \<Rightarrow> bytes option"
  script_spend_sighash :: "transaction \<Rightarrow> nat \<Rightarrow> prevouts \<Rightarrow> bytes \<Rightarrow> tap_sighash_type \<Rightarrow> bytes option"
  tapleaf_hash :: "bytes \<Rightarrow> bytes"
  p2tr_key_spend :: "bytes \<Rightarrow> bytes list"

definition OP_CHECKSIG :: u8 where "OP_CHECKSIG = 0xac"
definition OP_CHECKSIGADD :: u8 where "OP_CHECKSIGADD = 0xba"
definition OP_NUMEQUAL :: u8 where "OP_NUMEQUAL = 0x9c"
definition OP_CSV :: u8 where "OP_CSV = 0xb2"
definition OP_DROP :: u8 where "OP_DROP = 0x75"
definition OP_TRUE :: u8 where "OP_TRUE = 0x51"
definition OP_FALSE :: u8 where "OP_FALSE = 0x00"
definition OP_IF :: u8 where "OP_IF = 0x63"
definition OP_ENDIF :: u8 where "OP_ENDIF = 0x68"
definition OP_SIZE :: u8 where "OP_SIZE = 0x82"
definition OP_EQUALVERIFY :: u8 where "OP_EQUALVERIFY = 0x88"
definition OP_HASH160 :: u8 where "OP_HASH160 = 0xa9"

datatype spend_path = ScriptSpend nat | KeySpend | UnknownPath

datatype spendable_script =
    CheckSig bytes
  | WinternitzCommit "(winternitz_pk \<times> u32) list" bytes u32
  | TimelockScript "bytes option" u16
  | PreimageRevealScript bytes bytes
  | BaseDepositScript bytes bytes
  | ReplacementDepositScript bytes bytes
  | OtherSpendable bytes
  | Multisig "bytes list" u32

definition ascii :: "string \<Rightarrow> bytes" where
  "ascii s = map (\<lambda>c. of_nat (of_char c)) s"

definition checksig_items :: "bytes \<Rightarrow> script_item list" where
  "checksig_items xonly_pk = [PushXOnlyKey xonly_pk, PushOpcode OP_CHECKSIG]"

definition multisig_items :: "bytes list \<Rightarrow> u32 \<Rightarrow> script_item list result" where
  "multisig_items pubkeys threshold =
     rbind (nth_checked pubkeys 0) (\<lambda>pk.
     Inr ([PushXOnlyKey pk, PushOpcode OP_CHECKSIG]
          @ concat (map (\<lambda>pubkey. [PushXOnlyKey pubkey, PushOpcode OP_CHECKSIGADD]) (drop 1 pubkeys))
          @ [PushInt (uint threshold), PushOpcode OP_NUMEQUAL]))"

definition winternitz_commit_items ::
  "bitcoin_env \<Rightarrow> (winternitz_pk \<times> u32) list \<Rightarrow> bytes \<Rightarrow> u32 \<Rightarrow> script_item list" where
  "winternitz_commit_items V commitments checksig_pubkey log_d =
     concat (map (\<lambda>(pubkey, size). checksig_verify_items V (size, log_d) pubkey) commitments)
     @ [PushSlice checksig_pubkey, PushOpcode OP_CHECKSIG]"

definition timelock_items :: "bytes option \<Rightarrow> u16 \<Rightarrow> script_item list" where
  "timelock_items xonly_pk block_count =
     [PushInt (uint block_count), PushOpcode OP_CSV, PushOpcode OP_DROP]
     @ (case xonly_pk of Some pk \<Rightarrow> [PushXOnlyKey pk, PushOpcode OP_CHECKSIG]
        | None \<Rightarrow> [PushOpcode OP_TRUE])"

definition preimage_reveal_items :: "bytes \<Rightarrow> bytes \<Rightarrow> script_item list" where
  "preimage_reveal_items xonly_pk hash =
     [PushOpcode OP_SIZE, PushInt 20, PushOpcode OP_EQUALVERIFY, PushOpcode OP_HASH160,
      PushSlice hash, PushOpcode OP_EQUALVERIFY, PushXOnlyKey xonly_pk, PushOpcode OP_CHECKSIG]"

definition base_deposit_items :: "bytes \<Rightarrow> bytes \<Rightarrow> script_item list" where
  "base_deposit_items nofn_xonly_pk evm_address =
     [PushXOnlyKey nofn_xonly_pk, PushOpcode OP_CHECKSIG, PushOpcode OP_FALSE, PushOpcode OP_IF,
      PushSlice (ascii ''citrea''), PushSlice evm_address, PushOpcode OP_ENDIF]"

definition replacement_deposit_items :: "bytes \<Rightarrow> bytes \<Rightarrow> script_item list" where
  "replacement_deposit_items nofn_xonly_pk old_move_txid =
     [PushXOnlyKey nofn_xonly_pk, PushOpcode OP_CHECKSIG, PushOpcode OP_FALSE, PushOpcode OP_IF,
      PushSlice (ascii ''citreaReplace''), PushSlice old_move_txid, PushOpcode OP_ENDIF]"

text \<open>The method \<open>to_script_buf\<close> of every kind; \<open>OtherSpendable\<close> holds a finished script.\<close>

fun to_script_buf :: "bitcoin_env \<Rightarrow> spendable_script \<Rightarrow> bytes result" where
  "to_script_buf V (CheckSig xonly_pk) = Inr (into_script V (checksig_items xonly_pk))"
| "to_script_buf V (WinternitzCommit commitments checksig_pubkey log_d) =
     Inr (into_script V (winternitz_commit_items V commitments checksig_pubkey log_d))"
| "to_script_buf V (TimelockScript xonly_pk block_count) = Inr (into_script V (timelock_items xonly_pk block_count))"
| "to_script_buf V (PreimageRevealScript xonly_pk hash) = Inr (into_script V (preimage_reveal_items xonly_pk hash))"
| "to_script_buf V (BaseDepositScript nofn_xonly_pk evm_address) =
     Inr (into_script V (base_deposit_items nofn_xonly_pk evm_address))"
| "to_script_buf V (ReplacementDepositScript nofn_xonly_pk old_move_txid) =
     Inr (into_script V (replacement_deposit_items nofn_xonly_pk old_move_txid))"
| "to_script_buf V (OtherSpendable script) = Inr script"
| "to_script_buf V (Multisig pubkeys threshold) =
     rbind (multisig_items pubkeys threshold) (\<lambda>items. Inr (into_script V items))"

record security_council =
  council_pks :: "bytes list"
  council_threshold :: u32

definition multisig_from_security_council :: "security_council \<Rightarrow> spendable_script" where
  "multisig_from_security_council council = Multisig (council_pks council) (council_threshold council)"

section \<open>Witnesses of the scripts\<close>

text \<open>The elements below the script and the control block; a signature is its serialization.\<close>

definition checksig_inputs :: "bytes \<Rightarrow> bytes list" where
  "checksig_inputs signature = [signature]"

definition timelock_inputs :: "bytes option \<Rightarrow> bytes list" where
  "timelock_inputs signature = (case signature of Some sig \<Rightarrow> [sig] | None \<Rightarrow> [])"

definition multisig_inputs :: "bytes option list \<Rightarrow> bytes list" where
  "multisig_inputs signatures = map (\<lambda>s. case s of Some sig \<Rightarrow> sig | None \<Rightarrow> []) (rev signatures)"

definition preimage_inputs :: "bytes \<Rightarrow> bytes \<Rightarrow> bytes list" where
  "preimage_inputs preimage signature = [signature, preimage]"

definition winternitz_commit_inputs ::
  "bitcoin_env \<Rightarrow> (winternitz_pk \<times> u32) list \<Rightarrow> u32 \<Rightarrow> (bytes \<times> bytes) list \<Rightarrow> bytes \<Rightarrow> bytes list" where
  "winternitz_commit_inputs V commitments log_d commit_data signature =
     winternitz_script_inputs (wots V) (map (\<lambda>(_, size). (size, log_d)) commitments) commit_data signature"

section \<open>Signatures\<close>

datatype normal_signature_kind =
    Sig_NormalSignatureUnknown | Sig_OperatorSighashDefault | Sig_Challenge | Sig_DisproveTimeout2
  | Sig_Disprove2 | Sig_Reimburse1 | Sig_KickoffNotFinalized1 | Sig_KickoffNotFinalized2 | Sig_Reimburse2
  | Sig_NoSignature | Sig_ChallengeTimeout2 | Sig_MiniAssert1 | Sig_OperatorChallengeAck1 | Sig_NotStored
  | Sig_YieldKickoffTxid | Sig_LatestBlockhashTimeout1 | Sig_LatestBlockhashTimeout2
  | Sig_LatestBlockhashTimeout3 | Sig_LatestBlockhash

datatype numbered_signature_kind =
    NSig_NumberedSignatureUnknown | NSig_NumberedNotStored | NSig_OperatorChallengeNack1
  | NSig_OperatorChallengeNack2 | NSig_OperatorChallengeNack3 | NSig_AssertTimeout1 | NSig_AssertTimeout2
  | NSig_AssertTimeout3 | NSig_UnspentKickoff1 | NSig_UnspentKickoff2 | NSig_WatchtowerChallengeTimeout1
  | NSig_WatchtowerChallengeTimeout2 | NSig_WatchtowerChallenge

definition normal_signature_kinds :: "normal_signature_kind list" where
  "normal_signature_kinds =
     [Sig_NormalSignatureUnknown, Sig_OperatorSighashDefault, Sig_Challenge, Sig_DisproveTimeout2,
      Sig_Disprove2, Sig_Reimburse1, Sig_KickoffNotFinalized1, Sig_KickoffNotFinalized2, Sig_Reimburse2,
      Sig_NoSignature, Sig_ChallengeTimeout2, Sig_MiniAssert1, Sig_OperatorChallengeAck1, Sig_NotStored,
      Sig_YieldKickoffTxid, Sig_LatestBlockhashTimeout1, Sig_LatestBlockhashTimeout2,
      Sig_LatestBlockhashTimeout3, Sig_LatestBlockhash]"

definition numbered_signature_kinds :: "numbered_signature_kind list" where
  "numbered_signature_kinds =
     [NSig_NumberedSignatureUnknown, NSig_NumberedNotStored, NSig_OperatorChallengeNack1,
      NSig_OperatorChallengeNack2, NSig_OperatorChallengeNack3, NSig_AssertTimeout1, NSig_AssertTimeout2,
      NSig_AssertTimeout3, NSig_UnspentKickoff1, NSig_UnspentKickoff2, NSig_WatchtowerChallengeTimeout1,
      NSig_WatchtowerChallengeTimeout2, NSig_WatchtowerChallenge]"

text \<open>The discriminants are \<open>0, 1, 2, ...\<close> in the order of the declarations.\<close>

definition normal_signature_code :: "normal_signature_kind \<Rightarrow> i32" where
  "normal_signature_code kind =
     (case position (\<lambda>k. k = kind) normal_signature_kinds of Some i \<Rightarrow> of_nat i | None \<Rightarrow> 0)"

definition numbered_signature_code :: "numbered_signature_kind \<Rightarrow> i32" where
  "numbered_signature_code kind =
     (case position (\<lambda>k. k = kind) numbered_signature_kinds of Some i \<Rightarrow> of_nat i | None \<Rightarrow> 0)"

definition normal_signature_try_from :: "i32 \<Rightarrow> normal_signature_kind option" where
  "normal_signature_try_from code =
     (if unat code < length normal_signature_kinds then Some (normal_signature_kinds ! unat code) else None)"

definition numbered_signature_try_from :: "i32 \<Rightarrow> numbered_signature_kind option" where
  "numbered_signature_try_from code =
     (if unat code < length numbered_signature_kinds then Some (numbered_signature_kinds ! unat code) else None)"

datatype signature_id = NormalSignature i32 | NumberedSignature i32 i32

definition normal_sig :: "normal_signature_kind \<Rightarrow> signature_id" where
  "normal_sig kind = NormalSignature (normal_signature_code kind)"

definition numbered_sig :: "numbered_signature_kind \<Rightarrow> i32 \<Rightarrow> signature_id" where
  "numbered_sig kind idx = NumberedSignature (numbered_signature_code kind) idx"

datatype entity_type = OperatorDeposit | VerifierDeposit | OperatorSetup

datatype deposit_sig_key_owner =
    NotOwned
  | OperatorSharedDeposit tap_sighash_type
  | NofnSharedDeposit tap_sighash_type
  | Own tap_sighash_type
  | OperatorSharedSetup tap_sighash_type

fun owner_sighash_type :: "deposit_sig_key_owner \<Rightarrow> tap_sighash_type option" where
  "owner_sighash_type NotOwned = None"
| "owner_sighash_type (Own t) = Some t"
| "owner_sighash_type (NofnSharedDeposit t) = Some t"
| "owner_sighash_type (OperatorSharedDeposit t) = Some t"
| "owner_sighash_type (OperatorSharedSetup t) = Some t"

fun normal_sig_owner :: "normal_signature_kind \<Rightarrow> deposit_sig_key_owner result" where
  "normal_sig_owner Sig_OperatorSighashDefault = Inr (Own SighashDefault)"
| "normal_sig_owner Sig_NormalSignatureUnknown = Inl (Err ''Signature type is unknown, possible bad data'')"
| "normal_sig_owner Sig_Challenge = Inr (OperatorSharedDeposit SighashSinglePlusAnyoneCanPay)"
| "normal_sig_owner Sig_DisproveTimeout2 = Inr (NofnSharedDeposit SighashDefault)"
| "normal_sig_owner Sig_Disprove2 = Inr (OperatorSharedDeposit SighashDefault)"
| "normal_sig_owner Sig_Reimburse1 = Inr (NofnSharedDeposit SighashDefault)"
| "normal_sig_owner Sig_KickoffNotFinalized1 = Inr (NofnSharedDeposit SighashDefault)"
| "normal_sig_owner Sig_KickoffNotFinalized2 = Inr (OperatorSharedDeposit SighashDefault)"
| "normal_sig_owner Sig_Reimburse2 = Inr (NofnSharedDeposit SighashDefault)"
| "normal_sig_owner Sig_NoSignature = Inr NotOwned"
| "normal_sig_owner Sig_ChallengeTimeout2 = Inr (NofnSharedDeposit SighashDefault)"
| "normal_sig_owner Sig_MiniAssert1 = Inr (Own SighashDefault)"
| "normal_sig_owner Sig_OperatorChallengeAck1 = Inr (Own SighashDefault)"
| "normal_sig_owner Sig_NotStored = Inr NotOwned"
| "normal_sig_owner Sig_YieldKickoffTxid = Inr NotOwned"
| "normal_sig_owner Sig_LatestBlockhashTimeout1 = Inr (NofnSharedDeposit SighashDefault)"
| "normal_sig_owner Sig_LatestBlockhashTimeout2 = Inr (NofnSharedDeposit SighashDefault)"
| "normal_sig_owner Sig_LatestBlockhashTimeout3 = Inr (OperatorSharedDeposit SighashDefault)"
| "normal_sig_owner Sig_LatestBlockhash = Inr (Own SighashDefault)"

fun numbered_sig_owner :: "numbered_signature_kind \<Rightarrow> deposit_sig_key_owner result" where
  "numbered_sig_owner NSig_OperatorChallengeNack1 = Inr (NofnSharedDeposit SighashDefault)"
| "numbered_sig_owner NSig_OperatorChallengeNack2 = Inr (NofnSharedDeposit SighashDefault)"
| "numbered_sig_owner NSig_NumberedSignatureUnknown = Inl (Err ''Numbered signature type is unknown, possible bad data'')"
| "numbered_sig_owner NSig_NumberedNotStored = Inr (Own SighashDefault)"
| "numbered_sig_owner NSig_OperatorChallengeNack3 = Inr (OperatorSharedDeposit SighashDefault)"
| "numbered_sig_owner NSig_AssertTimeout1 = Inr (NofnSharedDeposit SighashDefault)"
| "numbered_sig_owner NSig_AssertTimeout2 = Inr (NofnSharedDeposit SighashDefault)"
| "numbered_sig_owner NSig_AssertTimeout3 = Inr (OperatorSharedDeposit SighashDefault)"
| "numbered_sig_owner NSig_UnspentKickoff1 = Inr (OperatorSharedSetup SighashDefault)"
| "numbered_sig_owner NSig_UnspentKickoff2 = Inr (OperatorSharedSetup SighashDefault)"
| "numbered_sig_owner NSig_WatchtowerChallengeTimeout1 = Inr (NofnSharedDeposit SighashDefault)"
| "numbered_sig_owner NSig_WatchtowerChallengeTimeout2 = Inr (NofnSharedDeposit SighashDefault)"
| "numbered_sig_owner NSig_WatchtowerChallenge = Inr (Own SighashDefault)"

definition get_deposit_sig_owner :: "signature_id \<Rightarrow> deposit_sig_key_owner result" where
  "get_deposit_sig_owner sig_id =
     (case sig_id of
        NormalSignature code \<Rightarrow>
          rbind (expect (normal_signature_try_from code)
                   (Err ''Couldn't convert SignatureId::NormalSignature to DepositSigKey'')) normal_sig_owner
      | NumberedSignature code idx \<Rightarrow>
          rbind (expect (numbered_signature_try_from code)
                   (Err ''Couldn't convert SignatureId::NumberedSignature to DepositSigKey'')) numbered_sig_owner)"

lemma normal_signature_try_from_code [simp]: "normal_signature_try_from (normal_signature_code kind) = Some kind"
  by (cases kind) (simp_all add: normal_signature_try_from_def normal_signature_code_def normal_signature_kinds_def)

lemma numbered_signature_try_from_code [simp]: "numbered_signature_try_from (numbered_signature_code kind) = Some kind"
  by (cases kind) (simp_all add: numbered_signature_try_from_def numbered_signature_code_def numbered_signature_kinds_def)

lemma get_deposit_sig_owner_simps [simp]:
  "get_deposit_sig_owner (normal_sig kind) = normal_sig_owner kind"
  "get_deposit_sig_owner (numbered_sig nkind idx) = numbered_sig_owner nkind"
  by (simp_all add: get_deposit_sig_owner_def normal_sig_def numbered_sig_def expect_def)

text \<open>Only a multisig without keys has no script.\<close>

lemma to_script_buf_total: "(\<And>t. s \<noteq> Multisig [] t) \<Longrightarrow> \<exists>b. to_script_buf V s = Inr b"
  by (cases s) (auto simp: multisig_items_def nth_checked_def)

section \<open>A concrete environment\<close>

fun item_bytes :: "script_item \<Rightarrow> bytes" where
  "item_bytes (PushXOnlyKey key) = of_nat (length key) # key"
| "item_bytes (PushOpcode code) = [code]"
| "item_bytes (PushInt i) = [0x04] @ u32_to_le_bytes (word_of_int i)"
| "item_bytes (PushSlice bs) = of_nat (length bs) # bs"

definition env_spec :: bitcoin_env where
  "env_spec =
     \<lparr>taproot = taproot_spec, wots = winternitz_spec, btc = demo_bitcoin,
      into_script = (\<lambda>items. concat (map item_bytes items)),
      checksig_verify_items = (\<lambda>_ pk. map PushSlice pk),
      musig = musig_spec, sha256 = toy_sha,
      x_only_public_key = (\<lambda>key. drop 1 key),
      key_spend_sighash = (\<lambda>tx i _ t. Some (sighash_byte_spec t # compute_txid demo_bitcoin tx)),
      script_spend_sighash = (\<lambda>tx i _ leaf t. Some (sighash_byte_spec t # compute_txid demo_bitcoin tx @ leaf)),
      tapleaf_hash = (\<lambda>script. script),
      p2tr_key_spend = (\<lambda>signature. [signature])\<rparr>"

lemma env_spec_simps [simp]:
  "taproot env_spec = taproot_spec" "wots env_spec = winternitz_spec" "btc env_spec = demo_bitcoin"
  by (simp_all add: env_spec_def)

end
