(* ===== verification/Tx_Handler.thy ===== *)
theory Tx_Handler
  imports Tx_Scripts
begin

text \<open>
  Protocol transactions with their metadata: inputs
  (\<open>src/core/src/builder/transaction/input.rs\<close>), outputs (\<open>output.rs\<close>), and the handler with its
  builder (\<open>txhandler.rs\<close>). A handler keeps, beside the transaction and its id, the scripts and spend
  info of every input and output, the spend path and the signature each input needs.
\<close>

section \<open>Inputs and outputs\<close>

record spendable_txin =
  previous_outpoint :: out_point
  prevout :: tx_out
  sp_scripts :: "spendable_script list"
  sp_spendinfo :: "spend_info option"

record spent_txin =
  spendable :: spendable_txin
  in_sequence :: u32
  in_witness :: "bytes list option"
  in_spend_path :: spend_path
  input_id :: signature_id

record unspent_txout =
  uo_txout :: tx_out
  uo_scripts :: "spendable_script list"
  uo_spendinfo :: "spend_info option"

text \<open>
  \<open>SpendableTxIn::new\<close> is \<open>from_unchecked\<close> in a release build and \<open>from_checked\<close>, with a panic on
  failure, in a debug build.
\<close>

definition spendable_from_unchecked ::
  "out_point \<Rightarrow> tx_out \<Rightarrow> spendable_script list \<Rightarrow> spend_info option \<Rightarrow> spendable_txin" where
  "spendable_from_unchecked op out scripts info =
     \<lparr>previous_outpoint = op, prevout = out, sp_scripts = scripts, sp_spendinfo = info\<rparr>"

definition spendable_check :: "bitcoin_env \<Rightarrow> spendable_txin \<Rightarrow> unit result" where
  "spendable_check V txin =
     (case sp_spendinfo txin of
        None \<Rightarrow> Inr ()
      | Some info \<Rightarrow>
          rbind (ensure (p2tr_script (taproot V) (output_key (taproot V) info) = script_pubkey (prevout txin))
                   (Err ''IncorrectScriptPubkey'')) (\<lambda>_.
          rbind (rmap (to_script_buf V) (sp_scripts txin)) (\<lambda>script_bufs.
          ensure (\<forall>script \<in> set script_bufs. in_script_map (taproot V) info script)
            (Err ''IncompleteMerkleProofMap''))))"

definition spendable_from_checked ::
  "bitcoin_env \<Rightarrow> out_point \<Rightarrow> tx_out \<Rightarrow> spendable_script list \<Rightarrow> spend_info option \<Rightarrow> spendable_txin result" where
  "spendable_from_checked V op out scripts info =
     (let this = spendable_from_unchecked op out scripts info
      in rbind (spendable_check V this) (\<lambda>_. Inr this))"

definition spendable_new ::
  "out_point \<Rightarrow> tx_out \<Rightarrow> spendable_script list \<Rightarrow> spend_info option \<Rightarrow> spendable_txin" where
  "spendable_new op out scripts info = spendable_from_unchecked op out scripts info"

definition spendable_new_partial :: "out_point \<Rightarrow> tx_out \<Rightarrow> spendable_txin" where
  "spendable_new_partial op out = spendable_new op out [] None"

definition taproot_txout ::
  "bitcoin_env \<Rightarrow> amount \<Rightarrow> spendable_script list \<Rightarrow> bytes option \<Rightarrow> btc_network \<Rightarrow> (tx_out \<times> spend_info) result" where
  "taproot_txout V value scripts key_path net =
     rbind (rmap (to_script_buf V) scripts) (\<lambda>script_bufs.
     rbind (create_taproot_address (taproot V) script_bufs key_path net) (\<lambda>(addr, info).
     Inr (\<lparr>txo_value = value, script_pubkey = address_script_pubkey (taproot V) addr\<rparr>, info)))"

definition spendable_from_scripts ::
  "bitcoin_env \<Rightarrow> out_point \<Rightarrow> amount \<Rightarrow> spendable_script list \<Rightarrow> bytes option \<Rightarrow> btc_network \<Rightarrow> spendable_txin result" where
  "spendable_from_scripts V op value scripts key_path net =
     rbind (taproot_txout V value scripts key_path net) (\<lambda>(out, info).
     Inr (spendable_new op out scripts (Some info)))"

definition unspent_from_partial :: "tx_out \<Rightarrow> unspent_txout" where
  "unspent_from_partial out = \<lparr>uo_txout = out, uo_scripts = [], uo_spendinfo = None\<rparr>"

definition unspent_new :: "tx_out \<Rightarrow> spendable_script list \<Rightarrow> spend_info option \<Rightarrow> unspent_txout" where
  "unspent_new out scripts info = \<lparr>uo_txout = out, uo_scripts = scripts, uo_spendinfo = info\<rparr>"

definition unspent_from_scripts ::
  "bitcoin_env \<Rightarrow> amount \<Rightarrow> spendable_script list \<Rightarrow> bytes option \<Rightarrow> btc_network \<Rightarrow> unspent_txout result" where
  "unspent_from_scripts V value scripts key_path net =
     rbind (taproot_txout V value scripts key_path net) (\<lambda>(out, info).
     Inr (unspent_new out scripts (Some info)))"

definition spent_from_spendable ::
  "signature_id \<Rightarrow> spendable_txin \<Rightarrow> spend_path \<Rightarrow> u32 \<Rightarrow> bytes list option \<Rightarrow> spent_txin" where
  "spent_from_spendable sig_id txin path sq wit =
     \<lparr>spendable = txin, in_sequence = sq, in_witness = wit, in_spend_path = path, input_id = sig_id\<rparr>"

datatype tap_tweak_data = KeyPath "bytes option" | ScriptPath | UnknownTweak

definition get_tweak_data :: "bitcoin_env \<Rightarrow> spent_txin \<Rightarrow> tap_tweak_data" where
  "get_tweak_data V txin =
     (case in_spend_path txin of
        ScriptSpend _ \<Rightarrow> ScriptPath
      | KeySpend \<Rightarrow>
          (case sp_spendinfo (spendable txin) of
             Some info \<Rightarrow> KeyPath (tap_merkle_root (taproot V) info)
           | None \<Rightarrow> UnknownTweak)
      | UnknownPath \<Rightarrow> UnknownTweak)"

definition to_txin :: "spent_txin \<Rightarrow> tx_in" where
  "to_txin txin =
     \<lparr>previous_output = previous_outpoint (spendable txin), script_sig = [],
      sequence = in_sequence txin,
      witness = (case in_witness txin of Some w \<Rightarrow> w | None \<Rightarrow> [])\<rparr>"

section \<open>Handlers\<close>

text \<open>
  \<open>Sequence::ENABLE_RBF_NO_LOCKTIME\<close>, and \<open>Sequence::from_height\<close> (a relative lock in blocks, BIP 68).
\<close>

definition DEFAULT_SEQUENCE :: u32 where
  "DEFAULT_SEQUENCE = 0xFFFFFFFD"

definition from_height :: "u16 \<Rightarrow> u32" where
  "from_height h = ucast h"

record tx_handler =
  th_type :: transaction_type
  th_txins :: "spent_txin list"
  th_txouts :: "unspent_txout list"
  cached_tx :: transaction
  cached_txid :: bytes

record tx_handler_builder =
  tb_type :: transaction_type
  tb_version :: i32
  tb_lock_time :: u32
  tb_txins :: "spent_txin list"
  tb_txouts :: "unspent_txout list"

definition builder_new :: "transaction_type \<Rightarrow> tx_handler_builder" where
  "builder_new ty = \<lparr>tb_type = ty, tb_version = 2, tb_lock_time = 0, tb_txins = [], tb_txouts = []\<rparr>"

definition with_version :: "i32 \<Rightarrow> tx_handler_builder \<Rightarrow> tx_handler_builder" where
  "with_version v b = b\<lparr>tb_version := v\<rparr>"

definition add_input ::
  "signature_id \<Rightarrow> spendable_txin \<Rightarrow> spend_path \<Rightarrow> u32 \<Rightarrow> tx_handler_builder \<Rightarrow> tx_handler_builder" where
  "add_input sig_id txin path sq b =
     b\<lparr>tb_txins := tb_txins b @ [spent_from_spendable sig_id txin path sq None]\<rparr>"

definition add_output :: "unspent_txout \<Rightarrow> tx_handler_builder \<Rightarrow> tx_handler_builder" where
  "add_output out b = b\<lparr>tb_txouts := tb_txouts b @ [out]\<rparr>"

definition finalize_tx :: "bitcoin_env \<Rightarrow> tx_handler_builder \<Rightarrow> tx_handler" where
  "finalize_tx V b =
     (let tx = \<lparr>tx_version = tb_version b, lock_time = tb_lock_time b,
                tx_input = map to_txin (tb_txins b), tx_output = map uo_txout (tb_txouts b)\<rparr>
      in \<lparr>th_type = tb_type b, th_txins = tb_txins b, th_txouts = tb_txouts b,
          cached_tx = tx, cached_txid = compute_txid (btc V) tx\<rparr>)"

definition get_spendable_output :: "tx_handler \<Rightarrow> utxo_vout \<Rightarrow> spendable_txin result" where
  "get_spendable_output h vout =
     (let idx = get_vout vout
      in rbind (expect (if unat idx < length (th_txouts h) then Some (th_txouts h ! unat idx) else None)
                  (Err ''Could not find output in transaction'')) (\<lambda>out.
         Inr (spendable_new \<lparr>op_txid = cached_txid h, op_vout = idx\<rparr> (uo_txout out) (uo_scripts out) (uo_spendinfo out))))"

definition get_merkle_root_of_txin :: "bitcoin_env \<Rightarrow> tx_handler \<Rightarrow> nat \<Rightarrow> bytes option result" where
  "get_merkle_root_of_txin V h idx =
     rbind (expect (if idx < length (th_txins h) then Some (th_txins h ! idx) else None) (Err ''TxInputNotFound'')) (\<lambda>txin.
     rbind (expect (sp_spendinfo (spendable txin))
              (Err ''Spend info not found for requested txin in get_merkle_root_of_txin'')) (\<lambda>info.
     Inr (tap_merkle_root (taproot V) info)))"

definition get_signature_id :: "tx_handler \<Rightarrow> nat \<Rightarrow> signature_id result" where
  "get_signature_id h idx =
     rbind (expect (if idx < length (th_txins h) then Some (th_txins h ! idx) else None) (Err ''TxInputNotFound''))
       (\<lambda>txin. Inr (input_id txin))"

subsection \<open>Signature hashes\<close>

definition handler_prevouts :: "tx_handler \<Rightarrow> nat \<Rightarrow> tap_sighash_type \<Rightarrow> prevouts result" where
  "handler_prevouts h txin_index sighash_type =
     (let prevouts_vec = map (prevout \<circ> spendable) (th_txins h)
      in if sighash_type \<in> {SighashSinglePlusAnyoneCanPay, SighashAllPlusAnyoneCanPay, SighashNonePlusAnyoneCanPay}
         then rbind (nth_checked prevouts_vec txin_index) (\<lambda>out. Inr (PrevoutsOne txin_index out))
         else Inr (PrevoutsAll prevouts_vec))"

definition calculate_pubkey_spend_sighash :: "bitcoin_env \<Rightarrow> tx_handler \<Rightarrow> nat \<Rightarrow> tap_sighash_type \<Rightarrow> bytes result" where
  "calculate_pubkey_spend_sighash V h txin_index sighash_type =
     rbind (handler_prevouts h txin_index sighash_type) (\<lambda>prevs.
     expect (key_spend_sighash V (cached_tx h) txin_index prevs sighash_type)
       (Err ''Failed to calculate taproot sighash for key spend''))"

definition calculate_script_spend_sighash ::
  "bitcoin_env \<Rightarrow> tx_handler \<Rightarrow> nat \<Rightarrow> bytes \<Rightarrow> tap_sighash_type \<Rightarrow> bytes result" where
  "calculate_script_spend_sighash V h txin_index spend_script sighash_type =
     rbind (handler_prevouts h txin_index sighash_type) (\<lambda>prevs.
     expect (script_spend_sighash V (cached_tx h) txin_index prevs (tapleaf_hash V spend_script) sighash_type)
       (Err ''Failed to calculate taproot sighash for script spend''))"

definition calculate_script_spend_sighash_indexed ::
  "bitcoin_env \<Rightarrow> tx_handler \<Rightarrow> nat \<Rightarrow> nat \<Rightarrow> tap_sighash_type \<Rightarrow> bytes result" where
  "calculate_script_spend_sighash_indexed V h txin_index spend_script_idx sighash_type =
     rbind (expect (if txin_index < length (th_txins h) then Some (th_txins h ! txin_index) else None)
              (Err ''TxInputNotFound'')) (\<lambda>txin.
     rbind (expect (if spend_script_idx < length (sp_scripts (spendable txin))
                    then Some (sp_scripts (spendable txin) ! spend_script_idx) else None) (Err ''ScriptNotFound'')) (\<lambda>scr.
     rbind (to_script_buf V scr) (\<lambda>script.
     calculate_script_spend_sighash V h txin_index script sighash_type)))"

definition sighash_calculator :: "bitcoin_env \<Rightarrow> tx_handler \<Rightarrow> nat \<Rightarrow> tap_sighash_type \<Rightarrow> bytes result" where
  "sighash_calculator V h idx sighash_type =
     rbind (nth_checked (th_txins h) idx) (\<lambda>txin.
     case in_spend_path txin of
       KeySpend \<Rightarrow> calculate_pubkey_spend_sighash V h idx sighash_type
     | ScriptSpend script_idx \<Rightarrow> calculate_script_spend_sighash_indexed V h idx script_idx sighash_type
     | UnknownPath \<Rightarrow> Inl (Err ''SpendPathNotSpecified''))"

definition calculate_sighash_txin :: "bitcoin_env \<Rightarrow> tx_handler \<Rightarrow> nat \<Rightarrow> tap_sighash_type \<Rightarrow> bytes result" where
  "calculate_sighash_txin V h txin_index sighash_type =
     rbind (nth_checked (th_txins h) txin_index) (\<lambda>txin.
     case in_spend_path txin of
       ScriptSpend idx \<Rightarrow> calculate_script_spend_sighash_indexed V h txin_index idx sighash_type
     | KeySpend \<Rightarrow> calculate_pubkey_spend_sighash V h txin_index sighash_type
     | UnknownPath \<Rightarrow> Inl (Err ''MissingSpendInfo''))"

record partial_signature_info =
  operator_idx :: nat
  psi_round_idx :: round_index
  kickoff_utxo_idx :: nat

record signature_info =
  si_partial :: partial_signature_info
  si_signature_id :: signature_id
  si_tweak_data :: tap_tweak_data
  si_kickoff_txid :: "bytes option"

definition complete_info :: "partial_signature_info \<Rightarrow> signature_id \<Rightarrow> tap_tweak_data \<Rightarrow> signature_info" where
  "complete_info p sig_id spend_data =
     \<lparr>si_partial = p, si_signature_id = sig_id, si_tweak_data = spend_data, si_kickoff_txid = None\<rparr>"

definition complete_with_kickoff_txid :: "partial_signature_info \<Rightarrow> bytes \<Rightarrow> signature_info" where
  "complete_with_kickoff_txid p kickoff_txid =
     \<lparr>si_partial = p, si_signature_id = normal_sig Sig_YieldKickoffTxid, si_tweak_data = ScriptPath,
      si_kickoff_txid = Some kickoff_txid\<rparr>"

text \<open>The sighash type of a signature the entity shares, and nothing for any other signature.\<close>

fun shared_sighash_type :: "deposit_sig_key_owner \<Rightarrow> entity_type \<Rightarrow> tap_sighash_type option" where
  "shared_sighash_type (OperatorSharedDeposit t) OperatorDeposit = Some t"
| "shared_sighash_type (NofnSharedDeposit t) VerifierDeposit = Some t"
| "shared_sighash_type (OperatorSharedSetup t) OperatorSetup = Some t"
| "shared_sighash_type _ _ = None"

definition calculate_shared_txins_sighash ::
  "bitcoin_env \<Rightarrow> tx_handler \<Rightarrow> entity_type \<Rightarrow> partial_signature_info \<Rightarrow> (bytes \<times> signature_info) list result" where
  "calculate_shared_txins_sighash V h needed_entity partial =
     rfold (\<lambda>idx sighashes.
       rbind (nth_checked (th_txins h) idx) (\<lambda>txin.
       rbind (get_deposit_sig_owner (input_id txin)) (\<lambda>sig_owner.
       case shared_sighash_type sig_owner needed_entity of
         Some sighash_type \<Rightarrow>
           rbind (calculate_sighash_txin V h idx sighash_type) (\<lambda>sh.
           Inr (sighashes @ [(sh, complete_info partial (input_id txin) (get_tweak_data V txin))]))
       | None \<Rightarrow> Inr sighashes)))
       [0..<length (th_txins h)] []"

subsection \<open>Witnesses\<close>

definition set_input_witness :: "nat \<Rightarrow> bytes list \<Rightarrow> tx_handler \<Rightarrow> tx_handler" where
  "set_input_witness idx wit h =
     h\<lparr>cached_tx := (cached_tx h)\<lparr>tx_input := (tx_input (cached_tx h))
          [idx := (tx_input (cached_tx h) ! idx)\<lparr>witness := wit\<rparr>]\<rparr>,
       th_txins := (th_txins h)[idx := (th_txins h ! idx)\<lparr>in_witness := Some wit\<rparr>]\<rparr>"

text \<open>
  \<open>sign_txins\<close> asks the signer, which may keep a state of its own, for the witness of every input
  that has none yet.
\<close>

definition sign_txins ::
  "bitcoin_env \<Rightarrow> ('s \<Rightarrow> nat \<Rightarrow> spent_txin \<Rightarrow> (tap_sighash_type \<Rightarrow> bytes result) \<Rightarrow> ('s \<times> bytes list option) result)
   \<Rightarrow> 's \<Rightarrow> tx_handler \<Rightarrow> tx_handler result" where
  "sign_txins V signer s0 h0 =
     rbind (rfold (\<lambda>idx (s, h).
       let txin = th_txins h ! idx in
       if in_witness txin \<noteq> None then Inr (s, h)
       else rbind (signer s idx txin (sighash_calculator V h idx)) (\<lambda>(s', wit).
            case wit of
              Some w \<Rightarrow> Inr (s', set_input_witness idx w h)
            | None \<Rightarrow> Inr (s', h)))
       [0..<length (th_txins h0)] (s0, h0)) (\<lambda>(_, h). Inr h)"

definition promote :: "tx_handler \<Rightarrow> tx_handler result" where
  "promote h =
     (if \<exists>s \<in> set (th_txins h). in_witness s = None then Inl (Err ''Missing witness data'') else Inr h)"

definition set_p2tr_script_spend_witness ::
  "bitcoin_env \<Rightarrow> bytes list \<Rightarrow> nat \<Rightarrow> nat \<Rightarrow> tx_handler \<Rightarrow> tx_handler result" where
  "set_p2tr_script_spend_witness V script_inputs txin_index script_index h =
     rbind (expect (if txin_index < length (th_txins h) then Some (th_txins h ! txin_index) else None)
              (Err ''TxInputNotFound'')) (\<lambda>txin.
     rbind (ensure (in_witness txin = None) (Err ''WitnessAlreadySet'')) (\<lambda>_.
     rbind (expect (if script_index < length (sp_scripts (spendable txin))
                    then Some (sp_scripts (spendable txin) ! script_index) else None)
              (Err ''Could not find script in input'')) (\<lambda>scr.
     rbind (to_script_buf V scr) (\<lambda>script.
     rbind (expect (sp_spendinfo (spendable txin)) (Err ''MissingSpendInfo'')) (\<lambda>info.
     rbind (expect (control_block (taproot V) info script) (Err ''Failed to find control block for script'')) (\<lambda>cb.
     Inr (set_input_witness txin_index (script_inputs @ [script, cb]) h)))))))"

definition set_p2tr_key_spend_witness :: "bitcoin_env \<Rightarrow> bytes \<Rightarrow> nat \<Rightarrow> tx_handler \<Rightarrow> tx_handler result" where
  "set_p2tr_key_spend_witness V signature txin_index h =
     rbind (expect (if txin_index < length (th_txins h) then Some (th_txins h ! txin_index) else None)
              (Err ''TxInputNotFound'')) (\<lambda>txin.
     if in_witness txin = None then Inr (set_input_witness txin_index (p2tr_key_spend V signature) h)
     else Inl (Err ''WitnessAlreadySet''))"

section \<open>Well-formed handlers\<close>

text \<open>The check of a debug build, on an input and on an output.\<close>

definition checked :: "bitcoin_env \<Rightarrow> tx_out \<Rightarrow> spendable_script list \<Rightarrow> spend_info option \<Rightarrow> bool" where
  "checked V out scripts info \<longleftrightarrow> (\<forall>op. spendable_check V (spendable_new op out scripts info) = Inr ())"

definition output_checked :: "bitcoin_env \<Rightarrow> unspent_txout \<Rightarrow> bool" where
  "output_checked V out \<longleftrightarrow> checked V (uo_txout out) (uo_scripts out) (uo_spendinfo out)"

definition input_checked :: "bitcoin_env \<Rightarrow> spent_txin \<Rightarrow> bool" where
  "input_checked V txin \<longleftrightarrow> spendable_check V (spendable txin) = Inr ()"

definition handler_wf :: "bitcoin_env \<Rightarrow> tx_handler \<Rightarrow> bool" where
  "handler_wf V h \<longleftrightarrow>
     tx_input (cached_tx h) = map to_txin (th_txins h) \<and>
     tx_output (cached_tx h) = map uo_txout (th_txouts h) \<and>
     cached_txid h = compute_txid (btc V) (cached_tx h) \<and>
     (\<forall>txin \<in> set (th_txins h). input_checked V txin) \<and>
     (\<forall>out \<in> set (th_txouts h). output_checked V out)"

text \<open>The id of a transaction does not cover its witnesses (BIP 141).\<close>

definition strip_witness :: "transaction \<Rightarrow> transaction" where
  "strip_witness tx = tx\<lparr>tx_input := map (\<lambda>i. i\<lparr>witness := []\<rparr>) (tx_input tx)\<rparr>"

definition txid_law :: "bitcoin_api \<Rightarrow> bool" where
  "txid_law N \<longleftrightarrow> (\<forall>tx. compute_txid N (strip_witness tx) = compute_txid N tx)"

lemma checked_None [simp]: "checked V out scripts None"
  by (simp add: checked_def spendable_check_def spendable_new_def spendable_from_unchecked_def)

lemma checked_spendable: "checked V out scripts info \<Longrightarrow> spendable_check V (spendable_new op out scripts info) = Inr ()"
  by (simp add: checked_def)

lemma taproot_txout_ok:
  assumes "taproot_laws (taproot V)" "length scripts \<le> 2 ^ 63"
    and "taproot_txout V value scripts key net = Inr (out, info)"
  shows "checked V out scripts (Some info)" "txo_value out = value"
proof -
  obtain bufs addr where *: "rmap (to_script_buf V) scripts = Inr bufs"
      "create_taproot_address (taproot V) bufs key net = Inr (addr, info)"
      "out = \<lparr>txo_value = value, script_pubkey = address_script_pubkey (taproot V) addr\<rparr>"
    using assms(3) by (auto simp: taproot_txout_def)
  have len: "length bufs \<le> 2 ^ 63" using rmap_eq_Inr_length [OF *(1)] assms(2) by simp
  obtain si :: spend_info where si:
      "create_taproot_address (taproot V) bufs key net = Inr (p2tr_tweaked (taproot V) (output_key (taproot V) si) net, si)"
      "map snd (si_nodes si) = map TapLeaf bufs"
    by (rule create_taproot_address_ok [OF assms(1) len])
  have eq: "si = info" "addr = p2tr_tweaked (taproot V) (output_key (taproot V) info) net" using si(1) *(2) by simp_all
  have "\<forall>script \<in> set bufs. in_script_map (taproot V) info script"
    using si(2) unfolding eq taproot_lawsD(3) [OF assms(1)]
    by (metis image_eqI list.set_map)
  then show "checked V out scripts (Some info)"
    using * taproot_lawsD(5) [OF assms(1)]
    by (simp add: checked_def spendable_check_def spendable_new_def spendable_from_unchecked_def eq ensure_def)
  show "txo_value out = value" using *(3) by simp
qed

lemma unspent_from_scripts_ok:
  assumes "taproot_laws (taproot V)" "length scripts \<le> 2 ^ 63" "unspent_from_scripts V value scripts key net = Inr out"
  shows "output_checked V out" "txo_value (uo_txout out) = value" "uo_scripts out = scripts" "uo_spendinfo out \<noteq> None"
proof -
  obtain txo info where *: "taproot_txout V value scripts key net = Inr (txo, info)" "out = unspent_new txo scripts (Some info)"
    using assms(3) by (auto simp: unspent_from_scripts_def)
  from taproot_txout_ok [OF assms(1,2) *(1)] *(2)
  show "output_checked V out" "txo_value (uo_txout out) = value" "uo_scripts out = scripts" "uo_spendinfo out \<noteq> None"
    by (simp_all add: output_checked_def unspent_new_def)
qed

lemma spendable_from_scripts_ok:
  assumes "taproot_laws (taproot V)" "length scripts \<le> 2 ^ 63" "spendable_from_scripts V op value scripts key net = Inr txin"
  shows "spendable_check V txin = Inr ()" "sp_scripts txin = scripts" "txo_value (prevout txin) = value"
    "previous_outpoint txin = op" "sp_spendinfo txin \<noteq> None"
proof -
  obtain txo info where *: "taproot_txout V value scripts key net = Inr (txo, info)" "txin = spendable_new op txo scripts (Some info)"
    using assms(3) by (auto simp: spendable_from_scripts_def)
  from taproot_txout_ok [OF assms(1,2) *(1)] *(2)
  show "spendable_check V txin = Inr ()" "sp_scripts txin = scripts" "txo_value (prevout txin) = value"
    "previous_outpoint txin = op" "sp_spendinfo txin \<noteq> None"
    by (simp_all add: checked_def) (simp_all add: spendable_new_def spendable_from_unchecked_def)
qed

lemma unspent_from_partial_checked [simp]: "output_checked V (unspent_from_partial out)"
  by (simp add: output_checked_def unspent_from_partial_def)

lemma finalize_tx_wf:
  assumes "\<forall>txin \<in> set (tb_txins b). input_checked V txin" "\<forall>out \<in> set (tb_txouts b). output_checked V out"
  shows "handler_wf V (finalize_tx V b)"
  using assms by (simp add: handler_wf_def finalize_tx_def Let_def)

lemma get_spendable_output_wf:
  assumes "handler_wf V h" "get_spendable_output h vout = Inr txin"
  shows "spendable_check V txin = Inr ()"
proof -
  have "th_txouts h ! unat (get_vout vout) \<in> set (th_txouts h)"
    using assms(2) by (auto simp: get_spendable_output_def Let_def split: if_splits)
  then have "output_checked V (th_txouts h ! unat (get_vout vout))" using assms(1) by (simp add: handler_wf_def)
  then show ?thesis
    using assms(2) by (auto simp: get_spendable_output_def Let_def output_checked_def checked_def split: if_splits)
qed

subsection \<open>Signing\<close>

lemma to_txin_set_witness: "to_txin (txin\<lparr>in_witness := Some w\<rparr>) = (to_txin txin)\<lparr>witness := w\<rparr>"
  by (simp add: to_txin_def)

lemma strip_witness_set:
  "idx < length (tx_input tx) \<Longrightarrow>
   strip_witness (tx\<lparr>tx_input := (tx_input tx)[idx := (tx_input tx ! idx)\<lparr>witness := w\<rparr>]\<rparr>) = strip_witness tx"
  by (simp add: strip_witness_def map_update list_update_same_conv)

lemma set_input_witness_wf:
  assumes "txid_law (btc V)" "handler_wf V h" "idx < length (th_txins h)"
  shows "handler_wf V (set_input_witness idx w h)" "cached_txid (set_input_witness idx w h) = cached_txid h"
    "strip_witness (cached_tx (set_input_witness idx w h)) = strip_witness (cached_tx h)"
proof -
  let ?tx = "(cached_tx h)\<lparr>tx_input := (tx_input (cached_tx h))[idx := (tx_input (cached_tx h) ! idx)\<lparr>witness := w\<rparr>]\<rparr>"
  have idx: "idx < length (tx_input (cached_tx h))" using assms by (simp add: handler_wf_def)
  have strip: "strip_witness ?tx = strip_witness (cached_tx h)" by (rule strip_witness_set [OF idx])
  then have "compute_txid (btc V) ?tx = compute_txid (btc V) (cached_tx h)"
    using assms(1) unfolding txid_law_def by metis
  moreover have "\<forall>txin \<in> set ((th_txins h)[idx := (th_txins h ! idx)\<lparr>in_witness := Some w\<rparr>]). input_checked V txin"
    using assms(2,3) by (auto simp: handler_wf_def input_checked_def dest!: set_update_subset_insert [THEN subsetD])
  ultimately show "handler_wf V (set_input_witness idx w h)"
    using assms(2,3) by (simp add: handler_wf_def set_input_witness_def map_update to_txin_set_witness)
  show "cached_txid (set_input_witness idx w h) = cached_txid h" by (simp add: set_input_witness_def)
  show "strip_witness (cached_tx (set_input_witness idx w h)) = strip_witness (cached_tx h)"
    using strip by (simp add: set_input_witness_def)
qed

text \<open>What signing keeps of a handler.\<close>

definition signed_from :: "bitcoin_env \<Rightarrow> tx_handler \<Rightarrow> tx_handler \<Rightarrow> bool" where
  "signed_from V h h' \<longleftrightarrow>
     handler_wf V h' \<and> cached_txid h' = cached_txid h \<and> th_type h' = th_type h \<and> th_txouts h' = th_txouts h \<and>
     strip_witness (cached_tx h') = strip_witness (cached_tx h) \<and>
     list_all2 (\<lambda>i i'. i' = i\<lparr>in_witness := in_witness i'\<rparr> \<and> (in_witness i \<noteq> None \<longrightarrow> i' = i)) (th_txins h) (th_txins h')"

lemma signed_from_refl: "handler_wf V h \<Longrightarrow> signed_from V h h"
  by (simp add: signed_from_def list_all2_same)

lemma signed_from_set_input_witness:
  assumes "txid_law (btc V)" "signed_from V h h'" "idx < length (th_txins h')" "in_witness (th_txins h' ! idx) = None"
  shows "signed_from V h (set_input_witness idx w h')"
proof -
  let ?R = "\<lambda>i i'. i' = i\<lparr>in_witness := in_witness i'\<rparr> \<and> (in_witness i \<noteq> None \<longrightarrow> i' = i)"
  have r: "list_all2 ?R (th_txins h) (th_txins h')" using assms(2) by (simp add: signed_from_def)
  then have at: "?R (th_txins h ! idx) (th_txins h' ! idx)"
    using assms(3) by (auto dest!: list_all2_nthD2)
  have "?R (th_txins h ! idx) ((th_txins h' ! idx)\<lparr>in_witness := Some w\<rparr>)"
    using at assms(4) by (cases "th_txins h ! idx"; cases "th_txins h' ! idx") auto
  then have "list_all2 ?R ((th_txins h)[idx := th_txins h ! idx]) ((th_txins h')[idx := (th_txins h' ! idx)\<lparr>in_witness := Some w\<rparr>])"
    by (intro list_all2_update_cong r)
  then show ?thesis
    using assms(1,2,3) set_input_witness_wf [of V h' idx w]
    by (simp add: signed_from_def) (simp add: set_input_witness_def)
qed

lemma sign_txins_signed_from:
  assumes "txid_law (btc V)" "handler_wf V h" "sign_txins V signer s h = Inr h'"
  shows "signed_from V h h'"
proof -
  let ?step = "\<lambda>idx (s, h). let txin = th_txins h ! idx in
       if in_witness txin \<noteq> None then Inr (s, h)
       else rbind (signer s idx txin (sighash_calculator V h idx)) (\<lambda>(s', wit).
            case wit of Some w \<Rightarrow> Inr (s', set_input_witness idx w h) | None \<Rightarrow> Inr (s', h))"
  obtain t where run: "rfold ?step [0..<length (th_txins h)] (s, h) = Inr (t, h')"
    using assms(3) unfolding sign_txins_def by auto
  have "signed_from V h (snd (t, h'))"
  proof (rule rfold_invariant [OF run, where P = "\<lambda>x. signed_from V h (snd x)"])
    show "signed_from V h (snd (s, h))" using signed_from_refl [OF assms(2)] by simp
  next
    fix idx a b
    assume idx: "idx \<in> set [0..<length (th_txins h)]" and inv: "signed_from V h (snd a)" and st: "?step idx a = Inr b"
    have "idx < length (th_txins (snd a))"
      using idx inv by (auto simp: signed_from_def dest: list_all2_lengthD)
    then show "signed_from V h (snd b)"
      using st inv signed_from_set_input_witness [OF assms(1) inv]
      by (cases a) (auto simp: Let_def split: if_splits option.splits)
  qed
  then show ?thesis by simp
qed

subsection \<open>Shared signatures\<close>

definition owned_by :: "entity_type \<Rightarrow> spent_txin \<Rightarrow> bool" where
  "owned_by e txin \<longleftrightarrow>
     (case get_deposit_sig_owner (input_id txin) of Inr owner \<Rightarrow> shared_sighash_type owner e \<noteq> None | Inl _ \<Rightarrow> False)"

definition shared_count :: "entity_type \<Rightarrow> tx_handler \<Rightarrow> nat" where
  "shared_count e h = length (filter (owned_by e) (th_txins h))"

lemma filter_upt_nth: "n \<le> length xs \<Longrightarrow> length (filter (\<lambda>i. P (xs ! i)) [0..<n]) = length (filter P (take n xs))"
  by (induction n) (simp_all add: take_Suc_conv_app_nth)

lemma shared_txins_sighash_length:
  assumes "calculate_shared_txins_sighash V h e p = Inr sighashes"
  shows "length sighashes = shared_count e h"
proof -
  define step where "step = (\<lambda>idx sighashes.
       rbind (nth_checked (th_txins h) idx) (\<lambda>txin.
       rbind (get_deposit_sig_owner (input_id txin)) (\<lambda>sig_owner.
       case shared_sighash_type sig_owner e of
         Some sighash_type \<Rightarrow>
           rbind (calculate_sighash_txin V h idx sighash_type) (\<lambda>sh.
           Inr (sighashes @ [(sh, complete_info p (input_id txin) (get_tweak_data V txin))]))
       | None \<Rightarrow> Inr sighashes)))"
  have one: "step i acc = Inr acc' \<Longrightarrow> length acc' = length acc + length (filter (\<lambda>i. owned_by e (th_txins h ! i)) [i])" for i acc acc'
    by (auto simp: step_def owned_by_def split: option.splits sum.splits)
  have "rfold step xs acc = Inr acc' \<Longrightarrow> length acc' = length acc + length (filter (\<lambda>i. owned_by e (th_txins h ! i)) xs)" for xs acc acc'
  proof (induction xs arbitrary: acc)
    case (Cons i xs)
    then obtain a where "step i acc = Inr a" "rfold step xs a = Inr acc'" by auto
    with Cons.IH [of a] one [of i acc a] show ?case by simp
  qed simp
  from this [of "[0..<length (th_txins h)]" "[]" sighashes] assms
  have "length sighashes = length (filter (\<lambda>i. owned_by e (th_txins h ! i)) [0..<length (th_txins h)])"
    by (simp add: calculate_shared_txins_sighash_def step_def)
  then show ?thesis by (simp add: filter_upt_nth shared_count_def)
qed

section \<open>Properties\<close>

text \<open>
  C38. Signing the inputs of a well-formed handler, by any signer, keeps the transaction and its id
  apart from the witnesses: the cached transaction stays the one that inputs and outputs describe, an
  input that already had a witness is unchanged, and the handler is promoted exactly when no input is
  left without a witness.
\<close>

theorem signing_keeps_transaction:
  assumes "txid_law (btc V)" "handler_wf V h" "sign_txins V signer s h = Inr h'"
  shows "signed_from V h h' \<and>
    (promote h' = Inr h' \<longleftrightarrow> (\<forall>txin \<in> set (th_txins h'). in_witness txin \<noteq> None))"
  using sign_txins_signed_from [OF assms] by (auto simp: promote_def)

lemma demo_bitcoin_txid_law: "txid_law demo_bitcoin"
  by (simp add: txid_law_def demo_bitcoin_def strip_witness_def)

definition demo_handler :: tx_handler where
  "demo_handler =
     finalize_tx env_spec (add_output (unspent_from_partial \<lparr>txo_value = 240, script_pubkey = [0x51, 0x02, 0x4e, 0x73]\<rparr>)
       (add_input (normal_sig Sig_NoSignature)
          (spendable_new_partial \<lparr>op_txid = replicate 32 1, op_vout = 0\<rparr> \<lparr>txo_value = 1000, script_pubkey = [0x51]\<rparr>)
          KeySpend DEFAULT_SEQUENCE (builder_new Tx_Payout)))"

lemma demo_handler_wf: "handler_wf env_spec demo_handler"
  unfolding demo_handler_def
  by (rule finalize_tx_wf)
     (simp_all add: add_output_def add_input_def builder_new_def input_checked_def spent_from_spendable_def
       spendable_new_partial_def spendable_new_def spendable_from_unchecked_def spendable_check_def)

theorem signing_keeps_transaction_witness:
  "\<exists>h'. sign_txins env_spec (\<lambda>s idx txin calc. rbind (calc SighashDefault) (\<lambda>sh. Inr (s + 1, Some [sh]))) (0 :: nat) demo_handler = Inr h' \<and>
     signed_from env_spec demo_handler h' \<and> promote h' = Inr h'"
proof -
  let ?signer = "\<lambda>s idx txin calc. rbind (calc SighashDefault) (\<lambda>sh. Inr (s + (1 :: nat), Some [sh]))"
  let ?w = "[0 # replicate 32 2] :: bytes list"
  have run: "sign_txins env_spec ?signer 0 demo_handler = Inr (set_input_witness 0 ?w demo_handler)"
    by (simp add: sign_txins_def demo_handler_def finalize_tx_def add_output_def add_input_def builder_new_def
      spent_from_spendable_def sighash_calculator_def calculate_pubkey_spend_sighash_def handler_prevouts_def
      nth_checked_def expect_def env_spec_def sighash_byte_spec_def demo_bitcoin_def Let_def)
  have all: "\<forall>txin \<in> set (th_txins (set_input_witness 0 ?w demo_handler)). in_witness txin \<noteq> None"
    by (simp add: set_input_witness_def demo_handler_def finalize_tx_def add_output_def add_input_def builder_new_def Let_def)
  show ?thesis
    using signing_keeps_transaction [OF _ demo_handler_wf run] all run demo_bitcoin_txid_law by auto
qed

end
