(* ===== verification/Bitvm_Keys.thy ===== *)
theory Bitvm_Keys
  imports Tx_Handler
begin

text \<open>
  The Winternitz keys of the BitVM assertions (\<open>src/core/src/bitvm_client.rs\<close> and
  \<open>Actor::generate_bitvm_pks_for_deposit\<close> of \<open>src/core/src/actor.rs\<close>): their flattened form, the scripts
  and commit data of the assert transactions, the derivation path of every key, and the placeholders
  that are replaced in the disprove scripts. The numbers of keys are constants of the \<open>bitvm\<close> crate, the
  parameter \<open>S\<close>.
\<close>

section \<open>Keys\<close>

record chunk_sizes =
  NUM_PUBS :: nat
  NUM_U256 :: nat
  NUM_HASH :: nat

record bitvm_public_keys =
  combined_method_id_constant :: bytes
  bk_deposit_constant :: bytes
  payout_tx_blockhash_pk :: winternitz_pk
  latest_blockhash_pk :: winternitz_pk
  challenge_sending_watchtowers_pk :: winternitz_pk
  bitvm_pks_0 :: "winternitz_pk list"
  bitvm_pks_1 :: "winternitz_pk list"
  bitvm_pks_2 :: "winternitz_pk list"

definition get_replacable_value :: "u8 \<Rightarrow> u16 \<Rightarrow> u8 \<Rightarrow> bytes" where
  "get_replacable_value pk_type_idx pk_idx digit_idx =
     [pk_type_idx, ucast (drop_bit 8 pk_idx), ucast pk_idx, digit_idx] @ replicate 16 255"

definition get_replacable_wpks :: "nat \<Rightarrow> u8 \<Rightarrow> u16 \<Rightarrow> winternitz_pk" where
  "get_replacable_wpks digit_len pk_type_idx pk_idx =
     map (\<lambda>digit_idx. get_replacable_value pk_type_idx pk_idx (of_nat digit_idx)) [0..<digit_len]"

definition get_multiple_replacable_wpks :: "nat \<Rightarrow> nat \<Rightarrow> u8 \<Rightarrow> winternitz_pk list" where
  "get_multiple_replacable_wpks digit_len pk_len pk_type_idx =
     map (\<lambda>pk_idx. get_replacable_wpks digit_len pk_type_idx (of_nat pk_idx)) [0..<pk_len]"

definition create_replacable :: "chunk_sizes \<Rightarrow> bitvm_public_keys" where
  "create_replacable S =
     \<lparr>combined_method_id_constant = replicate 32 255, bk_deposit_constant = replicate 32 255,
      payout_tx_blockhash_pk = get_replacable_wpks 43 0 0,
      latest_blockhash_pk = get_replacable_wpks 43 1 0,
      challenge_sending_watchtowers_pk = get_replacable_wpks 43 2 0,
      bitvm_pks_0 = get_multiple_replacable_wpks 67 (NUM_PUBS S) 3,
      bitvm_pks_1 = get_multiple_replacable_wpks 67 (NUM_U256 S) 4,
      bitvm_pks_2 = get_multiple_replacable_wpks 35 (NUM_HASH S) 5\<rparr>"

definition vec_to_array :: "nat \<Rightarrow> bytes list \<Rightarrow> bytes list" where
  "vec_to_array n vec = take n vec @ replicate (n - length vec) (replicate 20 255)"

definition vec_slice_to_nested_array :: "nat \<Rightarrow> nat \<Rightarrow> bytes list list \<Rightarrow> bytes list list" where
  "vec_slice_to_nested_array inner_len outer_len vecs =
     map (vec_to_array inner_len) (take outer_len vecs)
     @ replicate (outer_len - length vecs) (replicate inner_len (replicate 20 255))"

definition from_flattened_vec :: "chunk_sizes \<Rightarrow> bytes list list \<Rightarrow> bitvm_public_keys result" where
  "from_flattened_vec S flattened_wpks =
     rbind (nth_checked flattened_wpks 0) (\<lambda>w0.
     rbind (nth_checked flattened_wpks 1) (\<lambda>w1.
     rbind (nth_checked flattened_wpks 2) (\<lambda>w2.
     rbind (slice 3 (3 + NUM_PUBS S) flattened_wpks) (\<lambda>s1.
     rbind (slice (3 + NUM_PUBS S) (3 + NUM_PUBS S + NUM_U256 S) flattened_wpks) (\<lambda>s2.
     rbind (slice (3 + NUM_PUBS S + NUM_U256 S) (3 + NUM_PUBS S + NUM_U256 S + NUM_HASH S) flattened_wpks) (\<lambda>s3.
     Inr \<lparr>combined_method_id_constant = replicate 32 255, bk_deposit_constant = replicate 32 255,
          payout_tx_blockhash_pk = vec_to_array 43 w0,
          latest_blockhash_pk = vec_to_array 43 w1,
          challenge_sending_watchtowers_pk = vec_to_array 43 w2,
          bitvm_pks_0 = vec_slice_to_nested_array 67 (NUM_PUBS S) s1,
          bitvm_pks_1 = vec_slice_to_nested_array 67 (NUM_U256 S) s2,
          bitvm_pks_2 = vec_slice_to_nested_array 35 (NUM_HASH S) s3\<rparr>))))))"

definition to_flattened_vec :: "bitvm_public_keys \<Rightarrow> bytes list list" where
  "to_flattened_vec pks =
     [payout_tx_blockhash_pk pks, latest_blockhash_pk pks, challenge_sending_watchtowers_pk pks]
     @ bitvm_pks_0 pks @ bitvm_pks_1 pks @ bitvm_pks_2 pks"

definition number_of_assert_txs :: nat where
  "number_of_assert_txs = NUMBER_OF_ASSERT_TXS"

definition number_of_flattened_wpks :: nat where
  "number_of_flattened_wpks = 381"

section \<open>Assert scripts and their keys\<close>

text \<open>The start indices of \<open>(0..n).step_by(k)\<close>, and the slice of a chunk.\<close>

definition step_by :: "nat \<Rightarrow> nat \<Rightarrow> nat list" where
  "step_by n k = map (\<lambda>i. i * k) [0..<(n + k - 1) div k]"

definition chunk :: "nat \<Rightarrow> nat \<Rightarrow> nat \<Rightarrow> 'a list \<Rightarrow> 'a list" where
  "chunk n k i xs = take (min (i + k) n - i) (drop i xs)"

definition get_assert_scripts :: "chunk_sizes \<Rightarrow> bitvm_public_keys \<Rightarrow> bytes \<Rightarrow> spendable_script list" where
  "get_assert_scripts S pks key =
     [WinternitzCommit
        [(challenge_sending_watchtowers_pk pks, 40), (bitvm_pks_0 pks ! 0, 64),
         (bitvm_pks_1 pks ! (NUM_U256 S - 4), 64), (bitvm_pks_1 pks ! (NUM_U256 S - 3), 64),
         (bitvm_pks_1 pks ! (NUM_U256 S - 2), 64), (bitvm_pks_1 pks ! (NUM_U256 S - 1), 64)] key 4]
     @ map (\<lambda>i. WinternitzCommit (map (\<lambda>x. (x, 64)) (chunk (NUM_U256 S) 5 i (bitvm_pks_1 pks))) key 4)
         (step_by (NUM_U256 S - 4) 5)
     @ map (\<lambda>i. WinternitzCommit (map (\<lambda>x. (x, 32)) (chunk (NUM_HASH S) 11 i (bitvm_pks_2 pks))) key 4)
         (step_by (NUM_HASH S) 11)"

type_synonym assertions = "bytes list \<times> bytes list \<times> bytes list"

definition get_assert_commit_data :: "chunk_sizes \<Rightarrow> assertions \<Rightarrow> bytes \<Rightarrow> bytes list list" where
  "get_assert_commit_data S = (\<lambda>(a0, a1, a2) challenge_sending_watchtowers.
     [[challenge_sending_watchtowers, a0 ! 0, a1 ! (NUM_U256 S - 4), a1 ! (NUM_U256 S - 3),
       a1 ! (NUM_U256 S - 2), a1 ! (NUM_U256 S - 1)]]
     @ map (\<lambda>i. chunk (NUM_U256 S) 5 i a1) (step_by (NUM_U256 S - 4) 5)
     @ map (\<lambda>i. chunk (NUM_HASH S) 11 i a2) (step_by (NUM_HASH S) 11))"

definition get_latest_blockhash_derivation :: "out_point \<Rightarrow> protocol_paramset \<Rightarrow> winternitz_derivation_path" where
  "get_latest_blockhash_derivation op p = BitvmAssertPath 40 1 0 op p"

definition get_payout_tx_blockhash_derivation :: "out_point \<Rightarrow> protocol_paramset \<Rightarrow> winternitz_derivation_path" where
  "get_payout_tx_blockhash_derivation op p = BitvmAssertPath 40 0 0 op p"

definition get_challenge_sending_watchtowers_derivation :: "out_point \<Rightarrow> protocol_paramset \<Rightarrow> winternitz_derivation_path" where
  "get_challenge_sending_watchtowers_derivation op p = BitvmAssertPath 40 2 0 op p"

definition mini_assert_derivations_0 :: "chunk_sizes \<Rightarrow> out_point \<Rightarrow> protocol_paramset \<Rightarrow> winternitz_derivation_path list" where
  "mini_assert_derivations_0 S op p =
     [get_challenge_sending_watchtowers_derivation op p,
      BitvmAssertPath 64 3 0 op p,
      BitvmAssertPath 64 4 (of_nat (NUM_U256 S - 4)) op p,
      BitvmAssertPath 64 4 (of_nat (NUM_U256 S - 3)) op p,
      BitvmAssertPath 64 4 (of_nat (NUM_U256 S - 2)) op p,
      BitvmAssertPath 64 4 (of_nat (NUM_U256 S - 1)) op p]"

definition get_assert_derivations :: "chunk_sizes \<Rightarrow> nat \<Rightarrow> out_point \<Rightarrow> protocol_paramset \<Rightarrow> winternitz_derivation_path list" where
  "get_assert_derivations S mini_assert_idx op p =
     (if mini_assert_idx = 0 then mini_assert_derivations_0 S op p
      else if mini_assert_idx \<in> {1..2} then
        let derivations = (of_nat mini_assert_idx - 1) * 5 :: u32
        in map (\<lambda>i. BitvmAssertPath 64 4 (derivations + of_nat i) op p)
             (filter (\<lambda>i. derivations + of_nat i < of_nat (NUM_U256 S) - 4) [0..<5])
      else
        let derivations = (of_nat mini_assert_idx - 3) * 11 :: u32
        in map (\<lambda>i. BitvmAssertPath 32 5 (derivations + of_nat i) op p)
             (filter (\<lambda>i. derivations + of_nat i < of_nat (NUM_HASH S)) [0..<11]))"

definition generate_bitvm_pks_for_deposit ::
  "chunk_sizes \<Rightarrow> winternitz_api \<Rightarrow> bytes \<Rightarrow> out_point \<Rightarrow> protocol_paramset \<Rightarrow> bitvm_public_keys result" where
  "generate_bitvm_pks_for_deposit S W secret_key op p =
     (let pks = create_replacable S;
          derive = (\<lambda>digits path. rbind (derive_winternitz_pk W secret_key path) (\<lambda>pk. Inr (vec_to_array digits pk)))
      in rbind (derive 43 (get_latest_blockhash_derivation op p)) (\<lambda>latest.
         rbind (derive 43 (get_challenge_sending_watchtowers_derivation op p)) (\<lambda>challenge.
         rbind (rmap (\<lambda>i. derive 67 (BitvmAssertPath 64 3 (of_nat i) op p)) [0..<length (bitvm_pks_0 pks)]) (\<lambda>b0.
         rbind (rmap (\<lambda>i. derive 67 (BitvmAssertPath 64 4 (of_nat i) op p)) [0..<length (bitvm_pks_1 pks)]) (\<lambda>b1.
         rbind (rmap (\<lambda>i. derive 35 (BitvmAssertPath 32 5 (of_nat i) op p)) [0..<length (bitvm_pks_2 pks)]) (\<lambda>b2.
         Inr (pks\<lparr>latest_blockhash_pk := latest, challenge_sending_watchtowers_pk := challenge,
                  bitvm_pks_0 := b0, bitvm_pks_1 := b1, bitvm_pks_2 := b2\<rparr>)))))))"

text \<open>The root of the one-leaf tree of every assert script.\<close>

definition get_assert_taproot_leaf_hashes :: "chunk_sizes \<Rightarrow> bitcoin_env \<Rightarrow> bitvm_public_keys \<Rightarrow> bytes \<Rightarrow> bytes list result" where
  "get_assert_taproot_leaf_hashes S V pks key =
     rmap (\<lambda>script.
       rbind (to_script_buf V script) (\<lambda>script_buf.
       rbind (taproot_builder_with_scripts (taproot V) [script_buf]) (\<lambda>builder.
       rbind (expect (tb_finalize (taproot V) UNSPENDABLE_XONLY_PUBKEY builder)
                (Panic ''taproot builder always builds a full taptree'')) (\<lambda>info.
       expect (tap_merkle_root (taproot V) info) (Panic ''taproot builder always builds a full taptree'')))))
       (get_assert_scripts S pks key)"

section \<open>Sizes\<close>

text \<open>The sizes of the \<open>bitvm\<close> version in use: one public input, 14 field elements, 363 hashes.\<close>

definition bitvm_sizes :: "chunk_sizes \<Rightarrow> bool" where
  "bitvm_sizes S \<longleftrightarrow> NUM_PUBS S = 1 \<and> NUM_U256 S = 14 \<and> NUM_HASH S = 363"

definition pks_wf :: "chunk_sizes \<Rightarrow> bitvm_public_keys \<Rightarrow> bool" where
  "pks_wf S pks \<longleftrightarrow>
     length (payout_tx_blockhash_pk pks) = 43 \<and> length (latest_blockhash_pk pks) = 43 \<and>
     length (challenge_sending_watchtowers_pk pks) = 43 \<and>
     length (bitvm_pks_0 pks) = NUM_PUBS S \<and> (\<forall>pk \<in> set (bitvm_pks_0 pks). length pk = 67) \<and>
     length (bitvm_pks_1 pks) = NUM_U256 S \<and> (\<forall>pk \<in> set (bitvm_pks_1 pks). length pk = 67) \<and>
     length (bitvm_pks_2 pks) = NUM_HASH S \<and> (\<forall>pk \<in> set (bitvm_pks_2 pks). length pk = 35)"

lemma length_vec_to_array [simp]: "length (vec_to_array n vec) = n"
  by (simp add: vec_to_array_def)

lemma vec_to_array_id [simp]: "length vec = n \<Longrightarrow> vec_to_array n vec = vec"
  by (simp add: vec_to_array_def)

lemma vec_slice_id: "length vecs = m \<Longrightarrow> \<forall>v \<in> set vecs. length v = n \<Longrightarrow> vec_slice_to_nested_array n m vecs = vecs"
  by (auto simp: vec_slice_to_nested_array_def map_idI)

lemma slice_middle: "length xs = a \<Longrightarrow> length ys = b - a \<Longrightarrow> a \<le> b \<Longrightarrow> slice a b (xs @ ys @ zs) = Inr ys"
  by (simp add: slice_def)

lemma length_rmap_upt: "rmap f [0..<n] = Inr xs \<Longrightarrow> length xs = n"
  by (drule rmap_eq_Inr_length) simp

lemma rmap_upt_nth: "rmap f [0..<n] = Inr xs \<Longrightarrow> i < n \<Longrightarrow> f i = Inr (xs ! i)"
  by (drule rmap_eq_Inr_nth [where i = i]) simp_all

lemma length_multiple_replacable [simp]: "length (get_multiple_replacable_wpks d n t) = n"
  by (simp add: get_multiple_replacable_wpks_def)

text \<open>
  Keys of the right shape survive flattening: there are 381 of them, and reading the flattened
  vector back gives the same keys, with the two constants replaced by their dummies.
\<close>

theorem flattened_keys_roundtrip:
  assumes "bitvm_sizes S" "pks_wf S pks"
  shows "length (to_flattened_vec pks) = number_of_flattened_wpks \<and>
    from_flattened_vec S (to_flattened_vec pks) =
      Inr (pks\<lparr>combined_method_id_constant := replicate 32 255, bk_deposit_constant := replicate 32 255\<rparr>)"
proof
  show "length (to_flattened_vec pks) = number_of_flattened_wpks"
    using assms by (simp add: to_flattened_vec_def number_of_flattened_wpks_def bitvm_sizes_def pks_wf_def)
  let ?h = "[payout_tx_blockhash_pk pks, latest_blockhash_pk pks, challenge_sending_watchtowers_pk pks]"
  have len: "length (bitvm_pks_0 pks) = NUM_PUBS S" "length (bitvm_pks_1 pks) = NUM_U256 S" "length (bitvm_pks_2 pks) = NUM_HASH S"
    using assms(2) by (simp_all add: pks_wf_def)
  have s1: "slice 3 (3 + NUM_PUBS S) (to_flattened_vec pks) = Inr (bitvm_pks_0 pks)"
    using slice_middle [of ?h 3 "bitvm_pks_0 pks" "3 + NUM_PUBS S" "bitvm_pks_1 pks @ bitvm_pks_2 pks"] len
    by (simp add: to_flattened_vec_def)
  have s2: "slice (3 + NUM_PUBS S) (3 + NUM_PUBS S + NUM_U256 S) (to_flattened_vec pks) = Inr (bitvm_pks_1 pks)"
    using slice_middle [of "?h @ bitvm_pks_0 pks" "3 + NUM_PUBS S" "bitvm_pks_1 pks" "3 + NUM_PUBS S + NUM_U256 S" "bitvm_pks_2 pks"] len
    by (simp add: to_flattened_vec_def)
  have s3: "slice (3 + NUM_PUBS S + NUM_U256 S) (3 + NUM_PUBS S + NUM_U256 S + NUM_HASH S) (to_flattened_vec pks) = Inr (bitvm_pks_2 pks)"
    using slice_middle [of "?h @ bitvm_pks_0 pks @ bitvm_pks_1 pks" "3 + NUM_PUBS S + NUM_U256 S" "bitvm_pks_2 pks"
        "3 + NUM_PUBS S + NUM_U256 S + NUM_HASH S" "[]"] len
    by (simp add: to_flattened_vec_def)
  have w: "nth_checked (to_flattened_vec pks) 0 = Inr (payout_tx_blockhash_pk pks)"
      "nth_checked (to_flattened_vec pks) 1 = Inr (latest_blockhash_pk pks)"
      "nth_checked (to_flattened_vec pks) 2 = Inr (challenge_sending_watchtowers_pk pks)"
    by (simp_all add: to_flattened_vec_def nth_checked_def)
  show "from_flattened_vec S (to_flattened_vec pks) =
      Inr (pks\<lparr>combined_method_id_constant := replicate 32 255, bk_deposit_constant := replicate 32 255\<rparr>)"
    unfolding from_flattened_vec_def s1 s2 s3 w
    using assms(2) by (simp add: pks_wf_def vec_slice_id)
qed

definition demo_sizes :: chunk_sizes where
  "demo_sizes = \<lparr>NUM_PUBS = 1, NUM_U256 = 14, NUM_HASH = 363\<rparr>"

lemma create_replacable_wf: "pks_wf S (create_replacable S)"
  by (auto simp: pks_wf_def create_replacable_def get_replacable_wpks_def get_multiple_replacable_wpks_def)

theorem flattened_keys_roundtrip_witness:
  "from_flattened_vec demo_sizes (to_flattened_vec (create_replacable demo_sizes)) = Inr (create_replacable demo_sizes)"
proof -
  have "bitvm_sizes demo_sizes" by (simp add: bitvm_sizes_def demo_sizes_def)
  from flattened_keys_roundtrip [OF this create_replacable_wf] show ?thesis by (simp add: create_replacable_def)
qed

section \<open>Every committed key has its derivation path\<close>

lemma length_step_by_sizes: "length (step_by 10 5) = 2" "length (step_by 363 11) = 33"
  by (simp_all add: step_by_def)

lemma length_get_assert_scripts:
  "bitvm_sizes S \<Longrightarrow> length (get_assert_scripts S pks key) = number_of_assert_txs"
  by (simp add: get_assert_scripts_def bitvm_sizes_def length_step_by_sizes number_of_assert_txs_def NUMBER_OF_ASSERT_TXS_def)

text \<open>
  Public keys have one element per digit: the message digits and, for base 16, three digits of
  checksum.
\<close>

definition wots_key_law :: "winternitz_api \<Rightarrow> bool" where
  "wots_key_law W \<longleftrightarrow> (\<forall>n \<in> {32, 40, 64}. \<forall>sk. length (generate_public_key W (n, 4) sk) = unat n + 3)"

lemma derive_length:
  assumes "wots_key_law W" "winternitz_log_d p = 4" "n \<in> {32, 40, 64}"
    and "derive_winternitz_pk W sk (BitvmAssertPath n t i op p) = Inr pk"
  shows "length pk = unat n + 3"
  using assms by (auto simp: wots_key_law_def derive_winternitz_pk_def get_params_def)

text \<open>One commitment of a script against one derivation path: the size, and the derived key.\<close>

definition committed_key :: "winternitz_api \<Rightarrow> bytes \<Rightarrow> winternitz_derivation_path \<Rightarrow> winternitz_pk \<times> u32 \<Rightarrow> bool" where
  "committed_key W sk path c \<longleftrightarrow> fst (get_params path) = snd c \<and> derive_winternitz_pk W sk path = Inr (fst c)"

lemma generated_keys:
  assumes "generate_bitvm_pks_for_deposit S W sk op p = Inr pks" "wots_key_law W" "winternitz_log_d p = 4"
  shows "derive_winternitz_pk W sk (get_challenge_sending_watchtowers_derivation op p) = Inr (challenge_sending_watchtowers_pk pks)"
    and "derive_winternitz_pk W sk (get_latest_blockhash_derivation op p) = Inr (latest_blockhash_pk pks)"
    and "length (bitvm_pks_0 pks) = NUM_PUBS S" "length (bitvm_pks_1 pks) = NUM_U256 S" "length (bitvm_pks_2 pks) = NUM_HASH S"
    and "i < NUM_PUBS S \<Longrightarrow> derive_winternitz_pk W sk (BitvmAssertPath 64 3 (of_nat i) op p) = Inr (bitvm_pks_0 pks ! i)"
    and "i < NUM_U256 S \<Longrightarrow> derive_winternitz_pk W sk (BitvmAssertPath 64 4 (of_nat i) op p) = Inr (bitvm_pks_1 pks ! i)"
    and "i < NUM_HASH S \<Longrightarrow> derive_winternitz_pk W sk (BitvmAssertPath 32 5 (of_nat i) op p) = Inr (bitvm_pks_2 pks ! i)"
proof -
  define d where "d = (\<lambda>digits path. rbind (derive_winternitz_pk W sk path) (\<lambda>pk. Inr (vec_to_array digits pk)))"
  have "length (bitvm_pks_0 (create_replacable S)) = NUM_PUBS S" "length (bitvm_pks_1 (create_replacable S)) = NUM_U256 S"
      "length (bitvm_pks_2 (create_replacable S)) = NUM_HASH S"
    by (simp_all add: create_replacable_def)
  then obtain latest challenge b0 b1 b2 where *:
      "d 43 (get_latest_blockhash_derivation op p) = Inr latest"
      "d 43 (get_challenge_sending_watchtowers_derivation op p) = Inr challenge"
      "rmap (\<lambda>i. d 67 (BitvmAssertPath 64 3 (of_nat i) op p)) [0..<NUM_PUBS S] = Inr b0"
      "rmap (\<lambda>i. d 67 (BitvmAssertPath 64 4 (of_nat i) op p)) [0..<NUM_U256 S] = Inr b1"
      "rmap (\<lambda>i. d 35 (BitvmAssertPath 32 5 (of_nat i) op p)) [0..<NUM_HASH S] = Inr b2"
    and pks: "pks = (create_replacable S)\<lparr>latest_blockhash_pk := latest, challenge_sending_watchtowers_pk := challenge,
        bitvm_pks_0 := b0, bitvm_pks_1 := b1, bitvm_pks_2 := b2\<rparr>"
    using assms(1) unfolding generate_bitvm_pks_for_deposit_def Let_def d_def [symmetric] by auto
  have id: "derive_winternitz_pk W sk (BitvmAssertPath n t k op p) = Inr pk'"
    if "d d' (BitvmAssertPath n t k op p) = Inr pk'" "n \<in> {32, 40, 64}" "d' = unat n + 3" for d' n t k pk'
    using that derive_length [OF assms(2,3) that(2)] by (auto simp: d_def)
  show "derive_winternitz_pk W sk (get_challenge_sending_watchtowers_derivation op p) = Inr (challenge_sending_watchtowers_pk pks)"
    using id *(2) by (simp add: pks get_challenge_sending_watchtowers_derivation_def)
  show "derive_winternitz_pk W sk (get_latest_blockhash_derivation op p) = Inr (latest_blockhash_pk pks)"
    using id *(1) by (simp add: pks get_latest_blockhash_derivation_def)
  show "length (bitvm_pks_0 pks) = NUM_PUBS S" "length (bitvm_pks_1 pks) = NUM_U256 S" "length (bitvm_pks_2 pks) = NUM_HASH S"
    using *(3-5) by (simp_all add: pks length_rmap_upt)
  show "i < NUM_PUBS S \<Longrightarrow> derive_winternitz_pk W sk (BitvmAssertPath 64 3 (of_nat i) op p) = Inr (bitvm_pks_0 pks ! i)"
    using id rmap_upt_nth [OF *(3)] by (simp add: pks)
  show "i < NUM_U256 S \<Longrightarrow> derive_winternitz_pk W sk (BitvmAssertPath 64 4 (of_nat i) op p) = Inr (bitvm_pks_1 pks ! i)"
    using id rmap_upt_nth [OF *(4)] by (simp add: pks)
  show "i < NUM_HASH S \<Longrightarrow> derive_winternitz_pk W sk (BitvmAssertPath 32 5 (of_nat i) op p) = Inr (bitvm_pks_2 pks ! i)"
    using id rmap_upt_nth [OF *(5)] by (simp add: pks)
qed

lemma chunk_nth:
  assumes "i + k \<le> n" "n \<le> length xs"
  shows "chunk n k i xs = map (\<lambda>j. xs ! (i + j)) [0..<k]"
proof -
  have "chunk n k i xs = take k (drop i xs)" using assms by (simp add: chunk_def)
  then show ?thesis using assms by (auto intro!: nth_equalityI)
qed

lemma step_by_nth: "i < (n + k - 1) div k \<Longrightarrow> step_by n k ! i = i * k"
  by (simp add: step_by_def)

lemma hash_derivations:
  assumes "bitvm_sizes S" "3 \<le> i" "i < 36"
  shows "get_assert_derivations S i op p = map (\<lambda>j. BitvmAssertPath 32 5 (of_nat ((i - 3) * 11 + j)) op p) [0..<11]"
proof -
  define k where "k = i - 3"
  have i: "i = k + 3" "k < 33" using assms(2,3) by (simp_all add: k_def)
  have d: "(of_nat i - 3) * 11 + of_nat j = (of_nat (k * 11 + j) :: u32)" for j by (simp add: i)
  have "(of_nat (k * 11 + j) :: u32) < of_nat 363" if "j < 11" for j
    using that i(2) by (simp add: word_less_nat_alt del: of_nat_add of_nat_mult)
  then have "filter (\<lambda>j. (of_nat i - 3) * 11 + of_nat j < (of_nat 363 :: u32)) [0..<11] = [0..<11]"
    unfolding d by (intro filter_True) auto
  then show ?thesis
    using assms unfolding get_assert_derivations_def bitvm_sizes_def Let_def d [symmetric] k_def [symmetric]
    by (simp only:) (simp add: d del: of_nat_add of_nat_mult)
qed

text \<open>
  Every mini assert can be signed: the script of assert \<open>i\<close> is a Winternitz commitment checked
  by the operator's key whose \<open>j\<close>-th public key is the one derived along the \<open>j\<close>-th path of assert \<open>i\<close>,
  with the message size of that path, and there are exactly as many asserts as the transaction
  layout reserves outputs for.
\<close>

theorem assert_scripts_match_derivations:
  assumes "bitvm_sizes S" "wots_key_law W" "winternitz_log_d p = 4"
    and "generate_bitvm_pks_for_deposit S W sk op p = Inr pks"
  shows "length (get_assert_scripts S pks key) = number_of_assert_txs \<and>
    (\<forall>i < number_of_assert_txs. \<exists>commitments.
       get_assert_scripts S pks key ! i = WinternitzCommit commitments key 4 \<and>
       list_all2 (committed_key W sk) (get_assert_derivations S i op p) commitments)"
proof (intro conjI allI impI)
  note gen = generated_keys [OF assms(4,2,3)]
  have S: "NUM_PUBS S = 1" "NUM_U256 S = 14" "NUM_HASH S = 363" using assms(1) by (simp_all add: bitvm_sizes_def)
  show "length (get_assert_scripts S pks key) = number_of_assert_txs" by (rule length_get_assert_scripts [OF assms(1)])
  fix i assume "i < number_of_assert_txs"
  then have i: "i < 36" by (simp add: number_of_assert_txs_def NUMBER_OF_ASSERT_TXS_def)
  have ck: "committed_key W sk (BitvmAssertPath n t (of_nat j) op p) (pk, n)"
    if "derive_winternitz_pk W sk (BitvmAssertPath n t (of_nat j) op p) = Inr pk" for n t j pk
    using that by (simp add: committed_key_def get_params_def)
  consider "i = 0" | "i = 1 \<or> i = 2" | "3 \<le> i" using i by linarith
  then show "\<exists>commitments. get_assert_scripts S pks key ! i = WinternitzCommit commitments key 4 \<and>
       list_all2 (committed_key W sk) (get_assert_derivations S i op p) commitments"
  proof cases
    case 1
    have "committed_key W sk (get_challenge_sending_watchtowers_derivation op p) (challenge_sending_watchtowers_pk pks, 40)"
      using gen(1) by (simp add: committed_key_def get_params_def get_challenge_sending_watchtowers_derivation_def)
    moreover have "committed_key W sk (BitvmAssertPath 64 3 0 op p) (bitvm_pks_0 pks ! 0, 64)"
      using ck [where j = 0, OF gen(6) [of 0, unfolded S]] by simp
    moreover have "committed_key W sk (BitvmAssertPath 64 4 (of_nat j) op p) (bitvm_pks_1 pks ! j, 64)" if "j < 14" for j
      by (rule ck, rule gen(7)) (use that S in simp)
    ultimately show ?thesis
      using 1 by (simp add: get_assert_scripts_def get_assert_derivations_def mini_assert_derivations_0_def S del: of_nat_numeral)
  next
    case 2
    then obtain k where k: "i = Suc k" "k < 2" by (metis One_nat_def less_2_cases_iff numeral_2_eq_2)
    have scr: "get_assert_scripts S pks key ! i =
        WinternitzCommit (map (\<lambda>x. (x, 64)) (map (\<lambda>j. bitvm_pks_1 pks ! (k * 5 + j)) [0..<5])) key 4"
      using k chunk_nth [of "k * 5" 5 14 "bitvm_pks_1 pks"] gen(4) S
      by (simp add: get_assert_scripts_def nth_append length_step_by_sizes step_by_nth del: map_map upt_rec_numeral)
    have der: "get_assert_derivations S i op p = map (\<lambda>j. BitvmAssertPath 64 4 (of_nat (k * 5 + j)) op p) [0..<5]"
      using k(2) by (auto simp: get_assert_derivations_def k(1) S less_2_cases_iff upt_rec)
    show ?thesis
      by (intro exI conjI, rule scr)
         (use k(2) in \<open>auto simp: der list_all2_conv_all_nth S intro!: ck gen(7) simp del: of_nat_add of_nat_mult upt_rec_numeral\<close>)
  next
    case 3
    define k where "k = i - 3"
    have k: "i = k + 3" "k < 33" using 3 i by (simp_all add: k_def)
    have scr: "get_assert_scripts S pks key ! i =
        WinternitzCommit (map (\<lambda>x. (x, 32)) (map (\<lambda>j. bitvm_pks_2 pks ! (k * 11 + j)) [0..<11])) key 4"
      using k chunk_nth [of "k * 11" 11 363 "bitvm_pks_2 pks"] gen(5) S
      by (simp add: get_assert_scripts_def nth_append length_step_by_sizes step_by_nth numeral_3_eq_3 del: map_map upt_rec_numeral)
    show ?thesis
      by (intro exI conjI, rule scr)
         (use k(2) in \<open>auto simp: hash_derivations [OF assms(1) 3 i] k_def [symmetric] list_all2_conv_all_nth S
           intro!: ck gen(8) simp del: of_nat_add of_nat_mult upt_rec_numeral\<close>)
  qed
qed

definition demo_wots :: winternitz_api where
  "demo_wots = winternitz_spec\<lparr>generate_public_key := (\<lambda>ps sk. replicate (unat (fst ps) + 3) sk)\<rparr>"

theorem assert_scripts_match_derivations_witness:
  "\<exists>pks. generate_bitvm_pks_for_deposit demo_sizes demo_wots [7] \<lparr>op_txid = replicate 32 1, op_vout = 0\<rparr> REGTEST_PARAMSET = Inr pks \<and>
     length (get_assert_scripts demo_sizes pks [9]) = 36 \<and>
     (\<exists>commitments. get_assert_scripts demo_sizes pks [9] ! 35 = WinternitzCommit commitments [9] 4 \<and>
        list_all2 (committed_key demo_wots [7])
          (get_assert_derivations demo_sizes 35 \<lparr>op_txid = replicate 32 1, op_vout = 0\<rparr> REGTEST_PARAMSET) commitments)"
proof -
  let ?op = "\<lparr>op_txid = replicate 32 1, op_vout = 0\<rparr>"
  have sizes: "bitvm_sizes demo_sizes" by (simp add: bitvm_sizes_def demo_sizes_def)
  have wots: "wots_key_law demo_wots" by (simp add: wots_key_law_def demo_wots_def)
  have log: "winternitz_log_d REGTEST_PARAMSET = 4" by (simp add: REGTEST_PARAMSET_def WINTERNITZ_LOG_D_def)
  have derive: "\<exists>pk. derive_winternitz_pk demo_wots [7] (BitvmAssertPath n t i ?op REGTEST_PARAMSET) = Inr pk" for n t i
    by (simp add: derive_winternitz_pk_def get_derived_winternitz_sk_def path_to_bytes_def get_network_prefix_def
      REGTEST_PARAMSET_def demo_wots_def winternitz_spec_def expect_def)
  have all: "\<exists>pks. rmap (\<lambda>i. rbind (derive_winternitz_pk demo_wots [7] (BitvmAssertPath n t (of_nat i) ?op REGTEST_PARAMSET))
      (\<lambda>pk. Inr (vec_to_array d pk))) xs = Inr pks" for n t d xs
    by (rule rmap_total) (use derive in auto)
  obtain pks where gen: "generate_bitvm_pks_for_deposit demo_sizes demo_wots [7] ?op REGTEST_PARAMSET = Inr pks"
    using derive all unfolding generate_bitvm_pks_for_deposit_def Let_def
      get_latest_blockhash_derivation_def get_challenge_sending_watchtowers_derivation_def
    by (metis rbind_simps(2))
  from assert_scripts_match_derivations [OF sizes wots log gen, of "[9]"] gen show ?thesis
    by (auto simp: number_of_assert_txs_def NUMBER_OF_ASSERT_TXS_def)
qed

end
