(* ===== verification/Disprove_Scripts.thy ===== *)
theory Disprove_Scripts
  imports Bitvm_Keys
begin

text \<open>
  The disprove scripts of a deposit (\<open>src/core/src/bitvm_client.rs\<close>): \<open>generate_fresh_data\<close> builds the
  scripts once with placeholder keys and records where every placeholder stands;
  \<open>replace_disprove_scripts\<close> copies the keys of a deposit to the recorded places. The generators of the
  \<open>bitvm\<close> crate are the parameter \<open>G\<close>. The reference is \<open>fill\<close>, one pass over a script that replaces
  each placeholder as it meets it.
\<close>

section \<open>Placeholders\<close>

type_synonym places = "(nat \<times> nat) list"

record replacement_data =
  rd_payout_tx_blockhash_pk :: "places list"
  rd_latest_blockhash_pk :: "places list"
  rd_challenge_sending_watchtowers_pk :: "places list"
  rd_bitvm_pks_0 :: "places list list"
  rd_bitvm_pks_1 :: "places list list"
  rd_bitvm_pks_2 :: "places list list"

definition replacement_data_default :: "chunk_sizes \<Rightarrow> replacement_data" where
  "replacement_data_default S =
     \<lparr>rd_payout_tx_blockhash_pk = replicate 43 [], rd_latest_blockhash_pk = replicate 43 [],
      rd_challenge_sending_watchtowers_pk = replicate 43 [],
      rd_bitvm_pks_0 = replicate (NUM_PUBS S) (replicate 67 []),
      rd_bitvm_pks_1 = replicate (NUM_U256 S) (replicate 67 []),
      rd_bitvm_pks_2 = replicate (NUM_HASH S) (replicate 35 [])\<rparr>"

record bitvm_cache =
  disprove_scripts :: "bytes list"
  replacement_places :: replacement_data

definition is_placeholder :: "bytes \<Rightarrow> bool" where
  "is_placeholder window \<longleftrightarrow> take 16 (drop 4 window) = replicate 16 255"

definition push_place :: "nat \<Rightarrow> nat \<times> nat \<Rightarrow> places list \<Rightarrow> places list result" where
  "push_place i place xs = rbind (nth_checked xs i) (\<lambda>ps. Inr (xs[i := ps @ [place]]))"

definition push_place2 :: "nat \<Rightarrow> nat \<Rightarrow> nat \<times> nat \<Rightarrow> places list list \<Rightarrow> places list list result" where
  "push_place2 i j place xss = rbind (nth_checked xss i) (\<lambda>xs. rbind (push_place j place xs) (\<lambda>xs'. Inr (xss[i := xs'])))"

definition record_place :: "bytes \<Rightarrow> nat \<times> nat \<Rightarrow> replacement_data \<Rightarrow> replacement_data result" where
  "record_place window place rd =
     (let pk_type_idx = window ! 0;
          pk_idx = be_nat [window ! 1, window ! 2];
          digit_idx = unat (window ! 3)
      in if pk_type_idx = 0 then
           rbind (push_place digit_idx place (rd_payout_tx_blockhash_pk rd)) (\<lambda>x. Inr (rd\<lparr>rd_payout_tx_blockhash_pk := x\<rparr>))
         else if pk_type_idx = 1 then
           rbind (push_place digit_idx place (rd_latest_blockhash_pk rd)) (\<lambda>x. Inr (rd\<lparr>rd_latest_blockhash_pk := x\<rparr>))
         else if pk_type_idx = 2 then
           rbind (push_place digit_idx place (rd_challenge_sending_watchtowers_pk rd))
             (\<lambda>x. Inr (rd\<lparr>rd_challenge_sending_watchtowers_pk := x\<rparr>))
         else if pk_type_idx = 3 then
           rbind (push_place2 pk_idx digit_idx place (rd_bitvm_pks_0 rd)) (\<lambda>x. Inr (rd\<lparr>rd_bitvm_pks_0 := x\<rparr>))
         else if pk_type_idx = 4 then
           rbind (push_place2 pk_idx digit_idx place (rd_bitvm_pks_1 rd)) (\<lambda>x. Inr (rd\<lparr>rd_bitvm_pks_1 := x\<rparr>))
         else if pk_type_idx = 5 then
           rbind (push_place2 pk_idx digit_idx place (rd_bitvm_pks_2 rd)) (\<lambda>x. Inr (rd\<lparr>rd_bitvm_pks_2 := x\<rparr>))
         else Inl (Panic ''Invalid pk type index''))"

function scan_script :: "nat \<Rightarrow> bytes \<Rightarrow> nat \<Rightarrow> replacement_data \<Rightarrow> replacement_data result" where
  "scan_script script_idx script pos rd =
     (if pos + 20 \<le> length script then
        if is_placeholder (drop pos script)
        then rbind (record_place (drop pos script) (script_idx, pos) rd) (scan_script script_idx script (pos + 20))
        else scan_script script_idx script (pos + 1) rd
      else Inr rd)"
  by pat_completeness auto
termination
  by (relation "measure (\<lambda>(_, script, pos, _). length script - pos)") auto

declare scan_script.simps [simp del]

record script_generator =
  api_generate_partial_script :: "bytes list"
  api_generate_full_tapscripts :: "winternitz_pk list \<times> winternitz_pk list \<times> winternitz_pk list \<Rightarrow> bytes list \<Rightarrow> bytes list"

definition generate_fresh_data :: "chunk_sizes \<Rightarrow> script_generator \<Rightarrow> bitvm_cache result" where
  "generate_fresh_data S G =
     (let dummy_pks = create_replacable S;
          partial_scripts = api_generate_partial_script G
      in rbind (ensure (\<forall>script \<in> set partial_scripts. \<forall>pos < length script - 19. \<not> is_placeholder (drop pos script))
                  (Panic ''Dummy value found in script'')) (\<lambda>_.
         let scripts = api_generate_full_tapscripts G
               (bitvm_pks_0 dummy_pks, bitvm_pks_1 dummy_pks, bitvm_pks_2 dummy_pks) partial_scripts
         in rbind (rfold (\<lambda>(script_idx, script) rd. scan_script script_idx script 0 rd)
                     (List.enumerate 0 scripts) (replacement_data_default S)) (\<lambda>rd.
            Inr \<lparr>disprove_scripts = scripts, replacement_places = rd\<rparr>)))"

section \<open>Replacement\<close>

definition MAX_SCRIPT_REPLACEMENT_OPERATIONS :: nat where
  "MAX_SCRIPT_REPLACEMENT_OPERATIONS = 100000"

definition calculate_replacement_operations :: "replacement_data \<Rightarrow> nat" where
  "calculate_replacement_operations rd =
     sum_list (map length (rd_payout_tx_blockhash_pk rd)) + sum_list (map length (rd_latest_blockhash_pk rd))
     + sum_list (map length (rd_challenge_sending_watchtowers_pk rd))
     + sum_list (map length (concat (rd_bitvm_pks_0 rd))) + sum_list (map length (concat (rd_bitvm_pks_1 rd)))
     + sum_list (map length (concat (rd_bitvm_pks_2 rd)))"

text \<open>The copies of the loops over one array of places, and of all six, in their order.\<close>

definition array_copies :: "places list \<Rightarrow> winternitz_pk \<Rightarrow> (nat \<times> nat \<times> bytes) list" where
  "array_copies xs pk = concat (map (\<lambda>(digit, places). map (\<lambda>(script_idx, pos). (script_idx, pos, pk ! digit)) places) (List.enumerate 0 xs))"

definition nested_copies :: "places list list \<Rightarrow> winternitz_pk list \<Rightarrow> (nat \<times> nat \<times> bytes) list" where
  "nested_copies xss pks = concat (map (\<lambda>(i, xs). array_copies xs (pks ! i)) (List.enumerate 0 xss))"

definition replacement_copies :: "bitvm_public_keys \<Rightarrow> replacement_data \<Rightarrow> (nat \<times> nat \<times> bytes) list" where
  "replacement_copies pks rd =
     array_copies (rd_payout_tx_blockhash_pk rd) (payout_tx_blockhash_pk pks)
     @ array_copies (rd_latest_blockhash_pk rd) (latest_blockhash_pk pks)
     @ array_copies (rd_challenge_sending_watchtowers_pk rd) (challenge_sending_watchtowers_pk pks)
     @ nested_copies (rd_bitvm_pks_0 rd) (bitvm_pks_0 pks)
     @ nested_copies (rd_bitvm_pks_1 rd) (bitvm_pks_1 pks)
     @ nested_copies (rd_bitvm_pks_2 rd) (bitvm_pks_2 pks)"

definition copy_key :: "nat \<times> nat \<times> bytes \<Rightarrow> bytes list \<Rightarrow> bytes list result" where
  "copy_key = (\<lambda>(script_idx, pos, key) scripts.
     rbind (nth_checked scripts script_idx) (\<lambda>script.
     rbind (ensure (pos + 20 \<le> length script \<and> length key = 20) index_oob) (\<lambda>_.
     Inr (scripts[script_idx := take pos script @ key @ drop (pos + 20) script]))))"

definition replace_disprove_scripts :: "bitvm_cache \<Rightarrow> bitvm_public_keys \<Rightarrow> bytes list result" where
  "replace_disprove_scripts cache pks =
     (if calculate_replacement_operations (replacement_places cache) > MAX_SCRIPT_REPLACEMENT_OPERATIONS
      then Inl (Err ''BitvmReplacementResourceExhaustion'')
      else rfold copy_key (replacement_copies pks (replacement_places cache)) (disprove_scripts cache))"

section \<open>The reference: one pass over a script\<close>

definition key_of :: "bitvm_public_keys \<Rightarrow> bytes \<Rightarrow> bytes" where
  "key_of pks window =
     (let t = window ! 0; i = be_nat [window ! 1, window ! 2]; d = unat (window ! 3)
      in if t = 0 then payout_tx_blockhash_pk pks ! d
         else if t = 1 then latest_blockhash_pk pks ! d
         else if t = 2 then challenge_sending_watchtowers_pk pks ! d
         else if t = 3 then bitvm_pks_0 pks ! i ! d
         else if t = 4 then bitvm_pks_1 pks ! i ! d
         else bitvm_pks_2 pks ! i ! d)"

function fill :: "(bytes \<Rightarrow> bytes) \<Rightarrow> bytes \<Rightarrow> bytes" where
  "fill K script =
     (if 20 \<le> length script then
        if is_placeholder script then K script @ fill K (drop 20 script) else hd script # fill K (tl script)
      else script)"
  by pat_completeness auto
termination
  by (relation "measure (length \<circ> snd)") auto

function windows :: "bytes \<Rightarrow> nat list" where
  "windows script =
     (if 20 \<le> length script then
        if is_placeholder script then 0 # map (\<lambda>p. p + 20) (windows (drop 20 script)) else map Suc (windows (tl script))
      else [])"
  by pat_completeness auto
termination
  by (relation "measure length") auto

declare fill.simps [simp del] windows.simps [simp del]

subsection \<open>What the scan records\<close>

lemma set_array_copies: "set (array_copies ys pk) = {(a, b, pk ! k) | a b k. k < length ys \<and> (a, b) \<in> set (ys ! k)}"
  by (force simp: array_copies_def in_set_enumerate_eq)

lemma set_nested_copies: "set (nested_copies ys pks) = {c. \<exists>k < length ys. c \<in> set (array_copies (ys ! k) (pks ! k))}"
  by (force simp: nested_copies_def in_set_enumerate_eq)

lemma array_copies_push:
  assumes "push_place i (s, p) xs = Inr xs'"
  shows "set (array_copies xs' pk) = insert (s, p, pk ! i) (set (array_copies xs pk))" "length xs' = length xs"
proof -
  have i: "i < length xs" and xs': "xs' = xs[i := xs ! i @ [(s, p)]]" using assms by (auto simp: push_place_def)
  show "set (array_copies xs' pk) = insert (s, p, pk ! i) (set (array_copies xs pk))"
    unfolding set_array_copies xs' using i by (auto simp: nth_list_update split: if_splits; blast)
  show "length xs' = length xs" by (simp add: xs')
qed

lemma nested_copies_push:
  assumes "push_place2 i j (s, p) xss = Inr xss'"
  shows "set (nested_copies xss' pks) = insert (s, p, pks ! i ! j) (set (nested_copies xss pks))" "length xss' = length xss"
proof -
  obtain xs' where i: "i < length xss" and push: "push_place j (s, p) (xss ! i) = Inr xs'" and xss': "xss' = xss[i := xs']"
    using assms by (auto simp: push_place2_def)
  show "set (nested_copies xss' pks) = insert (s, p, pks ! i ! j) (set (nested_copies xss pks))"
    unfolding set_nested_copies xss' using i array_copies_push(1) [OF push, of "pks ! i"]
    by (auto simp: nth_list_update split: if_splits)
  show "length xss' = length xss" by (simp add: xss')
qed

lemma record_place_copies:
  assumes "record_place window (s, p) rd = Inr rd'"
  shows "set (replacement_copies pks rd') = insert (s, p, key_of pks window) (set (replacement_copies pks rd))"
  using assms unfolding record_place_def key_of_def Let_def
  by (auto simp: replacement_copies_def array_copies_push(1) nested_copies_push(1) split: if_splits)

lemma scan_script_copies:
  assumes "scan_script s script pos rd = Inr rd'"
  shows "set (replacement_copies pks rd') =
    set (replacement_copies pks rd) \<union> (\<lambda>p. (s, pos + p, key_of pks (drop (pos + p) script))) ` set (windows (drop pos script))"
  using assms
proof (induction s script pos rd rule: scan_script.induct)
  case (1 s script pos rd)
  show ?case
  proof (cases "pos + 20 \<le> length script")
    case False
    then have "rd' = rd" using 1(3) by (simp add: scan_script.simps [of s script pos])
    moreover have "windows (drop pos script) = []" using False by (subst windows.simps) auto
    ultimately show ?thesis by simp
  next
    case len: True
    have l: "20 \<le> length (drop pos script)" using len unfolding length_drop by linarith
    show ?thesis
    proof (cases "is_placeholder (drop pos script)")
      case True
      then obtain rd1 where rd1: "record_place (drop pos script) (s, pos) rd = Inr rd1" "scan_script s script (pos + 20) rd1 = Inr rd'"
        using 1(3) len by (auto simp: scan_script.simps [of s script pos])
      have w: "windows (drop pos script) = 0 # map (\<lambda>p. p + 20) (windows (drop (pos + 20) script))"
        unfolding windows.simps [of "drop pos script"] by (simp only: l True if_True drop_drop add.commute)
      show ?thesis
        unfolding 1(1) [OF len True rd1(2)] record_place_copies [OF rd1(1)] w
        by (auto simp: image_image ac_simps)
    next
      case False
      then have "scan_script s script (pos + 1) rd = Inr rd'" using 1(3) len by (simp add: scan_script.simps [of s script pos])
      moreover have w: "windows (drop pos script) = map Suc (windows (drop (pos + 1) script))"
        unfolding windows.simps [of "drop pos script"]
        by (simp only: l False if_True if_False) (simp add: tl_drop drop_Suc)
      ultimately show ?thesis
        using 1(2) [OF len False] by (simp add: w image_image)
    qed
  qed
qed

lemma default_copies: "replacement_copies pks (replacement_data_default S) = []"
  by (auto simp: replacement_copies_def replacement_data_default_def array_copies_def nested_copies_def
    in_set_enumerate_eq dest: set_mp)

lemma generated_copies:
  assumes "generate_fresh_data S G = Inr cache"
  shows "set (replacement_copies pks (replacement_places cache)) =
    {(s, p, key_of pks (drop p (disprove_scripts cache ! s))) | s p.
       s < length (disprove_scripts cache) \<and> p \<in> set (windows (disprove_scripts cache ! s))}"
proof -
  obtain scripts rd where cache: "cache = \<lparr>disprove_scripts = scripts, replacement_places = rd\<rparr>"
    and run: "rfold (\<lambda>(script_idx, script) rd. scan_script script_idx script 0 rd) (List.enumerate 0 scripts)
      (replacement_data_default S) = Inr rd"
    using assms by (auto simp: generate_fresh_data_def Let_def)
  have "set (replacement_copies pks r') = set (replacement_copies pks r) \<union>
      {(n + s, p, key_of pks (drop p (xs ! s))) | s p. s < length xs \<and> p \<in> set (windows (xs ! s))}"
    if "rfold (\<lambda>(script_idx, script) rd. scan_script script_idx script 0 rd) (List.enumerate n xs) r = Inr r'" for n xs r r'
    using that
  proof (induction xs arbitrary: n r)
    case (Cons x xs)
    then obtain r1 where r1: "scan_script n x 0 r = Inr r1"
        "rfold (\<lambda>(script_idx, script) rd. scan_script script_idx script 0 rd) (List.enumerate (Suc n) xs) r1 = Inr r'" by auto
    show ?case
      unfolding Cons.IH [OF r1(2)] scan_script_copies [OF r1(1)]
      by (auto simp: less_Suc_eq_0_disj nth_Cons' image_iff)
  qed simp
  from this [OF run] show ?thesis by (simp add: cache default_copies)
qed


subsection \<open>Copies to disjoint windows\<close>

definition covers :: "nat \<Rightarrow> nat \<Rightarrow> bool" where
  "covers p b \<longleftrightarrow> p \<le> b \<and> b < p + 20"

definition copies_ok :: "bytes list \<Rightarrow> (nat \<times> nat \<times> bytes) set \<Rightarrow> bool" where
  "copies_ok scripts C \<longleftrightarrow>
     (\<forall>s p v. (s, p, v) \<in> C \<longrightarrow> s < length scripts \<and> p + 20 \<le> length (scripts ! s) \<and> length v = 20) \<and>
     (\<forall>s p v p' v' b. (s, p, v) \<in> C \<longrightarrow> (s, p', v') \<in> C \<longrightarrow> covers p b \<longrightarrow> covers p' b \<longrightarrow> p = p' \<and> v = v')"

lemma copies_okD:
  assumes "copies_ok scripts C" "(s, p, v) \<in> C"
  shows "s < length scripts" "p + 20 \<le> length (scripts ! s)" "length v = 20"
    "(s, p', v') \<in> C \<Longrightarrow> covers p b \<Longrightarrow> covers p' b \<Longrightarrow> p = p' \<and> v = v'"
  using assms unfolding copies_ok_def by blast+

definition patched :: "bytes list \<Rightarrow> (nat \<times> nat \<times> bytes) set \<Rightarrow> bytes list \<Rightarrow> bool" where
  "patched scripts C result \<longleftrightarrow>
     map length result = map length scripts \<and>
     (\<forall>s < length scripts. \<forall>b < length (scripts ! s).
        (\<forall>p v. (s, p, v) \<in> C \<longrightarrow> covers p b \<longrightarrow> result ! s ! b = v ! (b - p)) \<and>
        ((\<forall>p v. (s, p, v) \<in> C \<longrightarrow> \<not> covers p b) \<longrightarrow> result ! s ! b = scripts ! s ! b))"

lemma nth_copied:
  assumes "p + 20 \<le> length script" "length v = 20" "b < length script"
  shows "(take p script @ v @ drop (p + 20) script) ! b = (if covers p b then v ! (b - p) else script ! b)"
  using assms by (auto simp: covers_def nth_append min_def)

lemma copies_patch:
  assumes "copies_ok scripts (set cs)"
  shows "\<exists>result. rfold copy_key cs scripts = Inr result \<and> patched scripts (set cs) result"
  using assms
proof (induction cs arbitrary: scripts)
  case Nil
  then show ?case by (simp add: patched_def)
next
  case (Cons c cs)
  obtain s p v where c: "c = (s, p, v)" by (cases c)
  have ok: "s < length scripts" "p + 20 \<le> length (scripts ! s)" "length v = 20"
    using copies_okD [OF Cons.prems, of s p v] by (simp_all add: c)
  define scripts1 where "scripts1 = scripts[s := take p (scripts ! s) @ v @ drop (p + 20) (scripts ! s)]"
  have copy: "copy_key c scripts = Inr scripts1"
    using ok by (simp add: copy_key_def c nth_checked_def ensure_def scripts1_def)
  have len: "length (scripts1 ! k) = length (scripts ! k)" if "k < length scripts" for k
    using that ok by (auto simp: scripts1_def nth_list_update)
  have n1: "length scripts1 = length scripts" by (simp add: scripts1_def)
  have "copies_ok scripts1 (set cs)"
    unfolding copies_ok_def
  proof (intro conjI allI impI)
    fix s p v assume "(s, p, v) \<in> set cs"
    then have "(s, p, v) \<in> set (c # cs)" by simp
    note d = copies_okD(1-3) [OF Cons.prems this]
    show "s < length scripts1" "p + 20 \<le> length (scripts1 ! s)" "length v = 20" using d len [OF d(1)] n1 by simp_all
  next
    fix s p v p' v' b assume a: "(s, p, v) \<in> set cs" "(s, p', v') \<in> set cs" "covers p b" "covers p' b"
    then have "(s, p, v) \<in> set (c # cs)" "(s, p', v') \<in> set (c # cs)" by simp_all
    from copies_okD(4) [OF Cons.prems this a(3,4)] show "p = p'" "v = v'" by simp_all
  qed
  then obtain result where res: "rfold copy_key cs scripts1 = Inr result" "patched scripts1 (set cs) result"
    using Cons.IH by blast
  have at: "scripts1 ! k ! b = (if k = s \<and> covers p b then v ! (b - p) else scripts ! k ! b)"
    if "k < length scripts" "b < length (scripts ! k)" for k b
    using that ok nth_copied [OF ok(2,3)] by (auto simp: scripts1_def nth_list_update)
  have "patched scripts (set (c # cs)) result"
    unfolding patched_def
  proof (intro conjI allI impI)
    have "map length scripts1 = map length scripts" using len by (intro nth_equalityI) (simp_all add: scripts1_def)
    then show "map length result = map length scripts" using res(2) by (simp add: patched_def)
  next
    fix k b p' v'
    assume k: "k < length scripts" "b < length (scripts ! k)" and mem: "(k, p', v') \<in> set (c # cs)" and cov: "covers p' b"
    have k1: "k < length scripts1" "b < length (scripts1 ! k)" using k len by (simp_all add: scripts1_def)
    show "result ! k ! b = v' ! (b - p')"
    proof (cases "\<exists>q w. (k, q, w) \<in> set cs \<and> covers q b")
      case True
      then obtain q w where q: "(k, q, w) \<in> set cs" "covers q b" by blast
      then have "result ! k ! b = w ! (b - q)" using res(2) k1 unfolding patched_def by blast
      moreover have "q = p' \<and> w = v'"
        using copies_okD(4) [OF Cons.prems _ mem q(2) cov, of w] q(1) by simp
      ultimately show ?thesis by simp
    next
      case False
      then have "(k, p', v') = c" using mem cov by auto
      moreover have "result ! k ! b = scripts1 ! k ! b" using False res(2) k1 unfolding patched_def by blast
      ultimately show ?thesis using at [OF k] cov by (simp add: c)
    qed
  next
    fix k b
    assume k: "k < length scripts" "b < length (scripts ! k)"
      and no: "\<forall>p v. (k, p, v) \<in> set (c # cs) \<longrightarrow> \<not> covers p b"
    have k1: "k < length scripts1" "b < length (scripts1 ! k)" using k len by (simp_all add: scripts1_def)
    have "\<forall>p v. (k, p, v) \<in> set cs \<longrightarrow> \<not> covers p b" using no by simp
    then have "result ! k ! b = scripts1 ! k ! b" using res(2) k1 unfolding patched_def by blast
    then show "result ! k ! b = scripts ! k ! b" using at [OF k] no by (auto simp: c)
  qed
  then show ?case using copy res(1) by auto
qed


subsection \<open>The windows of a script\<close>

lemma windows_bound: "p \<in> set (windows script) \<Longrightarrow> p + 20 \<le> length script \<and> is_placeholder (drop p script)"
proof (induction script arbitrary: p rule: windows.induct)
  case (1 script)
  show ?case
  proof (cases "20 \<le> length script")
    case False
    then show ?thesis using 1(3) by (simp add: windows.simps [of script])
  next
    case len: True
    show ?thesis
    proof (cases "is_placeholder script")
      case True
      then have "p = 0 \<or> (\<exists>q \<in> set (windows (drop 20 script)). p = q + 20)"
        using 1(3) len by (auto simp: windows.simps [of script])
      then show ?thesis
      proof
        assume "p = 0"
        then show ?thesis using len True by simp
      next
        assume "\<exists>q \<in> set (windows (drop 20 script)). p = q + 20"
        then obtain q where q: "q \<in> set (windows (drop 20 script))" "p = q + 20" by blast
        have "q + 20 \<le> length script - 20" "is_placeholder (drop (q + 20) script)"
          using 1(1) [OF len True q(1)] by simp_all
        moreover from this(1) have "p + 20 \<le> length script" using q(2) len by linarith
        ultimately show ?thesis using q(2) by simp
      qed
    next
      case False
      then obtain q where q: "p = Suc q" "q \<in> set (windows (tl script))"
        using 1(3) len by (auto simp: windows.simps [of script])
      have "q + 20 \<le> length script - 1" "is_placeholder (drop q (tl script))" using 1(2) [OF len False q(2)] by simp_all
      moreover from this(1) have "p + 20 \<le> length script" using q(1) len by linarith
      ultimately show ?thesis using q(1) by (simp add: drop_Suc)
    qed
  qed
qed

lemma windows_disjoint:
  "p \<in> set (windows script) \<Longrightarrow> q \<in> set (windows script) \<Longrightarrow> covers p b \<Longrightarrow> covers q b \<Longrightarrow> p = q"
proof (induction script arbitrary: p q b rule: windows.induct)
  case (1 script)
  have len: "20 \<le> length script" using 1(3) by (rule contrapos_pp) (simp add: windows.simps [of script])
  show ?case
  proof (cases "is_placeholder script")
    case True
    then have "p = 0 \<or> (\<exists>p'. p = p' + 20 \<and> p' \<in> set (windows (drop 20 script)))"
      and "q = 0 \<or> (\<exists>q'. q = q' + 20 \<and> q' \<in> set (windows (drop 20 script)))"
      using 1(3,4) len by (auto simp: windows.simps [of script])
    moreover have "p' = q'" if "p = p' + 20" "p' \<in> set (windows (drop 20 script))" "q = q' + 20" "q' \<in> set (windows (drop 20 script))" for p' q'
      by (rule 1(1) [OF len True that(2,4), of "b - 20"]) (use 1(5,6) that in \<open>auto simp: covers_def\<close>)
    ultimately show ?thesis using 1(5,6) by (auto simp: covers_def)
  next
    case False
    then obtain p' q' where pq: "p = Suc p'" "p' \<in> set (windows (tl script))" "q = Suc q'" "q' \<in> set (windows (tl script))"
      using 1(3,4) len by (auto simp: windows.simps [of script])
    have "p' = q'" by (rule 1(2) [OF len False pq(2,4), of "b - 1"]) (use 1(5,6) pq in \<open>auto simp: covers_def\<close>)
    then show ?thesis using pq by simp
  qed
qed

lemma fill_nth:
  assumes "\<forall>p \<in> set (windows script). length (K (drop p script)) = 20"
  shows "length (fill K script) = length script"
    and "b < length script \<Longrightarrow> p \<in> set (windows script) \<Longrightarrow> covers p b \<Longrightarrow> fill K script ! b = K (drop p script) ! (b - p)"
    and "b < length script \<Longrightarrow> \<forall>p \<in> set (windows script). \<not> covers p b \<Longrightarrow> fill K script ! b = script ! b"
  using assms
proof (induction K script arbitrary: b p rule: fill.induct)
  case (1 K script)
  {
    case 1
    note prem = this
    show ?case
    proof (cases "20 \<le> length script")
      case len: True
      show ?thesis
      proof (cases "is_placeholder script")
        case True
        then have "windows script = 0 # map (\<lambda>p. p + 20) (windows (drop 20 script))" using len by (simp add: windows.simps [of script])
        then have "length (K script) = 20" "length (fill K (drop 20 script)) = length script - 20"
          using "1.IH"(1) [OF len True] prem by (simp_all add: add.commute)
        then show ?thesis using len True by (simp add: fill.simps [of K script])
      next
        case False
        then have "windows script = map Suc (windows (tl script))" using len by (simp add: windows.simps [of script])
        then have "length (fill K (tl script)) = length script - 1" using "1.IH"(4) [OF len False] prem by (simp add: drop_Suc)
        then show ?thesis using len False by (simp add: fill.simps [of K script])
      qed
    qed (simp add: fill.simps [of K script])
  next
    case 2
    note prem = this
    have len: "20 \<le> length script" using 2(2) by (rule contrapos_pp) (simp add: windows.simps [of script])
    show ?case
    proof (cases "is_placeholder script")
      case True
      then have w: "windows script = 0 # map (\<lambda>p. p + 20) (windows (drop 20 script))" using len by (simp add: windows.simps [of script])
      have k: "length (K script) = 20" using prem(4) by (simp add: w)
      have f: "fill K script = K script @ fill K (drop 20 script)" using len True by (simp add: fill.simps [of K script])
      show ?thesis
      proof (cases "p = 0")
        case True
        then show ?thesis using prem(3) k by (simp add: f covers_def nth_append)
      next
        case False
        then obtain q where q: "p = q + 20" "q \<in> set (windows (drop 20 script))" using prem(2) by (auto simp: w)
        have "fill K (drop 20 script) ! (b - 20) = K (drop q (drop 20 script)) ! (b - 20 - q)"
          by (rule "1.IH"(2) [OF len True]) (use prem q in \<open>auto simp: covers_def w add.commute\<close>)
        then show ?thesis using prem(3) k q by (simp add: f covers_def nth_append add.commute)
      qed
    next
      case False
      then have w: "windows script = map Suc (windows (tl script))" using len by (simp add: windows.simps [of script])
      obtain q where q: "p = Suc q" "q \<in> set (windows (tl script))" using prem(2) by (auto simp: w)
      have "fill K (tl script) ! (b - 1) = K (drop q (tl script)) ! (b - 1 - q)"
        by (rule "1.IH"(5) [OF len False]) (use prem q in \<open>auto simp: covers_def w drop_Suc\<close>)
      then show ?thesis
        using prem(3) q len False by (cases b) (auto simp: fill.simps [of K script] covers_def drop_Suc)
    qed
  next
    case 3
    note prem = this
    show ?case
    proof (cases "20 \<le> length script")
      case len: True
      show ?thesis
      proof (cases "is_placeholder script")
        case True
        then have w: "windows script = 0 # map (\<lambda>p. p + 20) (windows (drop 20 script))" using len by (simp add: windows.simps [of script])
        have k: "length (K script) = 20" using prem(3) by (simp add: w)
        have b: "20 \<le> b" using prem(2) by (auto simp: w covers_def)
        have "fill K (drop 20 script) ! (b - 20) = drop 20 script ! (b - 20)"
          by (rule "1.IH"(3) [OF len True]) (use prem b in \<open>auto simp: covers_def w add.commute\<close>)
        then show ?thesis using k b len True by (simp add: fill.simps [of K script] nth_append)
      next
        case False
        then have w: "windows script = map Suc (windows (tl script))" using len by (simp add: windows.simps [of script])
        show ?thesis
        proof (cases b)
          case 0
          then show ?thesis using len False by (subst fill.simps) (cases script; simp)
        next
          case (Suc c)
          have "fill K (tl script) ! c = tl script ! c"
            by (rule "1.IH"(6) [OF len False]) (use prem Suc in \<open>auto simp: covers_def w drop_Suc\<close>)
          then show ?thesis using Suc len False prem(1) by (simp add: fill.simps [of K script] nth_tl)
        qed
      qed
    qed (simp add: fill.simps [of K script])
  }
qed


section \<open>Replacing at the recorded places is one pass of replacement\<close>

text \<open>Every digit of the keys is a 20-byte hash, and there are as many as the arrays hold.\<close>

definition keys_wf :: "chunk_sizes \<Rightarrow> bitvm_public_keys \<Rightarrow> bool" where
  "keys_wf S pks \<longleftrightarrow> pks_wf S pks \<and> (\<forall>pk \<in> set (to_flattened_vec pks). \<forall>digit \<in> set pk. length digit = 20)"

text \<open>The arrays of places keep the shape of the keys.\<close>

definition places_shape :: "replacement_data \<Rightarrow> bitvm_public_keys \<Rightarrow> bool" where
  "places_shape rd pks \<longleftrightarrow>
     length (rd_payout_tx_blockhash_pk rd) = length (payout_tx_blockhash_pk pks) \<and>
     length (rd_latest_blockhash_pk rd) = length (latest_blockhash_pk pks) \<and>
     length (rd_challenge_sending_watchtowers_pk rd) = length (challenge_sending_watchtowers_pk pks) \<and>
     map length (rd_bitvm_pks_0 rd) = map length (bitvm_pks_0 pks) \<and>
     map length (rd_bitvm_pks_1 rd) = map length (bitvm_pks_1 pks) \<and>
     map length (rd_bitvm_pks_2 rd) = map length (bitvm_pks_2 pks)"

lemma map_length_replicate: "length xs = n \<Longrightarrow> \<forall>x \<in> set xs. length x = m \<Longrightarrow> map length xs = replicate n m"
  by (simp add: map_replicate_const [symmetric] map_replicate_trivial list_eq_iff_nth_eq)

lemma places_shape_default: "pks_wf S pks \<Longrightarrow> places_shape (replacement_data_default S) pks"
  by (auto simp: places_shape_def replacement_data_default_def pks_wf_def list_eq_iff_nth_eq)

lemma push_place2_shape: "push_place2 i j place xss = Inr xss' \<Longrightarrow> map length xss' = map length xss"
  by (auto simp: push_place2_def push_place_def map_update list_update_same_conv)

lemma push_place_shape: "push_place i place xs = Inr xs' \<Longrightarrow> length xs' = length xs"
  by (auto simp: push_place_def)

lemma record_place_shape: "record_place window place rd = Inr rd' \<Longrightarrow> places_shape rd pks \<Longrightarrow> places_shape rd' pks"
  unfolding record_place_def Let_def
  by (auto simp: places_shape_def push_place2_shape push_place_shape split: if_splits)

lemma scan_script_shape: "scan_script s script pos rd = Inr rd' \<Longrightarrow> places_shape rd pks \<Longrightarrow> places_shape rd' pks"
proof (induction s script pos rd rule: scan_script.induct)
  case (1 s script pos rd)
  then show ?case
    by (subst (asm) scan_script.simps) (auto split: if_splits dest: record_place_shape)
qed

lemma copied_keys_length:
  assumes "keys_wf S pks" "places_shape rd pks" "(s, p, v) \<in> set (replacement_copies pks rd)"
  shows "length v = 20"
proof -
  have arr: "length v = 20" if "(s, p, v) \<in> set (array_copies xs pk)" "length xs = length pk" "\<forall>d \<in> set pk. length d = 20" for xs pk
    using that by (auto simp: set_array_copies)
  have nest: "length v = 20" if "(s, p, v) \<in> set (nested_copies xss ps)" "map length xss = map length ps"
      "\<forall>pk \<in> set ps. \<forall>d \<in> set pk. length d = 20" for xss ps
  proof -
    note h = that
    obtain i where i: "i < length xss" "(s, p, v) \<in> set (array_copies (xss ! i) (ps ! i))"
      using h(1) by (auto simp: set_nested_copies)
    have len: "length xss = length ps" using that(2) by (rule map_eq_imp_length_eq)
    then have "length (xss ! i) = length (ps ! i)" using that(2) i(1) by (metis nth_map)
    then show ?thesis by (intro arr [OF i(2)]) (use that(3) i(1) len in auto)
  qed
  show ?thesis
    using assms unfolding replacement_copies_def keys_wf_def places_shape_def to_flattened_vec_def
    by (auto simp: ball_Un intro: arr nest)
qed

lemma generated_shape:
  assumes "generate_fresh_data S G = Inr cache" "pks_wf S pks"
  shows "places_shape (replacement_places cache) pks"
proof -
  obtain scripts rd where cache: "replacement_places cache = rd"
    and run: "rfold (\<lambda>(script_idx, script) rd. scan_script script_idx script 0 rd) (List.enumerate 0 scripts)
      (replacement_data_default S) = Inr rd"
    using assms(1) by (auto simp: generate_fresh_data_def Let_def)
  show ?thesis
    unfolding cache
    by (rule rfold_invariant [OF run]) (auto intro: places_shape_default [OF assms(2)] scan_script_shape)
qed

text \<open>
  C36. The keys of a deposit are put into the disprove scripts exactly where the placeholders are:
  copying them to the places recorded when the scripts were generated gives, for every script, the
  script in which a single left-to-right pass replaces each placeholder by the key digit it names.
\<close>

theorem replacement_is_fill:
  assumes "generate_fresh_data S G = Inr cache" "keys_wf S pks"
    and "calculate_replacement_operations (replacement_places cache) \<le> MAX_SCRIPT_REPLACEMENT_OPERATIONS"
  shows "replace_disprove_scripts cache pks = Inr (map (fill (key_of pks)) (disprove_scripts cache))"
proof -
  let ?scripts = "disprove_scripts cache" and ?cs = "replacement_copies pks (replacement_places cache)"
  have pks: "pks_wf S pks" using assms(2) by (simp add: keys_wf_def)
  note cs = generated_copies [OF assms(1), of pks]
  have len20: "length v = 20" if "(s, p, v) \<in> set ?cs" for s p v
    by (rule copied_keys_length [OF assms(2) generated_shape [OF assms(1) pks] that])
  have "copies_ok ?scripts (set ?cs)"
    unfolding copies_ok_def
  proof (intro conjI allI impI)
    fix s p v assume m: "(s, p, v) \<in> set ?cs"
    then show "s < length ?scripts" "p + 20 \<le> length (?scripts ! s)" using cs windows_bound by auto
    show "length v = 20" by (rule len20 [OF m])
  next
    fix s p v p' v' b assume "(s, p, v) \<in> set ?cs" "(s, p', v') \<in> set ?cs" "covers p b" "covers p' b"
    then show "p = p'" "v = v'" unfolding cs by (auto dest: windows_disjoint)
  qed
  from copies_patch [OF this] obtain result where
    run: "rfold copy_key ?cs ?scripts = Inr result" and patch: "patched ?scripts (set ?cs) result" by blast
  have "result = map (fill (key_of pks)) ?scripts"
  proof (rule nth_equalityI)
    have ml: "map length result = map length ?scripts" using patch by (simp add: patched_def)
    then show nl: "length result = length (map (fill (key_of pks)) ?scripts)" using map_eq_imp_length_eq by fastforce
    fix s assume "s < length result"
    then have s: "s < length ?scripts" using nl by simp
    have k: "\<forall>p \<in> set (windows (?scripts ! s)). length (key_of pks (drop p (?scripts ! s))) = 20"
      using len20 s unfolding cs by blast
    have ls: "length (result ! s) = length (?scripts ! s)" using ml s nl by (metis length_map nth_map)
    have "result ! s ! b = fill (key_of pks) (?scripts ! s) ! b" if "b < length (?scripts ! s)" for b
    proof (cases "\<exists>p \<in> set (windows (?scripts ! s)). covers p b")
      case True
      then obtain p where p: "p \<in> set (windows (?scripts ! s))" "covers p b" by blast
      then have "(s, p, key_of pks (drop p (?scripts ! s))) \<in> set ?cs" using s unfolding cs by blast
      then have "result ! s ! b = key_of pks (drop p (?scripts ! s)) ! (b - p)"
        using patch s that p(2) unfolding patched_def by blast
      then show ?thesis using fill_nth(2) [OF k that p] by simp
    next
      case False
      then have "\<forall>p v. (s, p, v) \<in> set ?cs \<longrightarrow> \<not> covers p b" unfolding cs by blast
      then have "result ! s ! b = ?scripts ! s ! b" using patch s that unfolding patched_def by blast
      then show ?thesis using fill_nth(3) [OF k that] False by simp
    qed
    then show "result ! s = map (fill (key_of pks)) ?scripts ! s"
      using s ls fill_nth(1) [OF k] by (auto intro!: nth_equalityI)
  qed
  then show ?thesis using run assms(3) by (simp add: replace_disprove_scripts_def)
qed

text \<open>A script with one placeholder and one other byte.\<close>

definition demo_generator :: script_generator where
  "demo_generator = \<lparr>api_generate_partial_script = [[0x51]],
     api_generate_full_tapscripts = (\<lambda>(p0, p1, p2) partials. map (\<lambda>s. s @ p0 ! 0 ! 0) partials)\<rparr>"

definition demo_cache :: bitvm_cache where
  "demo_cache = \<lparr>disprove_scripts = [0x51 # get_replacable_value 3 0 0],
     replacement_places = (replacement_data_default demo_sizes)\<lparr>rd_bitvm_pks_0 := [[(0, 1)] # replicate 66 []]\<rparr>\<rparr>"

lemma demo_cache_generated: "generate_fresh_data demo_sizes demo_generator = Inr demo_cache"
proof -
  let ?s = "0x51 # get_replacable_value 3 0 0"
  have gen: "api_generate_full_tapscripts demo_generator
      (bitvm_pks_0 (create_replacable demo_sizes), bitvm_pks_1 (create_replacable demo_sizes), bitvm_pks_2 (create_replacable demo_sizes))
      (api_generate_partial_script demo_generator) = [?s]"
    by (simp add: demo_generator_def create_replacable_def demo_sizes_def get_multiple_replacable_wpks_def get_replacable_wpks_def)
  have ph: "\<not> is_placeholder ?s" "is_placeholder (get_replacable_value 3 0 0)"
    by code_simp+
  have r67: "replicate 67 ([] :: places) = [] # replicate 66 []" by (simp add: numeral_eq_Suc)
  have rec: "record_place (get_replacable_value 3 0 0) (0, 1) (replacement_data_default demo_sizes) =
      Inr (replacement_places demo_cache)"
    by (simp add: record_place_def get_replacable_value_def replacement_data_default_def demo_sizes_def demo_cache_def
      push_place2_def push_place_def nth_checked_def be_nat_Cons r67)
  have "length (get_replacable_value 3 0 0) = 20" by (simp add: get_replacable_value_def)
  then have "scan_script 0 ?s 0 (replacement_data_default demo_sizes) = Inr (replacement_places demo_cache)"
    using ph rec by (simp add: scan_script.simps [of 0 ?s])
  then show ?thesis
    unfolding generate_fresh_data_def gen Let_def
    by (simp add: demo_generator_def ensure_def demo_cache_def)
qed

lemma sum_concat_replicate: "sum_list (concat (replicate n xs)) = n * sum_list (xs :: nat list)"
  by (induction n) simp_all

theorem replacement_is_fill_witness:
  "replace_disprove_scripts demo_cache (create_replacable demo_sizes\<lparr>bitvm_pks_0 := [replicate 67 (replicate 20 9)]\<rparr>) =
     Inr [0x51 # replicate 20 9]"
proof -
  let ?pks = "create_replacable demo_sizes\<lparr>bitvm_pks_0 := [replicate 67 (replicate 20 9)]\<rparr>"
  have wf: "keys_wf demo_sizes ?pks"
    by (auto simp: keys_wf_def pks_wf_def to_flattened_vec_def create_replacable_def demo_sizes_def
      get_replacable_wpks_def get_multiple_replacable_wpks_def get_replacable_value_def)
  have ops: "calculate_replacement_operations (replacement_places demo_cache) \<le> MAX_SCRIPT_REPLACEMENT_OPERATIONS"
    by (simp add: calculate_replacement_operations_def demo_cache_def replacement_data_default_def demo_sizes_def
      MAX_SCRIPT_REPLACEMENT_OPERATIONS_def sum_list_replicate map_concat sum_concat_replicate)
  have ph: "\<not> is_placeholder (0x51 # get_replacable_value 3 0 0)" "is_placeholder (get_replacable_value 3 0 0)"
    by code_simp+
  have len: "length (get_replacable_value 3 0 0) = 20" by (simp add: get_replacable_value_def)
  have key: "key_of ?pks (get_replacable_value 3 0 0) = replicate 20 9"
    by (simp add: key_of_def get_replacable_value_def be_nat_Cons)
  have "fill (key_of ?pks) (get_replacable_value 3 0 0) = replicate 20 9"
    using ph len key by (subst fill.simps) (simp add: fill.simps [of _ "[]"])
  then have "fill (key_of ?pks) (0x51 # get_replacable_value 3 0 0) = 0x51 # replicate 20 9"
    using ph len by (subst fill.simps) simp
  then show ?thesis
    using replacement_is_fill [OF demo_cache_generated wf ops] by (simp add: demo_cache_def)
qed

end
