(* ===== verification/Deposit.thy ===== *)
theory Deposit
  imports Tx_Handler
begin

text \<open>
  The data of a deposit (\<open>src/core/src/deposit.rs\<close>): the parties in their canonical order, the cached
  aggregated key, the scripts of the deposit output, the textual form of the security council, and
  the deposit addresses (\<open>src/core/src/builder/address.rs\<close>). Methods that fill the cache of the
  aggregated key return the updated data.
\<close>

section \<open>Data\<close>

record kickoff_data =
  operator_xonly_pk :: bytes
  kd_round_idx :: round_index
  kickoff_idx :: u32

datatype deposit_type =
    BaseDeposit bytes address
  | ReplacementDeposit bytes

record deposit_info =
  deposit_outpoint :: out_point
  dep_type :: deposit_type

record actors =
  verifiers :: "bytes list"
  watchtowers :: "bytes list"
  operators :: "bytes list"

record deposit_data =
  nofn_xonly_pk :: "bytes option"
  deposit :: deposit_info
  dep_actors :: actors
  dep_security_council :: security_council

record operator_data =
  od_xonly_pk :: bytes
  reimburse_addr :: address
  collateral_funding_outpoint :: out_point

section \<open>Parties\<close>

definition get_num_verifiers :: "deposit_data \<Rightarrow> nat" where
  "get_num_verifiers d = length (verifiers (dep_actors d))"

definition get_num_watchtowers :: "deposit_data \<Rightarrow> nat" where
  "get_num_watchtowers d = get_num_verifiers d + length (watchtowers (dep_actors d))"

definition get_num_operators :: "deposit_data \<Rightarrow> nat" where
  "get_num_operators d = length (operators (dep_actors d))"

definition get_verifiers :: "deposit_data \<Rightarrow> bytes list" where
  "get_verifiers d = sort (verifiers (dep_actors d))"

definition get_watchtowers :: "bitcoin_env \<Rightarrow> deposit_data \<Rightarrow> bytes list" where
  "get_watchtowers V d = sort (map (x_only_public_key V) (verifiers (dep_actors d)) @ watchtowers (dep_actors d))"

definition get_operators :: "deposit_data \<Rightarrow> bytes list" where
  "get_operators d = sort (operators (dep_actors d))"

definition get_verifier_index :: "deposit_data \<Rightarrow> bytes \<Rightarrow> nat result" where
  "get_verifier_index d pk = expect (position (\<lambda>k. k = pk) (get_verifiers d)) (Err ''Verifier with public key not found'')"

definition get_watchtower_index :: "bitcoin_env \<Rightarrow> deposit_data \<Rightarrow> bytes \<Rightarrow> nat result" where
  "get_watchtower_index V d pk =
     expect (position (\<lambda>k. k = pk) (get_watchtowers V d)) (Err ''Watchtower with xonly key not found'')"

definition get_operator_index :: "deposit_data \<Rightarrow> bytes \<Rightarrow> nat result" where
  "get_operator_index d pk = expect (position (\<lambda>k. k = pk) (get_operators d)) (Err ''Operator with xonly key not found'')"

definition are_all_verifiers_unique :: "deposit_data \<Rightarrow> bool" where
  "are_all_verifiers_unique d \<longleftrightarrow> card (set (verifiers (dep_actors d))) = length (verifiers (dep_actors d))"

definition are_all_watchtowers_unique :: "bitcoin_env \<Rightarrow> deposit_data \<Rightarrow> bool" where
  "are_all_watchtowers_unique V d \<longleftrightarrow> card (set (get_watchtowers V d)) = get_num_watchtowers d"

definition are_all_operators_unique :: "deposit_data \<Rightarrow> bool" where
  "are_all_operators_unique d \<longleftrightarrow> card (set (operators (dep_actors d))) = length (operators (dep_actors d))"

definition deposit_data_eq :: "bitcoin_env \<Rightarrow> deposit_data \<Rightarrow> deposit_data \<Rightarrow> bool" where
  "deposit_data_eq V a b \<longleftrightarrow>
     dep_security_council a = dep_security_council b \<and>
     deposit_outpoint (deposit a) = deposit_outpoint (deposit b) \<and>
     get_operators a = get_operators b \<and> get_verifiers a = get_verifiers b \<and>
     get_watchtowers V a = get_watchtowers V b \<and>
     dep_type (deposit a) = dep_type (deposit b)"

definition get_nofn_xonly_pk :: "bitcoin_env \<Rightarrow> deposit_data \<Rightarrow> (bytes \<times> deposit_data) result" where
  "get_nofn_xonly_pk V d =
     (case nofn_xonly_pk d of
        Some pk \<Rightarrow> Inr (pk, d)
      | None \<Rightarrow>
          rbind (from_musig2_pks (sha256 V) (musig V) (get_verifiers d) None) (\<lambda>pk.
          Inr (pk, d\<lparr>nofn_xonly_pk := Some pk\<rparr>)))"

section \<open>Scripts and addresses of a deposit\<close>

definition try_get_taproot_pk :: "bitcoin_env \<Rightarrow> bytes \<Rightarrow> bytes result" where
  "try_get_taproot_pk V script =
     (if \<not> is_p2tr (btc V) script then Inl (Err ''Script is not a valid P2TR script (not 34 bytes)'')
      else rbind (slice 2 34 script) (\<lambda>key.
           expect (xonly_from_slice (musig V) key) (Err ''Failed to parse XOnlyPublicKey from script'')))"

definition wrap_err :: "'a result \<Rightarrow> string \<Rightarrow> 'a result" where
  "wrap_err r msg = (case r of Inl (Err _) \<Rightarrow> Inl (Err msg) | _ \<Rightarrow> r)"

definition recovery_taproot_pk :: "bitcoin_env \<Rightarrow> address \<Rightarrow> bytes result" where
  "recovery_taproot_pk V addr =
     wrap_err (try_get_taproot_pk V (address_script_pubkey (taproot V) addr))
       ''Recovery taproot address is not a valid taproot address''"

definition get_deposit_scripts ::
  "bitcoin_env \<Rightarrow> protocol_paramset \<Rightarrow> deposit_data \<Rightarrow> (spendable_script list \<times> deposit_data) result" where
  "get_deposit_scripts V p d =
     rbind (get_nofn_xonly_pk V d) (\<lambda>(nofn, d').
     case dep_type (deposit d') of
       BaseDeposit evm_address recovery \<Rightarrow>
         rbind (recovery_taproot_pk V recovery) (\<lambda>pk.
         Inr ([BaseDepositScript nofn evm_address, TimelockScript (Some pk) (user_takes_after p)], d'))
     | ReplacementDeposit old_move_txid \<Rightarrow>
         Inr ([ReplacementDepositScript nofn old_move_txid,
               multisig_from_security_council (dep_security_council d')], d'))"

definition generate_deposit_address ::
  "bitcoin_env \<Rightarrow> bytes \<Rightarrow> address \<Rightarrow> bytes \<Rightarrow> btc_network \<Rightarrow> u16 \<Rightarrow> (address \<times> spend_info) result" where
  "generate_deposit_address V nofn recovery user_evm_address net user_takes =
     rbind (to_script_buf V (BaseDepositScript nofn user_evm_address)) (\<lambda>deposit_script.
     rbind (recovery_taproot_pk V recovery) (\<lambda>pk.
     rbind (to_script_buf V (TimelockScript (Some pk) user_takes)) (\<lambda>script_timelock.
     create_taproot_address (taproot V) [deposit_script, script_timelock] None net)))"

definition generate_replacement_deposit_address ::
  "bitcoin_env \<Rightarrow> bytes \<Rightarrow> bytes \<Rightarrow> btc_network \<Rightarrow> security_council \<Rightarrow> (address \<times> spend_info) result" where
  "generate_replacement_deposit_address V old_move_txid nofn net council =
     rbind (to_script_buf V (ReplacementDepositScript nofn old_move_txid)) (\<lambda>deposit_script.
     rbind (to_script_buf V (multisig_from_security_council council)) (\<lambda>security_council_script.
     create_taproot_address (taproot V) [deposit_script, security_council_script] None net))"

section \<open>Text of a security council\<close>

text \<open>
  Splitting, joining and decimal numbers are Rust's; \<open>hex::encode\<close> and \<open>hex::decode\<close> are the parameter
  \<open>H\<close>.
\<close>

record hex_api =
  hex_encode :: "bytes \<Rightarrow> string"
  hex_decode :: "string \<Rightarrow> bytes option"

fun split_on :: "char \<Rightarrow> string \<Rightarrow> string list" where
  "split_on c [] = [[]]"
| "split_on c (x # xs) =
     (if x = c then [] # split_on c xs
      else case split_on c xs of [] \<Rightarrow> [[x]] | p # ps \<Rightarrow> (x # p) # ps)"

fun join_with :: "char \<Rightarrow> string list \<Rightarrow> string" where
  "join_with c [] = []"
| "join_with c [s] = s"
| "join_with c (s # t # ss) = s @ c # join_with c (t # ss)"

definition digit_of :: "char \<Rightarrow> nat option" where
  "digit_of c = (let n = of_char c in if 48 \<le> n \<and> n \<le> (57 :: nat) then Some (n - 48) else None)"

fun parse_digits :: "string \<Rightarrow> nat \<Rightarrow> nat option" where
  "parse_digits [] acc = Some acc"
| "parse_digits (c # cs) acc =
     (case digit_of c of
        None \<Rightarrow> None
      | Some d \<Rightarrow> if acc * 10 + d < 2 ^ 32 then parse_digits cs (acc * 10 + d) else None)"

definition parse_u32 :: "string \<Rightarrow> u32 option" where
  "parse_u32 s =
     map_option of_nat
       (case s of
          [] \<Rightarrow> None
        | c # cs \<Rightarrow> if c = CHR ''+'' \<and> cs \<noteq> [] then parse_digits cs 0 else parse_digits s 0)"

fun decimal :: "nat \<Rightarrow> string" where
  "decimal n = (if n < 10 then [char_of (48 + n)] else decimal (n div 10) @ [char_of (48 + n mod 10)])"

declare decimal.simps [simp del]

definition security_council_from_str :: "hex_api \<Rightarrow> bitcoin_env \<Rightarrow> string \<Rightarrow> security_council result" where
  "security_council_from_str H V s =
     (let parts = split_on CHR '':'' s in
      rbind (expect (if 0 < length parts then Some (parts ! 0) else None) (Err ''Missing threshold'')) (\<lambda>threshold_str.
      rbind (expect (if 1 < length parts then Some (parts ! 1) else None) (Err ''Missing public keys'')) (\<lambda>pks_str.
      rbind (ensure (length parts \<le> 2) (Err ''Too many parts in security council string'')) (\<lambda>_.
      rbind (expect (parse_u32 threshold_str) (Err ''Invalid threshold'')) (\<lambda>threshold.
      rbind (rmap (\<lambda>pk_str.
               rbind (expect (hex_decode H pk_str) (Err ''Invalid hex in public key'')) (\<lambda>bs.
               expect (xonly_from_slice (musig V) bs) (Err ''Invalid public key'')))
               (split_on CHR '','' pks_str)) (\<lambda>pks.
      rbind (ensure (pks \<noteq> []) (Err ''No public keys provided'')) (\<lambda>_.
      rbind (ensure (\<not> threshold > of_nat (length pks))
               (Err ''Threshold cannot be greater than number of public keys'')) (\<lambda>_.
      Inr \<lparr>council_pks = pks, council_threshold = threshold\<rparr>))))))))"

definition security_council_to_string :: "hex_api \<Rightarrow> security_council \<Rightarrow> string" where
  "security_council_to_string H c =
     decimal (unat (council_threshold c)) @ CHR '':'' # join_with CHR '','' (map (hex_encode H) (council_pks c))"

section \<open>The cached key and the canonical order\<close>

text \<open>The cache of the aggregated key holds the key of the verifiers, or nothing.\<close>

definition nofn_cache_ok :: "bitcoin_env \<Rightarrow> deposit_data \<Rightarrow> bool" where
  "nofn_cache_ok V d \<longleftrightarrow>
     (\<forall>pk. nofn_xonly_pk d = Some pk \<longrightarrow> from_musig2_pks (sha256 V) (musig V) (verifiers (dep_actors d)) None = Inr pk)"

lemma get_nofn_xonly_pk_cached:
  assumes "nofn_cache_ok V d"
  shows "get_nofn_xonly_pk V d =
    rbind (from_musig2_pks (sha256 V) (musig V) (verifiers (dep_actors d)) None) (\<lambda>pk. Inr (pk, d\<lparr>nofn_xonly_pk := Some pk\<rparr>))"
  using assms by (auto simp: get_nofn_xonly_pk_def nofn_cache_ok_def get_verifiers_def split: option.splits)

lemma get_nofn_xonly_pk_ok:
  assumes "nofn_cache_ok V d" "get_nofn_xonly_pk V d = Inr (pk, d')"
  shows "d' = d\<lparr>nofn_xonly_pk := Some pk\<rparr>" "nofn_cache_ok V d'"
    "from_musig2_pks (sha256 V) (musig V) (verifiers (dep_actors d)) None = Inr pk"
  using assms(2) unfolding get_nofn_xonly_pk_cached [OF assms(1)] by (auto simp: nofn_cache_ok_def)

lemma deposit_data_eq_nofn:
  assumes "deposit_data_eq V a b"
  shows "from_musig2_pks (sha256 V) (musig V) (verifiers (dep_actors a)) None =
    from_musig2_pks (sha256 V) (musig V) (verifiers (dep_actors b)) None"
proof (rule from_musig2_pks_mset)
  have "mset (get_verifiers a) = mset (get_verifiers b)" using assms by (simp add: deposit_data_eq_def)
  then show "mset (verifiers (dep_actors a)) = mset (verifiers (dep_actors b))" by (simp add: get_verifiers_def)
qed

lemma length_get_watchtowers [simp]: "length (get_watchtowers V d) = get_num_watchtowers d"
  by (simp add: get_watchtowers_def get_num_watchtowers_def get_num_verifiers_def)

section \<open>The text form is read back\<close>

lemma split_on_prefix: "c \<notin> set xs \<Longrightarrow> split_on c (xs @ c # ys) = xs # split_on c ys"
  by (induction xs) auto

lemma split_on_no [simp]: "c \<notin> set xs \<Longrightarrow> split_on c xs = [xs]"
  by (induction xs) auto

lemma split_join: "ss \<noteq> [] \<Longrightarrow> \<forall>s \<in> set ss. c \<notin> set s \<Longrightarrow> split_on c (join_with c ss) = ss"
  by (induction c ss rule: join_with.induct) (simp_all add: split_on_prefix)

lemma set_join_with: "set (join_with c ss) \<subseteq> insert c (\<Union>s \<in> set ss. set s)"
  by (induction c ss rule: join_with.induct) auto

lemma digit_of_char: "d < 10 \<Longrightarrow> digit_of (char_of (48 + d)) = Some d"
  by (simp add: digit_of_def Let_def)

lemma parse_digits_append:
  "parse_digits (xs @ ys) acc = Option.bind (parse_digits xs acc) (parse_digits ys)"
  by (induction xs arbitrary: acc) (simp_all split: option.split)

lemma parse_decimal: "n < 2 ^ 32 \<Longrightarrow> parse_digits (decimal n) 0 = Some n"
proof (induction n rule: less_induct)
  case (less n)
  show ?case
  proof (cases "n < 10")
    case True
    then show ?thesis by (simp add: decimal.simps [of n] digit_of_char)
  next
    case False
    have "decimal n = decimal (n div 10) @ [char_of (48 + n mod 10)]" using False by (simp add: decimal.simps [of n])
    moreover have "parse_digits (decimal (n div 10)) 0 = Some (n div 10)"
      by (rule less.IH) (use False less.prems in auto)
    moreover have "digit_of (char_of (48 + n mod 10)) = Some (n mod 10)" by (rule digit_of_char) simp
    moreover have "n div 10 * 10 + n mod 10 = n" by (rule div_mult_mod_eq)
    ultimately show ?thesis using less.prems by (simp add: parse_digits_append)
  qed
qed

lemma decimal_digits: "c \<in> set (decimal n) \<Longrightarrow> digit_of c \<noteq> None"
proof (induction n rule: less_induct)
  case (less n)
  have last: "digit_of (char_of (48 + n mod 10)) \<noteq> None" using digit_of_char [of "n mod 10"] by simp
  show ?case
  proof (cases "n < 10")
    case True
    then have "c = char_of (48 + n)" using less.prems by (simp add: decimal.simps [of n])
    then show ?thesis using digit_of_char [of n] True by simp
  next
    case False
    then have "c \<in> set (decimal (n div 10)) \<or> c = char_of (48 + n mod 10)"
      using less.prems by (auto simp: decimal.simps [of n])
    then show ?thesis using less.IH [of "n div 10"] False last by auto
  qed
qed

lemma decimal_not [simp]: "CHR '':'' \<notin> set (decimal n)" "CHR ''+'' \<notin> set (decimal n)"
  using decimal_digits [of "CHR '':''" n] decimal_digits [of "CHR ''+''" n]
  by (auto simp: digit_of_def Let_def)

lemma parse_u32_decimal: "parse_u32 (decimal (unat w)) = Some w"
proof -
  have "decimal (unat w) \<noteq> []" by (subst decimal.simps) simp
  then obtain c cs where d: "decimal (unat w) = c # cs" by (cases "decimal (unat w)") auto
  then have "c \<noteq> CHR ''+''" using decimal_not(2) [of "unat w"] by auto
  moreover have "parse_digits (decimal (unat w)) 0 = Some (unat w)" by (rule parse_decimal) (use unat_u32_less [of w] in simp)
  ultimately show ?thesis using d by (simp add: parse_u32_def)
qed

text \<open>
  The \<open>hex\<close> crate: encoding uses the lower case hexadecimal digits and is undone by decoding.
\<close>

definition hex_law :: "hex_api \<Rightarrow> bool" where
  "hex_law H \<longleftrightarrow> (\<forall>bs. hex_decode H (hex_encode H bs) = Some bs \<and> set (hex_encode H bs) \<subseteq> set ''0123456789abcdef'')"

text \<open>
  The text of a security council with at least one valid key and a threshold of at most the
  number of keys is read back as the same council.
\<close>

theorem security_council_roundtrip:
  assumes "hex_law H" "council_pks c \<noteq> []" "length (council_pks c) < 2 ^ 32"
    and "unat (council_threshold c) \<le> length (council_pks c)"
    and "\<forall>pk \<in> set (council_pks c). xonly_from_slice (musig V) pk = Some pk"
  shows "security_council_from_str H V (security_council_to_string H c) = Inr c"
proof -
  let ?hex = "map (hex_encode H) (council_pks c)"
  have hex: "set (hex_encode H bs) \<subseteq> set ''0123456789abcdef''" "hex_decode H (hex_encode H bs) = Some bs" for bs
    using assms(1) by (simp_all add: hex_law_def)
  have no: "CHR '','' \<notin> set (hex_encode H bs)" "CHR '':'' \<notin> set (hex_encode H bs)" for bs using hex(1) [of bs] by auto
  have comma: "split_on CHR '','' (join_with CHR '','' ?hex) = ?hex"
    by (rule split_join) (use assms(2) no in auto)
  have "CHR '':'' \<notin> set (join_with CHR '','' ?hex)" using set_join_with [of "CHR '',''" ?hex] no by auto
  then have parts: "split_on CHR '':'' (security_council_to_string H c) =
      [decimal (unat (council_threshold c)), join_with CHR '','' ?hex]"
    by (simp add: security_council_to_string_def split_on_prefix)
  have keys: "rmap (\<lambda>pk_str. rbind (expect (hex_decode H pk_str) e1) (\<lambda>bs. expect (xonly_from_slice (musig V) bs) e2))
      (map (hex_encode H) pks) = Inr pks" if "\<forall>pk \<in> set pks. xonly_from_slice (musig V) pk = Some pk" for pks e1 e2
    using that by (induction pks) (simp_all add: hex expect_def)
  have "\<not> council_threshold c > of_nat (length (council_pks c))"
    using assms(3,4) by (simp add: word_less_nat_alt)
  then show ?thesis
    using assms(2) unfolding security_council_from_str_def
    by (simp add: parts comma keys [OF assms(5)] parse_u32_decimal Let_def res_simps del: rbind_eq_Inr)
qed

definition hex_char :: "nat \<Rightarrow> char" where
  "hex_char d = ''0123456789abcdef'' ! d"

definition hex_value :: "char \<Rightarrow> nat option" where
  "hex_value c = position (\<lambda>x. x = c) ''0123456789abcdef''"

fun hex_read :: "string \<Rightarrow> bytes option" where
  "hex_read [] = Some []"
| "hex_read [c] = None"
| "hex_read (c # d # cs) =
     Option.bind (hex_value c) (\<lambda>hi. Option.bind (hex_value d) (\<lambda>lo.
     map_option (\<lambda>bs. of_nat (16 * hi + lo) # bs) (hex_read cs)))"

definition hex_spec :: hex_api where
  "hex_spec = \<lparr>hex_encode = (\<lambda>bs. concat (map (\<lambda>b. [hex_char (unat b div 16), hex_char (unat b mod 16)]) bs)),
               hex_decode = hex_read\<rparr>"

lemma hex_char_cases: "d < 16 \<Longrightarrow> hex_value (hex_char d) = Some d \<and> hex_char d \<in> set ''0123456789abcdef''"
proof -
  have all: "\<forall>d \<in> set [0..<16]. hex_value (hex_char d) = Some d \<and> hex_char d \<in> set ''0123456789abcdef''"
    by code_simp
  show "d < 16 \<Longrightarrow> hex_value (hex_char d) = Some d \<and> hex_char d \<in> set ''0123456789abcdef''"
    by (rule bspec [OF all]) simp
qed

lemma hex_spec_law: "hex_law hex_spec"
proof -
  have d: "unat (b :: u8) div 16 < 16" "unat b mod 16 < 16" for b
    using unat_u8_less [of b] by (simp_all add: less_mult_imp_div_less)
  have "hex_read (concat (map (\<lambda>b. [hex_char (unat b div 16), hex_char (unat b mod 16)]) bs)) = Some bs" for bs
    by (induction bs) (simp_all add: hex_char_cases [OF d(1)] hex_char_cases [OF d(2)] del: of_nat_add of_nat_mult)
  moreover have "set (concat (map (\<lambda>b. [hex_char (unat b div 16), hex_char (unat b mod 16)]) bs)) \<subseteq> X"
    if "\<And>d. d < 16 \<Longrightarrow> hex_char d \<in> X" for bs :: bytes and X
    by (induction bs) (auto intro: that d)
  ultimately show ?thesis using hex_char_cases by (simp add: hex_law_def hex_spec_def del: list.set)
qed

theorem security_council_roundtrip_witness:
  "security_council_from_str hex_spec env_spec
     (security_council_to_string hex_spec \<lparr>council_pks = [replicate 32 1, replicate 32 2], council_threshold = 2\<rparr>) =
     Inr \<lparr>council_pks = [replicate 32 1, replicate 32 2], council_threshold = 2\<rparr>"
  by (rule security_council_roundtrip [OF hex_spec_law]) (simp_all add: env_spec_def musig_spec_def)

end
