(* ===== verification/Tx_Builder.thy ===== *)
theory Tx_Builder
  imports Deposit
begin

text \<open>
  The transactions of the protocol, one definition for each function of
  \<open>src/core/src/builder/transaction/\<close>: the outputs of \<open>mod.rs\<close>, \<open>challenge.rs\<close>, \<open>operator_assert.rs\<close>,
  \<open>operator_collateral.rs\<close> and \<open>operator_reimburse.rs\<close>. A function that the Rust code writes as a chain
  of builder calls is the list of the same calls here; building an output may panic (a security
  council without keys, an invalid taproot tree), and so may the arithmetic on amounts.
\<close>

section \<open>Chains of builder calls\<close>

type_synonym build_step = "tx_handler_builder \<Rightarrow> tx_handler_builder result"

definition add_in :: "signature_id \<Rightarrow> spendable_txin result \<Rightarrow> spend_path \<Rightarrow> u32 \<Rightarrow> build_step" where
  "add_in sig_id txin path sq b = rbind txin (\<lambda>t. Inr (add_input sig_id t path sq b))"

definition add_out :: "unspent_txout result \<Rightarrow> build_step" where
  "add_out out b = rbind out (\<lambda>o'. Inr (add_output o' b))"

definition run_steps :: "build_step list \<Rightarrow> build_step" where
  "run_steps steps b = rfold (\<lambda>f b'. f b') steps b"

definition build :: "bitcoin_env \<Rightarrow> transaction_type \<Rightarrow> i32 \<Rightarrow> build_step list \<Rightarrow> tx_handler result" where
  "build V ty v steps = rbind (run_steps steps (with_version v (builder_new ty))) (\<lambda>b. Inr (finalize_tx V b))"

section \<open>Outputs\<close>

definition anchor_output :: "amount \<Rightarrow> tx_out" where
  "anchor_output a = \<lparr>txo_value = a, script_pubkey = [0x51, 0x02, 0x4e, 0x73]\<rparr>"

definition non_ephemeral_anchor_output :: tx_out where
  "non_ephemeral_anchor_output = \<lparr>txo_value = NON_EPHEMERAL_ANCHOR_AMOUNT, script_pubkey = [0x51, 0x02, 0x4e, 0x73]\<rparr>"

definition op_return_txout :: "bitcoin_env \<Rightarrow> bytes \<Rightarrow> tx_out" where
  "op_return_txout V data =
     \<lparr>txo_value = 0, script_pubkey = into_script V [PushOpcode OP_RETURN, PushSlice data]\<rparr>"

text \<open>\<open>PushBytesBuf::try_from\<close> refuses \<open>2^32\<close> bytes and more.\<close>

definition push_bytes_try_from :: "bytes \<Rightarrow> bytes option" where
  "push_bytes_try_from data = (if length data < 2 ^ 32 then Some data else None)"

abbreviation partial_out :: "tx_out \<Rightarrow> build_step" where
  "partial_out out \<equiv> add_out (Inr (unspent_from_partial out))"

datatype disprove_path = DisproveScripts "bytes list" | DisproveHiddenNode bytes

definition disprove_taptree :: "taproot_api \<Rightarrow> bytes \<Rightarrow> bytes \<Rightarrow> disprove_path \<Rightarrow> taproot_builder result" where
  "disprove_taptree T timeout_script additional_script path =
     (case path of
        DisproveScripts extra_scripts \<Rightarrow>
          rbind (expect (add_leaf T 1 timeout_script []) (Panic ''add operator timeout script'')) (\<lambda>b1.
          rbind (expect (add_leaf T 2 additional_script b1) (Panic ''add additional script'')) (\<lambda>b2.
          rfold (\<lambda>(depth, script) b.
            expect (add_leaf T (2 + depth) script b) (Panic ''add inlined disprove script''))
            (zip (calculate_taproot_leaf_depths (length extra_scripts)) extra_scripts) b2))
      | DisproveHiddenNode root_hash \<Rightarrow>
          rbind (expect (add_leaf T 1 timeout_script []) (Panic ''empty taptree will accept a script node'')) (\<lambda>b1.
          rbind (expect (add_leaf T 2 additional_script b1)
                   (Panic ''taptree with one node will accept a node at depth 2'')) (\<lambda>b2.
          expect (add_hidden_node T 2 root_hash b2)
            (Panic ''taptree with two nodes will accept a node at depth 2''))))"

definition create_disprove_taproot_output ::
  "bitcoin_env \<Rightarrow> spendable_script \<Rightarrow> bytes \<Rightarrow> disprove_path \<Rightarrow> amount \<Rightarrow> btc_network \<Rightarrow> unspent_txout result" where
  "create_disprove_taproot_output V operator_timeout_script additional_script path a net =
     (let T = taproot V in
      rbind (to_script_buf V operator_timeout_script) (\<lambda>timeout_script.
      rbind (disprove_taptree T timeout_script additional_script path) (\<lambda>builder.
      rbind (expect (tb_finalize T UNSPENDABLE_XONLY_PUBKEY builder) (Panic ''valid taptree'')) (\<lambda>info.
      let addr = p2tr T UNSPENDABLE_XONLY_PUBKEY (tap_merkle_root T info) net;
          extra = (case path of DisproveScripts extra_scripts \<Rightarrow> extra_scripts | DisproveHiddenNode _ \<Rightarrow> [])
      in Inr (unspent_new \<lparr>txo_value = a, script_pubkey = address_script_pubkey T addr\<rparr>
                (operator_timeout_script # map OtherSpendable (additional_script # extra)) (Some info))))))"

definition create_taproot_output_with_hidden_node ::
  "bitcoin_env \<Rightarrow> spendable_script \<Rightarrow> bytes \<Rightarrow> amount \<Rightarrow> btc_network \<Rightarrow> unspent_txout result" where
  "create_taproot_output_with_hidden_node V script hidden_node a net =
     (let T = taproot V in
      rbind (to_script_buf V script) (\<lambda>script_buf.
      rbind (expect (add_leaf T 1 script_buf []) (Panic ''empty taptree will accept a script node'')) (\<lambda>b1.
      rbind (expect (add_hidden_node T 1 hidden_node b1)
               (Panic ''taptree with one node will accept a node at depth 1'')) (\<lambda>b2.
      rbind (expect (tb_finalize T UNSPENDABLE_XONLY_PUBKEY b2)
               (Panic ''cannot fail since it is a valid taptree'')) (\<lambda>info.
      let addr = p2tr T UNSPENDABLE_XONLY_PUBKEY (tap_merkle_root T info) net
      in Inr (unspent_new \<lparr>txo_value = a, script_pubkey = address_script_pubkey T addr\<rparr> [script] (Some info)))))))"

section \<open>Move to vault, emergency stop, replacement\<close>

definition create_move_to_vault_txhandler ::
  "bitcoin_env \<Rightarrow> protocol_paramset \<Rightarrow> deposit_data \<Rightarrow> (tx_handler \<times> deposit_data) result" where
  "create_move_to_vault_txhandler V p d =
     rbind (get_nofn_xonly_pk V d) (\<lambda>(nofn, d1).
     rbind (get_deposit_scripts V p d1) (\<lambda>(deposit_scripts, d2).
     rbind (build V Tx_MoveToVault NON_STANDARD_V3
       [add_in (normal_sig Sig_NotStored)
          (spendable_from_scripts V (deposit_outpoint (deposit d)) (bridge_amount p) deposit_scripts None (network p))
          (ScriptSpend 0) DEFAULT_SEQUENCE,
        add_out (unspent_from_scripts V (bridge_amount p)
          [CheckSig nofn, multisig_from_security_council (dep_security_council d)] None (network p)),
        partial_out (anchor_output 0)]) (\<lambda>h.
     Inr (h, d2))))"

definition get_move_txid :: "bitcoin_env \<Rightarrow> protocol_paramset \<Rightarrow> deposit_data \<Rightarrow> (bytes \<times> deposit_data) result" where
  "get_move_txid V p d = rbind (create_move_to_vault_txhandler V p d) (\<lambda>(h, d'). Inr (cached_txid h, d'))"

definition EACH_EMERGENCY_STOP_VBYTES :: amount where
  "EACH_EMERGENCY_STOP_VBYTES = 126"

definition create_emergency_stop_txhandler ::
  "bitcoin_env \<Rightarrow> protocol_paramset \<Rightarrow> deposit_data \<Rightarrow> tx_handler \<Rightarrow> tx_handler result" where
  "create_emergency_stop_txhandler V p d move_to_vault =
     build V Tx_EmergencyStop 2
       [add_in (normal_sig Sig_NotStored) (get_spendable_output move_to_vault Vout_DepositInMove) (ScriptSpend 0)
          DEFAULT_SEQUENCE,
        add_out
          (rbind (amount_sub (bridge_amount p) (anchor_amount p)) (\<lambda>a1.
           rbind (amount_mul EACH_EMERGENCY_STOP_VBYTES 3) (\<lambda>fee.
           rbind (amount_sub a1 fee) (\<lambda>a2.
           unspent_from_scripts V a2 [multisig_from_security_council (dep_security_council d)] None (network p)))))]"

section \<open>Operator collateral\<close>

datatype round_tx_input = RoundPrevout spendable_txin | RoundCollateral out_point amount

definition round_input :: "bitcoin_env \<Rightarrow> protocol_paramset \<Rightarrow> bytes \<Rightarrow> round_tx_input \<Rightarrow> build_step" where
  "round_input V p operator_pk txin =
     (case txin of
        RoundPrevout prev \<Rightarrow>
          add_in (normal_sig Sig_OperatorSighashDefault) (Inr prev) KeySpend (from_height (operator_reimburse_timelock p))
      | RoundCollateral op a \<Rightarrow>
          add_in (normal_sig Sig_OperatorSighashDefault)
            (rbind (create_taproot_address (taproot V) [] (Some operator_pk) (network p)) (\<lambda>(addr, info).
             Inr (spendable_new op \<lparr>txo_value = a, script_pubkey = address_script_pubkey (taproot V) addr\<rparr> [] (Some info))))
            KeySpend DEFAULT_SEQUENCE)"

fun round_input_amount :: "round_tx_input \<Rightarrow> amount" where
  "round_input_amount (RoundPrevout prev) = txo_value (prevout prev)"
| "round_input_amount (RoundCollateral op a) = a"

definition round_total_required :: "protocol_paramset \<Rightarrow> amount result" where
  "round_total_required p =
     rbind (amount_add (kickoff_amount p) (default_utxo_amount p)) (\<lambda>each.
     expect (Option.bind (amount_checked_mul each (of_nat (num_kickoffs_per_round p)))
               (\<lambda>kickoff_total. amount_checked_add kickoff_total (anchor_amount p)))
       (Err ''Total required amount calculation overflow''))"

definition round_outputs :: "bitcoin_env \<Rightarrow> protocol_paramset \<Rightarrow> bytes \<Rightarrow> round_tx_input \<Rightarrow> winternitz_pk list \<Rightarrow> unspent_txout result list" where
  "round_outputs V p operator_pk txin pubkeys =
     [rbind (round_total_required p) (\<lambda>total_required.
      rbind (expect (amount_checked_sub (round_input_amount txin) total_required)
               (Err ''Input amount insufficient for required outputs'')) (\<lambda>remaining_amount.
      unspent_from_scripts V remaining_amount [] (Some operator_pk) (network p)))]
     @ map (\<lambda>pubkey. unspent_from_scripts V (kickoff_amount p)
           [WinternitzCommit [(pubkey, kickoff_blockhash_commit_length p)] operator_pk (winternitz_log_d p),
            TimelockScript (Some operator_pk) 1] None (network p))
         (take (num_kickoffs_per_round p) pubkeys)
     @ map (\<lambda>_. unspent_from_scripts V (default_utxo_amount p) [] (Some operator_pk) (network p))
         [0..<num_kickoffs_per_round p]
     @ [Inr (unspent_from_partial (anchor_output (anchor_amount p)))]"

definition create_round_txhandler ::
  "bitcoin_env \<Rightarrow> protocol_paramset \<Rightarrow> bytes \<Rightarrow> round_tx_input \<Rightarrow> winternitz_pk list \<Rightarrow> tx_handler result" where
  "create_round_txhandler V p operator_pk txin pubkeys =
     build V Tx_Round NON_STANDARD_V3
       (round_input V p operator_pk txin # map add_out (round_outputs V p operator_pk txin pubkeys))"

definition create_assert_timeout_txhandlers ::
  "bitcoin_env \<Rightarrow> protocol_paramset \<Rightarrow> tx_handler \<Rightarrow> tx_handler \<Rightarrow> nat \<Rightarrow> tx_handler list result" where
  "create_assert_timeout_txhandlers V p kickoff round num_asserts =
     rmap (\<lambda>idx. build V (Tx_AssertTimeout idx) NON_STANDARD_V3
       [add_in (numbered_sig NSig_AssertTimeout1 (of_nat idx)) (get_spendable_output kickoff (Vout_Assert idx))
          (ScriptSpend 0) (from_height (assert_timeout_timelock p)),
        add_in (numbered_sig NSig_AssertTimeout2 (of_nat idx)) (get_spendable_output kickoff Vout_KickoffFinalizer)
          (ScriptSpend 0) DEFAULT_SEQUENCE,
        add_in (numbered_sig NSig_AssertTimeout3 (of_nat idx)) (get_spendable_output round Vout_CollateralInRound)
          KeySpend DEFAULT_SEQUENCE,
        partial_out (anchor_output (anchor_amount p))])
       [0..<num_asserts]"

definition create_ready_to_reimburse_txhandler ::
  "bitcoin_env \<Rightarrow> protocol_paramset \<Rightarrow> tx_handler \<Rightarrow> bytes \<Rightarrow> tx_handler result" where
  "create_ready_to_reimburse_txhandler V p round operator_pk =
     rbind (get_spendable_output round Vout_CollateralInRound) (\<lambda>prev.
     build V Tx_ReadyToReimburse NON_STANDARD_V3
       [add_in (normal_sig Sig_OperatorSighashDefault) (Inr prev) KeySpend DEFAULT_SEQUENCE,
        add_out
          (rbind (expect (amount_checked_sub (txo_value (prevout prev)) (anchor_amount p))
                    (Err ''Insufficient funds while creating ready to reimburse tx'')) (\<lambda>a.
           unspent_from_scripts V a [] (Some operator_pk) (network p))),
        partial_out (anchor_output (anchor_amount p))])"

record kickoff_winternitz_keys =
  kw_keys :: "winternitz_pk list"
  kw_num_kickoffs_per_round :: nat
  kw_num_rounds :: nat

definition kickoff_winternitz_keys_new :: "winternitz_pk list \<Rightarrow> nat \<Rightarrow> nat \<Rightarrow> kickoff_winternitz_keys result" where
  "kickoff_winternitz_keys_new keys n rounds =
     (if length keys \<noteq> n * (rounds + 1) then Inl (Err ''KickoffWinternitzKeysDBInconsistency'')
      else Inr \<lparr>kw_keys = keys, kw_num_kickoffs_per_round = n, kw_num_rounds = rounds\<rparr>)"

definition get_keys_for_round :: "kickoff_winternitz_keys \<Rightarrow> round_index \<Rightarrow> winternitz_pk list result" where
  "get_keys_for_round kw round_idx =
     (if round_idx = Collateral \<or> to_index round_idx > kw_num_rounds kw + 1 then Inl (Err ''InvalidRoundIndex'')
      else let start_idx = (to_index round_idx - 1) * kw_num_kickoffs_per_round kw
           in slice start_idx (start_idx + kw_num_kickoffs_per_round kw) (kw_keys kw))"

definition create_round_nth_txhandler ::
  "bitcoin_env \<Rightarrow> protocol_paramset \<Rightarrow> bytes \<Rightarrow> out_point \<Rightarrow> amount \<Rightarrow> round_index \<Rightarrow> kickoff_winternitz_keys
   \<Rightarrow> (tx_handler \<times> tx_handler) result" where
  "create_round_nth_txhandler V p operator_pk input_outpoint input_amount index pubkeys =
     (if index = Collateral \<or> to_index index > to_index (Round (num_round_txs p)) then Inl (Err ''InvalidRoundIndex'')
      else
        rbind (get_keys_for_round pubkeys (Round 0)) (\<lambda>keys.
        rbind (create_round_txhandler V p operator_pk (RoundCollateral input_outpoint input_amount) keys) (\<lambda>round0.
        rbind (create_ready_to_reimburse_txhandler V p round0 operator_pk) (\<lambda>ready0.
        rfold (\<lambda>round_idx (round, ready).
          rbind (get_spendable_output ready Vout_CollateralInReadyToReimburse) (\<lambda>prev.
          rbind (get_keys_for_round pubkeys round_idx) (\<lambda>keys.
          rbind (create_round_txhandler V p operator_pk (RoundPrevout prev) keys) (\<lambda>round'.
          rbind (create_ready_to_reimburse_txhandler V p round' operator_pk) (\<lambda>ready'.
          Inr (round', ready'))))))
          (iter_rounds_range 1 ((case index of Collateral \<Rightarrow> 0 | Round idx \<Rightarrow> idx) + 1)) (round0, ready0)))))"

definition create_unspent_kickoff_txhandlers ::
  "bitcoin_env \<Rightarrow> protocol_paramset \<Rightarrow> tx_handler \<Rightarrow> tx_handler \<Rightarrow> tx_handler list result" where
  "create_unspent_kickoff_txhandlers V p round ready =
     rmap (\<lambda>idx. build V (Tx_UnspentKickoff idx) NON_STANDARD_V3
       [add_in (numbered_sig NSig_UnspentKickoff1 (of_nat idx))
          (get_spendable_output ready Vout_CollateralInReadyToReimburse) KeySpend DEFAULT_SEQUENCE,
        add_in (numbered_sig NSig_UnspentKickoff2 (of_nat idx)) (get_spendable_output round (Vout_Kickoff idx))
          (ScriptSpend 1) (from_height 1),
        partial_out (anchor_output (anchor_amount p))])
       [0..<num_kickoffs_per_round p]"

definition create_burn_unused_kickoff_connectors_txhandler ::
  "bitcoin_env \<Rightarrow> protocol_paramset \<Rightarrow> tx_handler \<Rightarrow> nat list \<Rightarrow> address \<Rightarrow> tx_handler result" where
  "create_burn_unused_kickoff_connectors_txhandler V p round indices change_address =
     (if indices = [] then Inl (Err ''create_burn_unused_kickoff_connectors_txhandler called with no unused kickoff connectors'')
      else
        rbind (rfold (\<lambda>idx (total, b).
          rbind (get_spendable_output round (Vout_Kickoff idx)) (\<lambda>txin.
          rbind (expect (amount_checked_add total (txo_value (prevout txin)))
                   (Err ''Amount overflow in burn unused kickoff connectors tx'')) (\<lambda>total'.
          Inr (total', add_input (normal_sig Sig_OperatorSighashDefault) txin (ScriptSpend 1) (from_height 1) b))))
          indices (0, with_version NON_STANDARD_V3 (builder_new Tx_BurnUnusedKickoffConnectors))) (\<lambda>(input_amount, b).
        rbind (if bridge_nonstandard p then Inr b
               else rbind (amount_add (anchor_amount p) MIN_TAPROOT_AMOUNT) (\<lambda>threshold.
                    if input_amount \<ge> threshold
                    then rbind (amount_sub input_amount (anchor_amount p)) (\<lambda>change.
                         Inr (add_output (unspent_from_partial
                           \<lparr>txo_value = change, script_pubkey = address_script_pubkey (taproot V) change_address\<rparr>) b))
                    else Inr b)) (\<lambda>b'.
        Inr (finalize_tx V (add_output (unspent_from_partial (anchor_output (anchor_amount p))) b')))))"

section \<open>Kickoff\<close>

datatype assert_scripts = AssertScriptTapNodeHash "bytes list" | AssertSpendableScript "spendable_script list"

text \<open>
  The aggregated key is cached by its first use (\<open>get_nofn_xonly_pk_again\<close>), so the function reads it
  once. \<open>latest_blockhash_output\<close>, \<open>assert_outputs\<close>, \<open>watchtower_challenge_output\<close> and
  \<open>watchtower_ack_output\<close> are the two matches and the loop over the watchtowers in its body.
\<close>

definition latest_blockhash_output :: "bitcoin_env \<Rightarrow> protocol_paramset \<Rightarrow> bytes \<Rightarrow> assert_scripts \<Rightarrow> unspent_txout result" where
  "latest_blockhash_output V p nofn scripts =
     (let nofn_latest_blockhash = TimelockScript (Some nofn) (latest_blockhash_timeout_timelock p) in
      case scripts of
        AssertScriptTapNodeHash hashes \<Rightarrow>
          (if length hashes \<noteq> 1 then Inl (Err ''LatestBlockhashScriptNumber'')
           else create_taproot_output_with_hidden_node V nofn_latest_blockhash (hashes ! 0) (default_utxo_amount p) (network p))
      | AssertSpendableScript scrs \<Rightarrow>
          (if length scrs \<noteq> 1 then Inl (Err ''LatestBlockhashScriptNumber'')
           else unspent_from_scripts V (default_utxo_amount p) [nofn_latest_blockhash, scrs ! 0] None (network p)))"

definition assert_outputs :: "bitcoin_env \<Rightarrow> protocol_paramset \<Rightarrow> bytes \<Rightarrow> assert_scripts \<Rightarrow> unspent_txout result list" where
  "assert_outputs V p nofn scripts =
     (let nofn_4week = TimelockScript (Some nofn) (assert_timeout_timelock p) in
      case scripts of
        AssertScriptTapNodeHash hashes \<Rightarrow>
          map (\<lambda>hash. create_taproot_output_with_hidden_node V nofn_4week hash (default_utxo_amount p) (network p)) hashes
      | AssertSpendableScript scrs \<Rightarrow>
          map (\<lambda>scr. unspent_from_scripts V (default_utxo_amount p) [nofn_4week, scr] None (network p)) scrs)"

definition watchtower_challenge_output ::
  "bitcoin_env \<Rightarrow> protocol_paramset \<Rightarrow> bytes \<Rightarrow> bytes \<Rightarrow> unspent_txout result" where
  "watchtower_challenge_output V p nofn watchtower_pk =
     rbind (amount_mul (default_utxo_amount p) 2) (\<lambda>twice.
     rbind (amount_add twice (anchor_amount p)) (\<lambda>a.
     unspent_from_scripts V a [TimelockScript (Some nofn) (watchtower_challenge_timeout_timelock p)]
       (Some watchtower_pk) (network p)))"

definition watchtower_ack_output ::
  "bitcoin_env \<Rightarrow> protocol_paramset \<Rightarrow> bytes \<Rightarrow> bytes \<Rightarrow> bytes list \<Rightarrow> nat \<Rightarrow> unspent_txout result" where
  "watchtower_ack_output V p nofn operator_pk unlock_hashes wt_idx =
     rbind (nth_checked unlock_hashes wt_idx) (\<lambda>hash.
     unspent_from_scripts V (default_utxo_amount p)
       [TimelockScript (Some nofn) (operator_challenge_nack_timelock p),
        TimelockScript (Some nofn) (watchtower_challenge_timeout_timelock p),
        PreimageRevealScript operator_pk hash] None (network p))"

definition kickoff_outputs ::
  "bitcoin_env \<Rightarrow> protocol_paramset \<Rightarrow> bytes \<Rightarrow> bytes \<Rightarrow> bytes list \<Rightarrow> assert_scripts \<Rightarrow> disprove_path \<Rightarrow> bytes \<Rightarrow> assert_scripts
   \<Rightarrow> bytes list \<Rightarrow> bytes \<Rightarrow> unspent_txout result list" where
  "kickoff_outputs V p nofn operator_pk watchtower_pks asserts path additional_disprove_script latest_blockhash unlock_hashes op_return_script =
     [unspent_from_scripts V (default_utxo_amount p)
        [CheckSig operator_pk, TimelockScript (Some operator_pk) (operator_challenge_timeout_timelock p)] None (network p),
      unspent_from_scripts V (default_utxo_amount p) [CheckSig nofn] None (network p),
      unspent_from_scripts V (default_utxo_amount p) [CheckSig nofn] None (network p),
      create_disprove_taproot_output V
        (TimelockScript (Some operator_pk) (disprove_timeout_timelock p)) additional_disprove_script path
        (default_utxo_amount p) (network p),
      latest_blockhash_output V p nofn latest_blockhash]
     @ assert_outputs V p nofn asserts
     @ concat (map (\<lambda>(wt_idx, watchtower_pk).
         [watchtower_challenge_output V p nofn watchtower_pk,
          watchtower_ack_output V p nofn operator_pk unlock_hashes wt_idx]) (List.enumerate 0 watchtower_pks))
     @ [rbind (expect (push_bytes_try_from op_return_script)
                 (Panic ''Can't fail since the script is shorter than 4294967296 bytes'')) (\<lambda>data.
        Inr (unspent_from_partial (op_return_txout V data))),
        Inr (unspent_from_partial (anchor_output (anchor_amount p)))]"

definition create_kickoff_txhandler ::
  "bitcoin_env \<Rightarrow> protocol_paramset \<Rightarrow> kickoff_data \<Rightarrow> tx_handler \<Rightarrow> tx_handler \<Rightarrow> deposit_data \<Rightarrow> bytes
   \<Rightarrow> assert_scripts \<Rightarrow> disprove_path \<Rightarrow> bytes \<Rightarrow> assert_scripts \<Rightarrow> bytes list \<Rightarrow> (tx_handler \<times> deposit_data) result" where
  "create_kickoff_txhandler V p kd round move d operator_pk asserts path additional_disprove_script latest_blockhash unlock_hashes =
     rbind (get_spendable_output round (Vout_Kickoff (unat (kickoff_idx kd)))) (\<lambda>txin.
     rbind (get_nofn_xonly_pk V d) (\<lambda>(nofn, d').
     rbind (build V Tx_Kickoff NON_STANDARD_V3
       (add_in (normal_sig Sig_OperatorSighashDefault) (Inr txin) (ScriptSpend 0) DEFAULT_SEQUENCE
        # map add_out (kickoff_outputs V p nofn operator_pk (get_watchtowers V d) asserts path additional_disprove_script
            latest_blockhash unlock_hashes (cached_txid move @ operator_xonly_pk kd)))) (\<lambda>h.
     Inr (h, d'))))"

definition create_kickoff_not_finalized_txhandler ::
  "bitcoin_env \<Rightarrow> protocol_paramset \<Rightarrow> tx_handler \<Rightarrow> tx_handler \<Rightarrow> tx_handler result" where
  "create_kickoff_not_finalized_txhandler V p kickoff ready =
     build V Tx_KickoffNotFinalized NON_STANDARD_V3
       [add_in (normal_sig Sig_KickoffNotFinalized1) (get_spendable_output kickoff Vout_KickoffFinalizer) (ScriptSpend 0) DEFAULT_SEQUENCE,
        add_in (normal_sig Sig_KickoffNotFinalized2) (get_spendable_output ready Vout_CollateralInReadyToReimburse) KeySpend DEFAULT_SEQUENCE,
        partial_out (anchor_output (anchor_amount p))]"

definition create_reimburse_txhandler ::
  "bitcoin_env \<Rightarrow> protocol_paramset \<Rightarrow> tx_handler \<Rightarrow> tx_handler \<Rightarrow> tx_handler \<Rightarrow> nat \<Rightarrow> address \<Rightarrow> tx_handler result" where
  "create_reimburse_txhandler V p move round kickoff kickoff_index reimbursement_address =
     build V Tx_Reimburse NON_STANDARD_V3
       [add_in (normal_sig Sig_Reimburse1) (get_spendable_output move Vout_DepositInMove) (ScriptSpend 0) DEFAULT_SEQUENCE,
        add_in (normal_sig Sig_Reimburse2) (get_spendable_output kickoff Vout_ReimburseInKickoff) (ScriptSpend 0) DEFAULT_SEQUENCE,
        add_in (normal_sig Sig_OperatorSighashDefault)
          (get_spendable_output round (Vout_ReimburseInRound kickoff_index (num_kickoffs_per_round p))) KeySpend DEFAULT_SEQUENCE,
        add_out (rbind (get_spendable_output move Vout_DepositInMove) (\<lambda>deposit_in_move.
          Inr (unspent_from_partial \<lparr>txo_value = txo_value (prevout deposit_in_move),
                 script_pubkey = address_script_pubkey (taproot V) reimbursement_address\<rparr>))),
        partial_out (anchor_output (anchor_amount p))]"

record utxo =
  utxo_outpoint :: out_point
  utxo_txout :: tx_out

definition create_payout_txhandler ::
  "bitcoin_env \<Rightarrow> utxo \<Rightarrow> tx_out \<Rightarrow> bytes \<Rightarrow> bytes \<Rightarrow> tx_handler result" where
  "create_payout_txhandler V input_utxo output_txout operator_pk user_sig =
     rbind (build V Tx_Payout NON_STANDARD_V3
       [add_in (normal_sig Sig_NotStored) (Inr (spendable_new_partial (utxo_outpoint input_utxo) (utxo_txout input_utxo)))
          KeySpend DEFAULT_SEQUENCE,
        partial_out output_txout,
        partial_out (anchor_output NON_EPHEMERAL_ANCHOR_AMOUNT),
        partial_out (op_return_txout V operator_pk)]) (\<lambda>h.
     rbind (set_p2tr_key_spend_witness V user_sig 0 h) promote)"

definition create_optimistic_payout_txhandler ::
  "bitcoin_env \<Rightarrow> protocol_paramset \<Rightarrow> deposit_data \<Rightarrow> utxo \<Rightarrow> tx_out \<Rightarrow> bytes \<Rightarrow> (tx_handler \<times> deposit_data) result" where
  "create_optimistic_payout_txhandler V p d input_utxo output_txout user_sig =
     rbind (create_move_to_vault_txhandler V p d) (\<lambda>(move, d').
     rbind (build V Tx_Payout NON_STANDARD_V3
       [add_in (normal_sig Sig_NotStored) (Inr (spendable_new_partial (utxo_outpoint input_utxo) (utxo_txout input_utxo)))
          KeySpend DEFAULT_SEQUENCE,
        add_in (normal_sig Sig_NotStored) (get_spendable_output move Vout_DepositInMove) (ScriptSpend 0) DEFAULT_SEQUENCE,
        partial_out output_txout,
        partial_out non_ephemeral_anchor_output]) (\<lambda>h.
     rbind (set_p2tr_key_spend_witness V user_sig 0 h) (\<lambda>h'.
     Inr (h', d'))))"

section \<open>Challenges and asserts\<close>

definition create_watchtower_challenge_txhandler ::
  "bitcoin_env \<Rightarrow> protocol_paramset \<Rightarrow> tx_handler \<Rightarrow> nat \<Rightarrow> bytes \<Rightarrow> tx_handler result" where
  "create_watchtower_challenge_txhandler V p kickoff wt_idx commit_data =
     (if length commit_data \<noteq> watchtower_challenge_bytes p then Inl (Err ''IncorrectWatchtowerChallengeDataLength'')
      else build V (Tx_WatchtowerChallenge wt_idx) NON_STANDARD_V3
        [add_in (numbered_sig NSig_WatchtowerChallenge (of_nat wt_idx))
           (get_spendable_output kickoff (Vout_WatchtowerChallenge wt_idx)) KeySpend DEFAULT_SEQUENCE,
         add_out (rbind (expect (push_bytes_try_from commit_data)
                           (Err ''Failed to create pushbytesbuf for watchtower challenge op_return'')) (\<lambda>push_data.
                  Inr (unspent_from_partial (op_return_txout V push_data)))),
         partial_out (anchor_output (anchor_amount p))])"

definition create_watchtower_challenge_timeout_txhandler ::
  "bitcoin_env \<Rightarrow> protocol_paramset \<Rightarrow> tx_handler \<Rightarrow> nat \<Rightarrow> tx_handler result" where
  "create_watchtower_challenge_timeout_txhandler V p kickoff wt_idx =
     build V (Tx_WatchtowerChallengeTimeout wt_idx) NON_STANDARD_V3
       [add_in (numbered_sig NSig_WatchtowerChallengeTimeout1 (of_nat wt_idx))
          (get_spendable_output kickoff (Vout_WatchtowerChallenge wt_idx)) (ScriptSpend 0)
          (from_height (watchtower_challenge_timeout_timelock p)),
        add_in (numbered_sig NSig_WatchtowerChallengeTimeout2 (of_nat wt_idx))
          (get_spendable_output kickoff (Vout_WatchtowerChallengeAck wt_idx)) (ScriptSpend 1)
          (from_height (watchtower_challenge_timeout_timelock p)),
        partial_out (anchor_output (anchor_amount p))]"

definition create_operator_challenge_nack_txhandler ::
  "bitcoin_env \<Rightarrow> protocol_paramset \<Rightarrow> tx_handler \<Rightarrow> nat \<Rightarrow> tx_handler \<Rightarrow> tx_handler result" where
  "create_operator_challenge_nack_txhandler V p kickoff wt_idx round =
     build V (Tx_OperatorChallengeNack wt_idx) NON_STANDARD_V3
       [add_in (numbered_sig NSig_OperatorChallengeNack1 (of_nat wt_idx))
          (get_spendable_output kickoff (Vout_WatchtowerChallengeAck wt_idx)) (ScriptSpend 0)
          (from_height (operator_challenge_nack_timelock p)),
        add_in (numbered_sig NSig_OperatorChallengeNack2 (of_nat wt_idx))
          (get_spendable_output kickoff Vout_KickoffFinalizer) (ScriptSpend 0) DEFAULT_SEQUENCE,
        add_in (numbered_sig NSig_OperatorChallengeNack3 (of_nat wt_idx))
          (get_spendable_output round Vout_CollateralInRound) KeySpend DEFAULT_SEQUENCE,
        partial_out (anchor_output (anchor_amount p))]"

definition create_operator_challenge_ack_txhandler ::
  "bitcoin_env \<Rightarrow> protocol_paramset \<Rightarrow> tx_handler \<Rightarrow> nat \<Rightarrow> tx_handler result" where
  "create_operator_challenge_ack_txhandler V p kickoff wt_idx =
     build V (Tx_OperatorChallengeAck wt_idx) NON_STANDARD_V3
       [add_in (normal_sig Sig_OperatorChallengeAck1)
          (get_spendable_output kickoff (Vout_WatchtowerChallengeAck wt_idx)) (ScriptSpend 2) DEFAULT_SEQUENCE,
        partial_out (anchor_output (anchor_amount p)),
        partial_out (op_return_txout V (ascii ''PADDING''))]"

definition create_disprove_txhandler :: "bitcoin_env \<Rightarrow> tx_handler \<Rightarrow> tx_handler \<Rightarrow> tx_handler result" where
  "create_disprove_txhandler V kickoff round =
     build V Tx_Disprove 2
       [add_in (normal_sig Sig_NoSignature) (get_spendable_output kickoff Vout_Disprove) UnknownPath DEFAULT_SEQUENCE,
        add_in (normal_sig Sig_Disprove2) (get_spendable_output round Vout_CollateralInRound) KeySpend DEFAULT_SEQUENCE,
        partial_out non_ephemeral_anchor_output]"

definition create_challenge_txhandler ::
  "bitcoin_env \<Rightarrow> protocol_paramset \<Rightarrow> tx_handler \<Rightarrow> address \<Rightarrow> bytes option \<Rightarrow> tx_handler result" where
  "create_challenge_txhandler V p kickoff reimbursement_address challenger_evm_address =
     build V Tx_Challenge NON_STANDARD_V3
       ([add_in (normal_sig Sig_Challenge) (get_spendable_output kickoff Vout_Challenge) (ScriptSpend 0) DEFAULT_SEQUENCE,
         partial_out \<lparr>txo_value = operator_challenge_amount p,
           script_pubkey = address_script_pubkey (taproot V) reimbursement_address\<rparr>]
        @ (case challenger_evm_address of Some evm \<Rightarrow> [partial_out (op_return_txout V evm)] | None \<Rightarrow> []))"

definition create_challenge_timeout_txhandler :: "bitcoin_env \<Rightarrow> protocol_paramset \<Rightarrow> tx_handler \<Rightarrow> tx_handler result" where
  "create_challenge_timeout_txhandler V p kickoff =
     build V Tx_ChallengeTimeout NON_STANDARD_V3
       [add_in (normal_sig Sig_OperatorSighashDefault) (get_spendable_output kickoff Vout_Challenge) (ScriptSpend 1)
          (from_height (operator_challenge_timeout_timelock p)),
        add_in (normal_sig Sig_ChallengeTimeout2) (get_spendable_output kickoff Vout_KickoffFinalizer) (ScriptSpend 0) DEFAULT_SEQUENCE,
        partial_out (anchor_output (anchor_amount p))]"

definition create_disprove_timeout_txhandler :: "bitcoin_env \<Rightarrow> protocol_paramset \<Rightarrow> tx_handler \<Rightarrow> tx_handler result" where
  "create_disprove_timeout_txhandler V p kickoff =
     build V Tx_DisproveTimeout NON_STANDARD_V3
       [add_in (normal_sig Sig_OperatorSighashDefault) (get_spendable_output kickoff Vout_Disprove) (ScriptSpend 0)
          (from_height (disprove_timeout_timelock p)),
        add_in (normal_sig Sig_DisproveTimeout2) (get_spendable_output kickoff Vout_KickoffFinalizer) (ScriptSpend 0) DEFAULT_SEQUENCE,
        partial_out (anchor_output (anchor_amount p))]"

definition create_latest_blockhash_timeout_txhandler ::
  "bitcoin_env \<Rightarrow> protocol_paramset \<Rightarrow> tx_handler \<Rightarrow> tx_handler \<Rightarrow> tx_handler result" where
  "create_latest_blockhash_timeout_txhandler V p kickoff round =
     build V Tx_LatestBlockhashTimeout NON_STANDARD_V3
       [add_in (normal_sig Sig_LatestBlockhashTimeout1) (get_spendable_output kickoff Vout_LatestBlockhash) (ScriptSpend 0)
          (from_height (latest_blockhash_timeout_timelock p)),
        add_in (normal_sig Sig_LatestBlockhashTimeout2) (get_spendable_output kickoff Vout_KickoffFinalizer) (ScriptSpend 0) DEFAULT_SEQUENCE,
        add_in (normal_sig Sig_LatestBlockhashTimeout3) (get_spendable_output round Vout_CollateralInRound) KeySpend DEFAULT_SEQUENCE,
        partial_out (anchor_output (anchor_amount p))]"

definition create_mini_asserts :: "bitcoin_env \<Rightarrow> protocol_paramset \<Rightarrow> tx_handler \<Rightarrow> nat \<Rightarrow> tx_handler list result" where
  "create_mini_asserts V p kickoff num_asserts =
     rmap (\<lambda>idx. build V (Tx_MiniAssert idx) NON_STANDARD_V3
       [add_in (normal_sig Sig_MiniAssert1) (get_spendable_output kickoff (Vout_Assert idx)) (ScriptSpend 1) DEFAULT_SEQUENCE,
        partial_out (anchor_output (anchor_amount p)),
        partial_out (op_return_txout V [])])
       [0..<num_asserts]"

definition create_latest_blockhash_txhandler :: "bitcoin_env \<Rightarrow> protocol_paramset \<Rightarrow> tx_handler \<Rightarrow> tx_handler result" where
  "create_latest_blockhash_txhandler V p kickoff =
     build V Tx_LatestBlockhash NON_STANDARD_V3
       [add_in (normal_sig Sig_LatestBlockhash) (get_spendable_output kickoff Vout_LatestBlockhash) (ScriptSpend 1) DEFAULT_SEQUENCE,
        partial_out (anchor_output (anchor_amount p)),
        partial_out (op_return_txout V [])]"

end
