(* ===== verification/Tx_Layout.thy ===== *)
theory Tx_Layout
  imports Tx_Builder
begin

text \<open>
  What the builders of \<open>Tx_Builder\<close> produce: the layout of the outputs of the round, ready-to-reimburse,
  kickoff and move-to-vault transactions, and the typing of inputs. An input is well typed when the
  party that owes its signature can spend the output it names: the script at the chosen index exists,
  checks that party's key and is not locked longer than the input's sequence, or the key path is that
  party's key.
\<close>

section \<open>Chains of calls\<close>

lemma run_steps_simps [simp]:
  "run_steps [] b = Inr b"
  "run_steps (f # fs) b = rbind (f b) (run_steps fs)"
  by (simp_all add: run_steps_def [abs_def])

lemma add_out_add_output: "add_out r b = rbind r (\<lambda>out. Inr (b\<lparr>tb_txouts := tb_txouts b @ [out]\<rparr>))"
  by (simp add: add_out_def add_output_def)

lemma run_add_outs:
  "run_steps (map add_out rs) b = rbind (rmap (\<lambda>r. r) rs) (\<lambda>outs. Inr (b\<lparr>tb_txouts := tb_txouts b @ outs\<rparr>))"
proof (induction rs arbitrary: b)
  case (Cons r rs)
  then show ?case by (cases r; cases "rmap (\<lambda>r. r) rs") (simp_all add: add_out_add_output)
qed simp

lemma finalize_tx_simps [simp]:
  "th_type (finalize_tx V b) = tb_type b" "th_txins (finalize_tx V b) = tb_txins b"
  "th_txouts (finalize_tx V b) = tb_txouts b"
  "tx_input (cached_tx (finalize_tx V b)) = map to_txin (tb_txins b)"
  "tx_output (cached_tx (finalize_tx V b)) = map uo_txout (tb_txouts b)"
  "cached_txid (finalize_tx V b) = compute_txid (btc V) (cached_tx (finalize_tx V b))"
  by (simp_all add: finalize_tx_def Let_def)

lemma builder_simps [simp]:
  "tb_type (with_version v b) = tb_type b" "tb_txins (with_version v b) = tb_txins b"
  "tb_txouts (with_version v b) = tb_txouts b"
  "tb_type (builder_new ty) = ty" "tb_txins (builder_new ty) = []" "tb_txouts (builder_new ty) = []"
  "tb_type (add_input i t path sq b) = tb_type b" "tb_txouts (add_input i t path sq b) = tb_txouts b"
  "tb_txins (add_input i t path sq b) = tb_txins b @ [spent_from_spendable i t path sq None]"
  "tb_type (add_output out b) = tb_type b" "tb_txins (add_output out b) = tb_txins b"
  "tb_txouts (add_output out b) = tb_txouts b @ [out]"
  by (simp_all add: with_version_def builder_new_def add_input_def add_output_def)

lemma build_one_input:
  assumes "build V ty v (add_in i r path sq # map add_out rs) = Inr h"
  obtains txin outs where "r = Inr txin" "rmap (\<lambda>r. r) rs = Inr outs" "th_type h = ty"
    "th_txins h = [spent_from_spendable i txin path sq None]" "th_txouts h = outs"
    "tx_input (cached_tx h) = [to_txin (spent_from_spendable i txin path sq None)]"
    "tx_output (cached_tx h) = map uo_txout outs"
  using assms by (auto simp: build_def add_in_def run_add_outs)

section \<open>Typing\<close>

text \<open>
  The keys of the parties. \<open>signer_key\<close> is the key that has to make the signature with a given id: by
  \<open>get_deposit_sig_owner\<close> the aggregated key, the key of the operator, or, for an own signature, the key
  of the watchtower with the number of the id or of the operator.
\<close>

record party_keys =
  key_nofn :: bytes
  key_operator :: bytes
  key_watchtowers :: "bytes list"

fun own_key :: "party_keys \<Rightarrow> signature_id \<Rightarrow> bytes option" where
  "own_key K (NormalSignature _) = Some (key_operator K)"
| "own_key K (NumberedSignature _ idx) =
     (if unat idx < length (key_watchtowers K) then Some (key_watchtowers K ! unat idx) else None)"

definition signer_key :: "party_keys \<Rightarrow> signature_id \<Rightarrow> bytes option" where
  "signer_key K sig_id =
     (case get_deposit_sig_owner sig_id of
        Inr (NofnSharedDeposit _) \<Rightarrow> Some (key_nofn K)
      | Inr (OperatorSharedDeposit _) \<Rightarrow> Some (key_operator K)
      | Inr (OperatorSharedSetup _) \<Rightarrow> Some (key_operator K)
      | Inr (Own _) \<Rightarrow> own_key K sig_id
      | _ \<Rightarrow> None)"

text \<open>The key whose signature a script needs, and the relative lock it needs (BIP 68 and 112).\<close>

fun script_key :: "spendable_script \<Rightarrow> bytes option" where
  "script_key (CheckSig k) = Some k"
| "script_key (WinternitzCommit _ k _) = Some k"
| "script_key (TimelockScript k _) = k"
| "script_key (PreimageRevealScript k _) = Some k"
| "script_key (BaseDepositScript k _) = Some k"
| "script_key (ReplacementDepositScript k _) = Some k"
| "script_key _ = None"

fun sequence_ok :: "spendable_script \<Rightarrow> u32 \<Rightarrow> bool" where
  "sequence_ok (TimelockScript _ t) sq = (sq = from_height t)"
| "sequence_ok _ _ = True"

text \<open>
  An input can be signed when the key that has to sign is the key of the path it spends: the internal
  key for the key path, else the key of the script, and then the sequence number satisfies the script.
\<close>

definition signable :: "party_keys \<Rightarrow> spent_txin \<Rightarrow> bool" where
  "signable K txin \<longleftrightarrow>
     (case signer_key K (input_id txin) of
        None \<Rightarrow> True
      | Some k \<Rightarrow>
          (let scripts = sp_scripts (spendable txin) in
           case in_spend_path txin of
             KeySpend \<Rightarrow> map_option si_internal_key (sp_spendinfo (spendable txin)) = Some k
           | ScriptSpend i \<Rightarrow> i < length scripts \<and> script_key (scripts ! i) = Some k \<and> sequence_ok (scripts ! i) (in_sequence txin)
           | UnknownPath \<Rightarrow> False))"

text \<open>
  An input is typed when it can be signed, its spend info passes the debug check, and it spends an
  output of a well-formed transaction or one of the funding outpoints \<open>F\<close>. Relative locks count only
  from version 2.
\<close>

definition input_typed :: "bitcoin_env \<Rightarrow> party_keys \<Rightarrow> out_point set \<Rightarrow> spent_txin \<Rightarrow> bool" where
  "input_typed V K F txin \<longleftrightarrow> signable K txin \<and> input_checked V txin \<and>
     (previous_outpoint (spendable txin) \<in> F \<or>
      (\<exists>h vout. handler_wf V h \<and> get_spendable_output h vout = Inr (spendable txin)))"

definition handler_typed :: "bitcoin_env \<Rightarrow> party_keys \<Rightarrow> out_point set \<Rightarrow> tx_handler \<Rightarrow> bool" where
  "handler_typed V K F h \<longleftrightarrow> handler_wf V h \<and> 2 \<le> unat (tx_version (cached_tx h)) \<and>
     (\<forall>txin \<in> set (th_txins h). input_typed V K F txin)"

named_theorems typing

definition builder_typed :: "bitcoin_env \<Rightarrow> party_keys \<Rightarrow> out_point set \<Rightarrow> tx_handler_builder \<Rightarrow> bool" where
  "builder_typed V K F b \<longleftrightarrow> 2 \<le> unat (tb_version b) \<and>
     (\<forall>txin \<in> set (tb_txins b). input_typed V K F txin) \<and> (\<forall>out \<in> set (tb_txouts b). output_checked V out)"

definition step_typed :: "bitcoin_env \<Rightarrow> party_keys \<Rightarrow> out_point set \<Rightarrow> build_step \<Rightarrow> bool" where
  "step_typed V K F f \<longleftrightarrow> (\<forall>b b'. builder_typed V K F b \<longrightarrow> f b = Inr b' \<longrightarrow> builder_typed V K F b')"

lemma step_typed_add_in:
  assumes "\<And>t. r = Inr t \<Longrightarrow> input_typed V K F (spent_from_spendable i t path sq None)"
  shows "step_typed V K F (add_in i r path sq)"
  using assms by (auto simp: step_typed_def builder_typed_def add_in_def add_input_def)

lemma step_typed_add_out [typing]:
  assumes "\<And>out. r = Inr out \<Longrightarrow> output_checked V out"
  shows "step_typed V K F (add_out r)"
  using assms by (auto simp: step_typed_def builder_typed_def add_out_def add_output_def)

lemma builder_typed_finalize:
  assumes "builder_typed V K F b"
  shows "handler_typed V K F (finalize_tx V b)"
proof -
  have "handler_wf V (finalize_tx V b)"
    using assms by (intro finalize_tx_wf) (auto simp: builder_typed_def input_typed_def)
  then show ?thesis using assms by (simp add: handler_typed_def builder_typed_def finalize_tx_def Let_def)
qed

lemma build_typed:
  assumes "build V ty v steps = Inr h" "2 \<le> unat v" "\<forall>f \<in> set steps. step_typed V K F f"
  shows "handler_typed V K F h"
proof -
  obtain b where run: "rfold (\<lambda>f b. f b) steps (with_version v (builder_new ty)) = Inr b" and h: "h = finalize_tx V b"
    using assms(1) by (auto simp: build_def run_steps_def)
  have "builder_typed V K F b"
  proof (rule rfold_invariant [OF run])
    show "builder_typed V K F (with_version v (builder_new ty))"
      using assms(2) by (simp add: builder_typed_def) (simp add: with_version_def)
    show "builder_typed V K F b'" if "f \<in> set steps" "builder_typed V K F a" "f a = Inr b'" for f a b'
      using that assms(3) unfolding step_typed_def by blast
  qed
  then show ?thesis unfolding h by (rule builder_typed_finalize)
qed

lemma version_typed [simp]: "2 \<le> unat NON_STANDARD_V3"
  by (simp add: NON_STANDARD_V3_def)

section \<open>Outputs\<close>

text \<open>A taproot output: its scripts, the internal key, and the debug check.\<close>

definition taproot_out :: "bitcoin_env \<Rightarrow> amount \<Rightarrow> spendable_script list \<Rightarrow> bytes \<Rightarrow> unspent_txout \<Rightarrow> bool" where
  "taproot_out V a scripts key out \<longleftrightarrow>
     output_checked V out \<and> txo_value (uo_txout out) = a \<and> uo_scripts out = scripts \<and>
     (\<exists>info. uo_spendinfo out = Some info \<and> si_internal_key info = key \<and>
        script_pubkey (uo_txout out) = p2tr_script (taproot V) (output_key (taproot V) info))"

abbreviation internal_key_or :: "bytes option \<Rightarrow> bytes" where
  "internal_key_or key \<equiv> (case key of Some k \<Rightarrow> k | None \<Rightarrow> UNSPENDABLE_XONLY_PUBKEY)"

lemma unspent_from_scripts_out:
  assumes "taproot_laws (taproot V)" "length scripts \<le> 2 ^ 63" "unspent_from_scripts V a scripts key net = Inr out"
  shows "taproot_out V a scripts (internal_key_or key) out"
proof -
  obtain txo info bufs addr where *: "rmap (to_script_buf V) scripts = Inr bufs"
      "create_taproot_address (taproot V) bufs key net = Inr (addr, info)"
      "out = unspent_new \<lparr>txo_value = a, script_pubkey = address_script_pubkey (taproot V) addr\<rparr> scripts (Some info)"
    using assms(3) by (auto simp: unspent_from_scripts_def taproot_txout_def)
  have len: "length bufs \<le> 2 ^ 63" using rmap_eq_Inr_length [OF *(1)] assms(2) by simp
  obtain si :: spend_info where si:
      "create_taproot_address (taproot V) bufs key net = Inr (p2tr_tweaked (taproot V) (output_key (taproot V) si) net, si)"
      "si_internal_key si = internal_key_or key"
    by (rule create_taproot_address_ok [OF assms(1) len])
  then have eq: "si = info" "addr = p2tr_tweaked (taproot V) (output_key (taproot V) info) net" using *(2) by simp_all
  show ?thesis
    using unspent_from_scripts_ok [OF assms] si(2) eq
    by (simp add: taproot_out_def *(3) unspent_new_def taproot_lawsD(5) [OF assms(1)])
qed

lemma taproot_out_spendable:
  assumes "taproot_out V a scripts key out"
  shows "output_checked V out" "uo_scripts out = scripts" "txo_value (uo_txout out) = a"
    "\<exists>info. uo_spendinfo out = Some info \<and> si_internal_key info = key"
  using assms by (auto simp: taproot_out_def)

lemma node_output:
  assumes "taproot_laws (taproot V)" "tb_finalize (taproot V) key ns = Some info"
    and "rmap (to_script_buf V) scripts = Inr bufs" "\<forall>b \<in> set bufs. TapLeaf b \<in> snd ` set ns"
  shows "taproot_out V a scripts key
    (unspent_new \<lparr>txo_value = a, script_pubkey = address_script_pubkey (taproot V) (p2tr (taproot V) key (tap_merkle_root (taproot V) info) net)\<rparr>
       scripts (Some info))"
proof -
  have info: "si_nodes info = ns" "si_internal_key info = key"
    using assms(2) by (auto simp: tb_finalize_def split: if_splits)
  have spk: "address_script_pubkey (taproot V) (p2tr (taproot V) key (tap_merkle_root (taproot V) info) net) =
      p2tr_script (taproot V) (output_key (taproot V) info)"
    using taproot_lawsD(5) [OF assms(1)] taproot_lawsD(6) [OF assms(1), of info net] info by simp
  have "\<forall>b \<in> set bufs. in_script_map (taproot V) info b" using assms(4) taproot_lawsD(3) [OF assms(1)] info by simp
  then show ?thesis
    using assms(3) spk info
    by (simp add: taproot_out_def output_checked_def checked_def unspent_new_def spendable_check_def spendable_new_def
      spendable_from_unchecked_def ensure_def)
qed

lemma add_node_Some: "add_node T d n b = Some b' \<longleftrightarrow> tb_accepts T b (d, n) \<and> b' = b @ [(d, n)]"
  by (auto simp: add_node_def)

lemma hidden_node_output:
  assumes "taproot_laws (taproot V)" "create_taproot_output_with_hidden_node V script node a net = Inr out"
  shows "taproot_out V a [script] UNSPENDABLE_XONLY_PUBKEY out"
proof -
  obtain buf info where *: "to_script_buf V script = Inr buf"
      "tb_finalize (taproot V) UNSPENDABLE_XONLY_PUBKEY [(1, TapLeaf buf), (1, TapHidden node)] = Some info"
      "out = unspent_new \<lparr>txo_value = a, script_pubkey = address_script_pubkey (taproot V)
         (p2tr (taproot V) UNSPENDABLE_XONLY_PUBKEY (tap_merkle_root (taproot V) info) net)\<rparr> [script] (Some info)"
    using assms(2) by (auto simp: create_taproot_output_with_hidden_node_def Let_def add_leaf_def add_hidden_node_def add_node_Some)
  show ?thesis unfolding *(3) by (rule node_output [OF assms(1) *(2), of _ \<open>[buf]\<close>]) (use *(1) in auto)
qed

lemma disprove_taptree_nodes:
  assumes "disprove_taptree T timeout_script additional path = Inr ns"
  shows "{TapLeaf timeout_script, TapLeaf additional} \<subseteq> snd ` set ns"
    and "path = DisproveScripts extra \<Longrightarrow> length (calculate_taproot_leaf_depths (length extra)) = length extra \<Longrightarrow>
      TapLeaf ` set extra \<subseteq> snd ` set ns"
proof -
  have loop: "ns = b @ map (\<lambda>(d, s). (2 + d, TapLeaf s)) xs"
    if "rfold (\<lambda>(depth, script) b. expect (add_node T (2 + depth) (TapLeaf script) b) e) xs b = Inr ns" for xs b e
    using that by (induction xs arbitrary: b) (fastforce simp: add_node_Some)+
  have scripts: "ns = (1, TapLeaf timeout_script) # (2, TapLeaf additional) #
        map (\<lambda>(d, s). (2 + d, TapLeaf s)) (zip (calculate_taproot_leaf_depths (length ex)) ex)"
    if "path = DisproveScripts ex" for ex
    using assms that by (auto simp: disprove_taptree_def add_leaf_def add_node_Some dest!: loop)
  have hidden: "ns = [(1, TapLeaf timeout_script), (2, TapLeaf additional), (2, TapHidden h)]"
    if "path = DisproveHiddenNode h" for h
    using assms that by (auto simp: disprove_taptree_def add_leaf_def add_hidden_node_def add_node_Some)
  show "{TapLeaf timeout_script, TapLeaf additional} \<subseteq> snd ` set ns"
    by (cases path) (simp_all add: scripts hidden)
  show "TapLeaf ` set extra \<subseteq> snd ` set ns"
    if "path = DisproveScripts extra" "length (calculate_taproot_leaf_depths (length extra)) = length extra"
  proof -
    have "map snd (map2 (\<lambda>d s. (2 + d, TapLeaf s)) ds ss) = map TapLeaf ss" if "length ds = length ss"
      for ds :: "u8 list" and ss
      using that by (induction ds ss rule: list_induct2) simp_all
    from this [OF that(2)] have "map snd ns = TapLeaf timeout_script # TapLeaf additional # map TapLeaf extra"
      by (simp add: scripts [OF that(1)])
    then have "snd ` set ns = set (TapLeaf timeout_script # TapLeaf additional # map TapLeaf extra)" by (simp flip: set_map)
    then show ?thesis by auto
  qed
qed

lemma length_leaf_depths: "length (calculate_taproot_leaf_depths n) = n"
  by (auto simp: calculate_taproot_leaf_depths_def Let_def)

lemma disprove_output:
  assumes "taproot_laws (taproot V)" "create_disprove_taproot_output V timeout additional path a net = Inr out"
  shows "\<exists>others. taproot_out V a (timeout # others) UNSPENDABLE_XONLY_PUBKEY out"
proof -
  define extra where "extra = (case path of DisproveScripts ex \<Rightarrow> ex | DisproveHiddenNode _ \<Rightarrow> [])"
  obtain buf ns info where *: "to_script_buf V timeout = Inr buf"
      "disprove_taptree (taproot V) buf additional path = Inr ns"
      "tb_finalize (taproot V) UNSPENDABLE_XONLY_PUBKEY ns = Some info"
      "out = unspent_new \<lparr>txo_value = a, script_pubkey = address_script_pubkey (taproot V)
         (p2tr (taproot V) UNSPENDABLE_XONLY_PUBKEY (tap_merkle_root (taproot V) info) net)\<rparr>
         (timeout # map OtherSpendable (additional # extra)) (Some info)"
    using assms(2) unfolding create_disprove_taproot_output_def Let_def extra_def by auto
  have bufs: "rmap (to_script_buf V) (timeout # map OtherSpendable (additional # extra)) = Inr (buf # additional # extra)"
  proof -
    have "rmap (to_script_buf V) (map OtherSpendable xs) = Inr xs" for xs by (induction xs) simp_all
    then show ?thesis using *(1) by simp
  qed
  have "TapLeaf ` set extra \<subseteq> snd ` set ns"
    using disprove_taptree_nodes(2) [OF *(2) _ length_leaf_depths] by (cases path) (simp_all add: extra_def)
  then have "\<forall>b \<in> set (buf # additional # extra). TapLeaf b \<in> snd ` set ns"
    using disprove_taptree_nodes(1) [OF *(2)] by auto
  from node_output [OF assms(1) *(3) bufs this] show ?thesis unfolding *(4) by blast
qed

section \<open>Layouts\<close>

text \<open>The collateral output of the round and ready-to-reimburse transactions.\<close>

definition collateral_at :: "bitcoin_env \<Rightarrow> bytes \<Rightarrow> tx_handler \<Rightarrow> bool" where
  "collateral_at V operator_pk h \<longleftrightarrow> handler_wf V h \<and> 0 < length (th_txouts h) \<and>
     (\<exists>a. taproot_out V a [] operator_pk (th_txouts h ! 0))"

definition round_layout :: "bitcoin_env \<Rightarrow> protocol_paramset \<Rightarrow> bytes \<Rightarrow> tx_handler \<Rightarrow> bool" where
  "round_layout V p operator_pk h \<longleftrightarrow> collateral_at V operator_pk h \<and>
     length (th_txouts h) = 2 * num_kickoffs_per_round p + 2 \<and>
     (\<forall>i < num_kickoffs_per_round p.
        (\<exists>pubkey. taproot_out V (kickoff_amount p)
           [WinternitzCommit [(pubkey, kickoff_blockhash_commit_length p)] operator_pk (winternitz_log_d p),
            TimelockScript (Some operator_pk) 1] UNSPENDABLE_XONLY_PUBKEY (th_txouts h ! (i + 1))) \<and>
        taproot_out V (default_utxo_amount p) [] operator_pk (th_txouts h ! (num_kickoffs_per_round p + i + 1)))"

text \<open>
  In a kickoff transaction the commitment scripts of the operator follow the timeout scripts of the
  latest block hash and the assert outputs when they are known (\<open>c\<close>); otherwise their place is a hidden
  node.
\<close>

definition operator_script :: "bytes \<Rightarrow> spendable_script \<Rightarrow> bool" where
  "operator_script operator_pk s \<longleftrightarrow> script_key s = Some operator_pk \<and> (\<forall>sq. sequence_ok s sq)"

definition timeout_out :: "bitcoin_env \<Rightarrow> amount \<Rightarrow> bytes \<Rightarrow> u16 \<Rightarrow> (spendable_script list \<Rightarrow> bool) \<Rightarrow> unspent_txout \<Rightarrow> bool" where
  "timeout_out V a key t P out \<longleftrightarrow>
     (\<exists>others. P others \<and> taproot_out V a (TimelockScript (Some key) t # others) UNSPENDABLE_XONLY_PUBKEY out)"

abbreviation commit_known :: "bool \<Rightarrow> bytes \<Rightarrow> spendable_script list \<Rightarrow> bool" where
  "commit_known c operator_pk others \<equiv> c \<longrightarrow> (\<exists>s. others = [s] \<and> operator_script operator_pk s)"

definition kickoff_layout :: "bitcoin_env \<Rightarrow> protocol_paramset \<Rightarrow> party_keys \<Rightarrow> bool \<Rightarrow> tx_handler \<Rightarrow> bool" where
  "kickoff_layout V p K c h \<longleftrightarrow> handler_wf V h \<and>
     (let n = length (key_watchtowers K); out = (\<lambda>i. th_txouts h ! i); d = default_utxo_amount p in
      length (th_txouts h) = 5 + NUMBER_OF_ASSERT_TXS + 2 * n + 2 \<and>
      taproot_out V d [CheckSig (key_operator K), TimelockScript (Some (key_operator K)) (operator_challenge_timeout_timelock p)]
        UNSPENDABLE_XONLY_PUBKEY (out 0) \<and>
      taproot_out V d [CheckSig (key_nofn K)] UNSPENDABLE_XONLY_PUBKEY (out 1) \<and>
      taproot_out V d [CheckSig (key_nofn K)] UNSPENDABLE_XONLY_PUBKEY (out 2) \<and>
      timeout_out V d (key_operator K) (disprove_timeout_timelock p) (\<lambda>_. True) (out 3) \<and>
      timeout_out V d (key_nofn K) (latest_blockhash_timeout_timelock p) (commit_known c (key_operator K)) (out 4) \<and>
      (\<forall>i < NUMBER_OF_ASSERT_TXS.
         timeout_out V d (key_nofn K) (assert_timeout_timelock p) (commit_known c (key_operator K)) (out (i + 5))) \<and>
      (\<forall>i < n. \<exists>a. taproot_out V a [TimelockScript (Some (key_nofn K)) (watchtower_challenge_timeout_timelock p)]
           (key_watchtowers K ! i) (out (2 * i + 5 + NUMBER_OF_ASSERT_TXS))) \<and>
      (\<forall>i < n. \<exists>hash. taproot_out V d
           [TimelockScript (Some (key_nofn K)) (operator_challenge_nack_timelock p),
            TimelockScript (Some (key_nofn K)) (watchtower_challenge_timeout_timelock p),
            PreimageRevealScript (key_operator K) hash] UNSPENDABLE_XONLY_PUBKEY (out (2 * i + 6 + NUMBER_OF_ASSERT_TXS))))"

definition move_layout :: "bitcoin_env \<Rightarrow> protocol_paramset \<Rightarrow> bytes \<Rightarrow> tx_handler \<Rightarrow> bool" where
  "move_layout V p nofn h \<longleftrightarrow> handler_wf V h \<and> length (th_txouts h) = 2 \<and>
     (\<exists>council. taproot_out V (bridge_amount p) [CheckSig nofn, council] UNSPENDABLE_XONLY_PUBKEY (th_txouts h ! 0))"

lemma get_spendable_output_at:
  assumes "get_spendable_output h vout = Inr t"
  shows "unat (get_vout vout) < length (th_txouts h)"
    "t = spendable_new \<lparr>op_txid = cached_txid h, op_vout = get_vout vout\<rparr> (uo_txout (th_txouts h ! unat (get_vout vout)))
       (uo_scripts (th_txouts h ! unat (get_vout vout))) (uo_spendinfo (th_txouts h ! unat (get_vout vout)))"
  using assms by (auto simp: get_spendable_output_def Let_def split: if_splits)

lemma spendable_new_simps [simp]:
  "previous_outpoint (spendable_new op out scripts info) = op" "prevout (spendable_new op out scripts info) = out"
  "sp_scripts (spendable_new op out scripts info) = scripts" "sp_spendinfo (spendable_new op out scripts info) = info"
  by (simp_all add: spendable_new_def spendable_from_unchecked_def)

section \<open>Spending the outputs of a layout\<close>

definition spends :: "bitcoin_env \<Rightarrow> out_point set \<Rightarrow> spendable_script list \<Rightarrow> bytes \<Rightarrow> spendable_txin \<Rightarrow> bool" where
  "spends V F scripts key t \<longleftrightarrow> spendable_check V t = Inr () \<and> sp_scripts t = scripts \<and>
     map_option si_internal_key (sp_spendinfo t) = Some key \<and>
     (previous_outpoint t \<in> F \<or> (\<exists>h vout. handler_wf V h \<and> get_spendable_output h vout = Inr t))"

definition path_ok :: "party_keys \<Rightarrow> signature_id \<Rightarrow> spendable_script list \<Rightarrow> bytes \<Rightarrow> spend_path \<Rightarrow> u32 \<Rightarrow> bool" where
  "path_ok K sig_id scripts key path sq \<longleftrightarrow>
     (case signer_key K sig_id of
        None \<Rightarrow> True
      | Some k \<Rightarrow>
          (case path of
             KeySpend \<Rightarrow> key = k
           | ScriptSpend i \<Rightarrow> i < length scripts \<and> script_key (scripts ! i) = Some k \<and> sequence_ok (scripts ! i) sq
           | UnknownPath \<Rightarrow> False))"

lemma input_typed_spends:
  assumes "spends V F scripts key t" "path_ok K i scripts key path sq"
  shows "input_typed V K F (spent_from_spendable i t path sq None)"
  using assms
  by (auto simp: input_typed_def spends_def path_ok_def signable_def spent_from_spendable_def input_checked_def Let_def
    split: option.splits spend_path.splits)

lemma spends_output:
  assumes "handler_wf V h" "get_spendable_output h vout = Inr t"
    and "taproot_out V a scripts key (th_txouts h ! unat (get_vout vout))"
  shows "spends V F scripts key t"
proof -
  have "spendable_check V t = Inr ()"
    using assms(3) unfolding get_spendable_output_at(2) [OF assms(2)] taproot_out_def output_checked_def checked_def by blast
  then show ?thesis
    using assms unfolding spends_def taproot_out_def by (auto simp: get_spendable_output_at(2) [OF assms(2)])
qed

lemma step_typed_spend:
  assumes "handler_wf V h" "taproot_out V a scripts key (th_txouts h ! unat (get_vout vout))" "path_ok K i scripts key path sq"
  shows "step_typed V K F (add_in i (get_spendable_output h vout) path sq)"
  using assms by (blast intro: step_typed_add_in input_typed_spends spends_output)

lemma step_typed_partial [simp]: "step_typed V K F (partial_out out)"
  by (rule step_typed_add_out) auto

lemma signer_key_normal [simp]:
  "signer_key K (normal_sig kind) =
     (case normal_sig_owner kind of
        Inr (NofnSharedDeposit _) \<Rightarrow> Some (key_nofn K)
      | Inr NotOwned \<Rightarrow> None
      | Inr _ \<Rightarrow> Some (key_operator K)
      | Inl _ \<Rightarrow> None)"
  by (auto simp: signer_key_def normal_sig_def [of kind, symmetric] split: sum.splits deposit_sig_key_owner.splits)
    (simp_all add: normal_sig_def)

lemma signer_key_numbered [simp]:
  "signer_key K (numbered_sig kind idx) =
     (case numbered_sig_owner kind of
        Inr (NofnSharedDeposit _) \<Rightarrow> Some (key_nofn K)
      | Inr NotOwned \<Rightarrow> None
      | Inr (Own _) \<Rightarrow> (if unat idx < length (key_watchtowers K) then Some (key_watchtowers K ! unat idx) else None)
      | Inr _ \<Rightarrow> Some (key_operator K)
      | Inl _ \<Rightarrow> None)"
  by (auto simp: signer_key_def numbered_sig_def [of kind, symmetric] split: sum.splits deposit_sig_key_owner.splits)
    (simp_all add: numbered_sig_def)

text \<open>The output numbers do not wrap around for the sizes a deployment has.\<close>

lemma vout_values:
  "i < 2 ^ 30 \<Longrightarrow> unat (get_vout (Vout_Assert i)) = i + 5"
  "i < 2 ^ 30 \<Longrightarrow> unat (get_vout (Vout_WatchtowerChallenge i)) = 2 * i + 5 + NUMBER_OF_ASSERT_TXS"
  "i < 2 ^ 30 \<Longrightarrow> unat (get_vout (Vout_WatchtowerChallengeAck i)) = 2 * i + 6 + NUMBER_OF_ASSERT_TXS"
  "i < 2 ^ 30 \<Longrightarrow> unat (get_vout (Vout_Kickoff i)) = i + 1"
  "i < 2 ^ 30 \<Longrightarrow> n < 2 ^ 30 \<Longrightarrow> unat (get_vout (Vout_ReimburseInRound i n)) = n + i + 1"
proof -
  have of_nat: "unat (of_nat k :: u32) = k" if "k < 2 ^ 32" for k using that by (simp add: unat_of_nat)
  show "unat (get_vout (Vout_Assert i)) = i + 5" if "i < 2 ^ 30"
    using of_nat [of "i + 5"] that by simp
  show "unat (get_vout (Vout_WatchtowerChallenge i)) = 2 * i + 5 + NUMBER_OF_ASSERT_TXS" if "i < 2 ^ 30"
    using that by (subst get_vout.simps, subst of_nat) (simp_all add: NUMBER_OF_ASSERT_TXS_def)
  show "unat (get_vout (Vout_WatchtowerChallengeAck i)) = 2 * i + 6 + NUMBER_OF_ASSERT_TXS" if "i < 2 ^ 30"
    using that by (subst get_vout.simps, subst of_nat) (simp_all add: NUMBER_OF_ASSERT_TXS_def)
  show "unat (get_vout (Vout_Kickoff i)) = i + 1" if "i < 2 ^ 30"
    using of_nat [of "i + 1"] that by (simp add: add.commute)
  show "unat (get_vout (Vout_ReimburseInRound i n)) = n + i + 1" if "i < 2 ^ 30" "n < 2 ^ 30"
    using that by (subst get_vout.simps, subst of_nat) simp_all
qed

section \<open>The layouts are built\<close>

lemma build_outputs:
  assumes "build V ty v (add_in i r path sq # map add_out rs) = Inr h"
  shows "rmap (\<lambda>r. r) rs = Inr (th_txouts h)"
  using assms by (auto elim: build_one_input)

lemma length_paired: "length (concat (map (\<lambda>(i, x). [f i x, g i x]) (List.enumerate m xs))) = 2 * length xs"
  by (induction xs arbitrary: m) simp_all

lemma nth_paired:
  assumes "j < length xs"
  shows "concat (map (\<lambda>(i, x). [f i x, g i x]) (List.enumerate m xs)) ! (2 * j) = f (m + j) (xs ! j)"
    and "concat (map (\<lambda>(i, x). [f i x, g i x]) (List.enumerate m xs)) ! Suc (2 * j) = g (m + j) (xs ! j)"
  using assms by (induction xs arbitrary: m j) (auto simp: nth_Cons split: nat.splits)

lemma Inr_eq_rbind [simp]: "Inr y = rbind r f \<longleftrightarrow> rbind r f = Inr y"
  by (rule eq_commute)

lemma scripts_out:
  assumes "taproot_laws (taproot V)" "unspent_from_scripts V a scripts key net = Inr out" "length scripts \<le> 3"
  shows "taproot_out V a scripts (internal_key_or key) out"
  using assms(3) by (intro unspent_from_scripts_out [OF assms(1) _ assms(2)]) simp

lemma scripts_checked:
  "taproot_laws (taproot V) \<Longrightarrow> unspent_from_scripts V a scripts key net = Inr out \<Longrightarrow> length scripts \<le> 3 \<Longrightarrow>
   output_checked V out"
  by (rule taproot_out_spendable(1) [OF scripts_out])

lemma scripts_checked_few:
  assumes "taproot_laws (taproot V)"
  shows "unspent_from_scripts V a [] key net = Inr out \<Longrightarrow> output_checked V out"
    and "unspent_from_scripts V a [s1] key net = Inr out \<Longrightarrow> output_checked V out"
    and "unspent_from_scripts V a [s1, s2] key net = Inr out \<Longrightarrow> output_checked V out"
    and "unspent_from_scripts V a [s1, s2, s3] key net = Inr out \<Longrightarrow> output_checked V out"
  by (erule scripts_checked [OF assms], simp)+

text \<open>The input of a round transaction: the collateral of the operator, or the output of the previous round.\<close>

fun round_input_ok :: "bitcoin_env \<Rightarrow> out_point set \<Rightarrow> bytes \<Rightarrow> round_tx_input \<Rightarrow> bool" where
  "round_input_ok V F operator_pk (RoundPrevout prev) = spends V F [] operator_pk prev"
| "round_input_ok V F operator_pk (RoundCollateral op a) = (op \<in> F)"

lemma round_input_typed:
  assumes "taproot_laws (taproot V)" "round_input_ok V F (key_operator K) txin"
  shows "step_typed V K F (round_input V p (key_operator K) txin)"
proof (cases txin)
  case (RoundPrevout prev)
  then show ?thesis
    using assms(2) by (auto simp: round_input_def path_ok_def intro!: step_typed_add_in input_typed_spends)
next
  case (RoundCollateral op a)
  obtain si :: spend_info where si:
      "create_taproot_address (taproot V) [] (Some (key_operator K)) (network p) =
         Inr (p2tr_tweaked (taproot V) (output_key (taproot V) si) (network p), si)"
      "si_internal_key si = key_operator K"
    by (rule create_taproot_address_ok [OF assms(1), of "[]" "Some (key_operator K)"]) simp_all
  then show ?thesis
    using assms(2) RoundCollateral
    by (auto simp: round_input_def path_ok_def spends_def spendable_check_def taproot_lawsD(5) [OF assms(1)] ensure_def
      intro!: step_typed_add_in input_typed_spends [where scripts = "[]" and key = "key_operator K"])
qed

lemma round_typed:
  assumes "taproot_laws (taproot V)" "round_input_ok V F (key_operator K) txin"
    and "create_round_txhandler V p (key_operator K) txin keys = Inr h"
  shows "handler_typed V K F h"
proof (rule build_typed [OF assms(3) [unfolded create_round_txhandler_def]])
  have "step_typed V K F (add_out r)" if "r \<in> set (round_outputs V p (key_operator K) txin keys)" for r
    using that by (intro step_typed_add_out) (auto simp: round_outputs_def intro: scripts_checked [OF assms(1)])
  then show "\<forall>f \<in> set (round_input V p (key_operator K) txin # map add_out (round_outputs V p (key_operator K) txin keys)).
      step_typed V K F f"
    using round_input_typed [OF assms(1,2)] by auto
qed simp

lemma round_input_add_in: "\<exists>i r path sq. round_input V p operator_pk txin = add_in i r path sq"
  by (auto simp: round_input_def split: round_tx_input.splits)

lemma round_layout_built:
  fixes K :: party_keys
  assumes laws: "taproot_laws (taproot V)" and ok: "round_input_ok V F (key_operator K) txin"
    and built: "create_round_txhandler V p (key_operator K) txin keys = Inr h" and len: "length keys = num_kickoffs_per_round p"
  shows "round_layout V p (key_operator K) h"
proof -
  define rs where "rs = round_outputs V p (key_operator K) txin keys"
  have outs: "rmap (\<lambda>r. r) rs = Inr (th_txouts h)"
    using built round_input_add_in [of V p "key_operator K" txin] build_outputs unfolding create_round_txhandler_def rs_def by metis
  note nth = rmap_eq_Inr_nth [OF outs]
  have lrs: "length rs = 2 * num_kickoffs_per_round p + 2" using len by (simp add: rs_def round_outputs_def)
  have collateral: "\<exists>a. taproot_out V a [] (key_operator K) (th_txouts h ! 0)"
    using nth [of 0] scripts_out [OF laws] lrs by (fastforce simp: rs_def round_outputs_def)
  have kickoff: "\<exists>pubkey. taproot_out V (kickoff_amount p)
           [WinternitzCommit [(pubkey, kickoff_blockhash_commit_length p)] (key_operator K) (winternitz_log_d p),
            TimelockScript (Some (key_operator K)) 1] UNSPENDABLE_XONLY_PUBKEY (th_txouts h ! (i + 1))"
    if "i < num_kickoffs_per_round p" for i
    using nth [of "i + 1"] that len lrs scripts_out [OF laws] by (fastforce simp: rs_def round_outputs_def nth_append)
  have reimburse: "taproot_out V (default_utxo_amount p) [] (key_operator K) (th_txouts h ! (num_kickoffs_per_round p + i + 1))"
    if "i < num_kickoffs_per_round p" for i
    using nth [of "num_kickoffs_per_round p + i + 1"] that len lrs scripts_out [OF laws]
    by (fastforce simp: rs_def round_outputs_def nth_append)
  have "length (th_txouts h) = 2 * num_kickoffs_per_round p + 2" using rmap_eq_Inr_length [OF outs] lrs by simp
  then show ?thesis
    using collateral kickoff reimburse round_typed [OF laws ok built]
    by (simp add: round_layout_def collateral_at_def handler_typed_def)
qed

lemma ready_typed:
  assumes laws: "taproot_laws (taproot V)" and round: "collateral_at V (key_operator K) round"
    and built: "create_ready_to_reimburse_txhandler V p round (key_operator K) = Inr h"
  shows "handler_typed V K F h" and "collateral_at V (key_operator K) h"
proof -
  obtain a0 where wf: "handler_wf V round" and out0: "taproot_out V a0 [] (key_operator K) (th_txouts round ! 0)"
    using round by (auto simp: collateral_at_def)
  obtain prev where prev: "get_spendable_output round Vout_CollateralInRound = Inr prev"
    and b: "build V Tx_ReadyToReimburse NON_STANDARD_V3
       (add_in (normal_sig Sig_OperatorSighashDefault) (Inr prev) KeySpend DEFAULT_SEQUENCE # map add_out
        [rbind (expect (amount_checked_sub (txo_value (prevout prev)) (anchor_amount p))
           (Err ''Insufficient funds while creating ready to reimburse tx'')) (\<lambda>a.
         unspent_from_scripts V a [] (Some (key_operator K)) (network p)),
         Inr (unspent_from_partial (anchor_output (anchor_amount p)))]) = Inr h"
    using built by (auto simp: create_ready_to_reimburse_txhandler_def)
  have "spends V F [] (key_operator K) prev"
    using spends_output [OF wf prev] out0 by simp
  then show typed: "handler_typed V K F h"
    by (intro build_typed [OF b])
      (auto simp: path_ok_def intro!: step_typed_add_in step_typed_add_out input_typed_spends
        intro: scripts_checked_few [OF laws])
  have "\<exists>a. taproot_out V a [] (key_operator K) (th_txouts h ! 0)"
    using rmap_eq_Inr_nth [OF build_outputs [OF b], of 0] scripts_out [OF laws] by fastforce
  moreover have "0 < length (th_txouts h)" using rmap_eq_Inr_length [OF build_outputs [OF b]] by simp
  ultimately show "collateral_at V (key_operator K) h" using typed by (simp add: collateral_at_def handler_typed_def)
qed

lemma move_typed:
  assumes laws: "taproot_laws (taproot V)" and built: "create_move_to_vault_txhandler V p d = Inr (h, d')"
    and nofn: "get_nofn_xonly_pk V d = Inr (key_nofn K, d1)" and F: "deposit_outpoint (deposit d) \<in> F"
  shows "handler_typed V K F h" and "move_layout V p (key_nofn K) h"
proof -
  obtain scripts d2 where scripts: "get_deposit_scripts V p d1 = Inr (scripts, d2)"
    and b: "build V Tx_MoveToVault NON_STANDARD_V3
       (add_in (normal_sig Sig_NotStored)
          (spendable_from_scripts V (deposit_outpoint (deposit d)) (bridge_amount p) scripts None (network p))
          (ScriptSpend 0) DEFAULT_SEQUENCE # map add_out
        [unspent_from_scripts V (bridge_amount p)
          [CheckSig (key_nofn K), multisig_from_security_council (dep_security_council d)] None (network p),
         Inr (unspent_from_partial (anchor_output 0))]) = Inr h"
    using built nofn by (auto simp: create_move_to_vault_txhandler_def)
  obtain pk d3 where pk: "get_nofn_xonly_pk V d1 = Inr (pk, d3)" using scripts by (auto simp: get_deposit_scripts_def)
  have len: "length scripts \<le> 2 ^ 63"
    using scripts pk by (cases "dep_type (deposit d3)") (auto simp: get_deposit_scripts_def)
  have "input_typed V K F (spent_from_spendable (normal_sig Sig_NotStored) t (ScriptSpend 0) DEFAULT_SEQUENCE None)"
    if "spendable_from_scripts V (deposit_outpoint (deposit d)) (bridge_amount p) scripts None (network p) = Inr t" for t
    using spendable_from_scripts_ok [OF laws len that] F
    by (simp add: input_typed_def signable_def spent_from_spendable_def input_checked_def)
  then show typed: "handler_typed V K F h"
    by (intro build_typed [OF b]) (auto intro!: step_typed_add_in step_typed_add_out intro: scripts_checked_few [OF laws])
  have "length (th_txouts h) = 2" using rmap_eq_Inr_length [OF build_outputs [OF b]] by simp
  moreover have "taproot_out V (bridge_amount p) [CheckSig (key_nofn K), multisig_from_security_council (dep_security_council d)]
       UNSPENDABLE_XONLY_PUBKEY (th_txouts h ! 0)"
    using rmap_eq_Inr_nth [OF build_outputs [OF b], of 0] scripts_out [OF laws] by fastforce
  ultimately show "move_layout V p (key_nofn K) h" using typed by (auto simp: move_layout_def handler_typed_def)
qed

subsection \<open>Kickoff\<close>

text \<open>The number of assert outputs, and whether the scripts of the asserts are known.\<close>

fun assert_count :: "assert_scripts \<Rightarrow> nat" where
  "assert_count (AssertScriptTapNodeHash hashes) = length hashes"
| "assert_count (AssertSpendableScript scripts) = length scripts"

definition commits_of :: "bytes \<Rightarrow> assert_scripts \<Rightarrow> bool" where
  "commits_of operator_pk scripts \<longleftrightarrow>
     (case scripts of AssertSpendableScript ss \<Rightarrow> \<forall>s \<in> set ss. operator_script operator_pk s | _ \<Rightarrow> False)"

lemma length_assert_outputs [simp]: "length (assert_outputs V p nofn scripts) = assert_count scripts"
  by (cases scripts) (simp_all add: assert_outputs_def)

lemma timeout_outI:
  "taproot_out V a (TimelockScript (Some key) t # others) UNSPENDABLE_XONLY_PUBKEY out \<Longrightarrow> P others \<Longrightarrow> timeout_out V a key t P out"
  unfolding timeout_out_def by blast

lemma assert_output:
  assumes laws: "taproot_laws (taproot V)" and i: "i < assert_count scripts"
    and out: "assert_outputs V p nofn scripts ! i = Inr out"
  shows "timeout_out V (default_utxo_amount p) nofn (assert_timeout_timelock p)
    (commit_known (commits_of operator_pk scripts) operator_pk) out"
proof (cases scripts)
  case (AssertScriptTapNodeHash hashes)
  then have "create_taproot_output_with_hidden_node V (TimelockScript (Some nofn) (assert_timeout_timelock p)) (hashes ! i)
      (default_utxo_amount p) (network p) = Inr out"
    using i out by (simp add: assert_outputs_def)
  from hidden_node_output [OF laws this] show ?thesis
    by (rule timeout_outI) (simp add: commits_of_def AssertScriptTapNodeHash)
next
  case (AssertSpendableScript ss)
  then have "unspent_from_scripts V (default_utxo_amount p) [TimelockScript (Some nofn) (assert_timeout_timelock p), ss ! i]
      None (network p) = Inr out"
    using i out by (simp add: assert_outputs_def)
  from scripts_out [OF laws this] show ?thesis
    using i AssertSpendableScript by (intro timeout_outI) (auto simp: commits_of_def)
qed

lemma latest_blockhash_out:
  assumes laws: "taproot_laws (taproot V)" and out: "latest_blockhash_output V p nofn scripts = Inr out"
  shows "timeout_out V (default_utxo_amount p) nofn (latest_blockhash_timeout_timelock p)
    (commit_known (commits_of operator_pk scripts) operator_pk) out"
proof (cases scripts)
  case (AssertScriptTapNodeHash hashes)
  then have "create_taproot_output_with_hidden_node V (TimelockScript (Some nofn) (latest_blockhash_timeout_timelock p)) (hashes ! 0)
      (default_utxo_amount p) (network p) = Inr out"
    using out by (simp add: latest_blockhash_output_def split: if_splits)
  from hidden_node_output [OF laws this] show ?thesis
    by (rule timeout_outI) (simp add: commits_of_def AssertScriptTapNodeHash)
next
  case (AssertSpendableScript ss)
  then have ss: "length ss = 1" and "unspent_from_scripts V (default_utxo_amount p)
      [TimelockScript (Some nofn) (latest_blockhash_timeout_timelock p), ss ! 0] None (network p) = Inr out"
    using out by (simp_all add: latest_blockhash_output_def split: if_splits)
  from scripts_out [OF laws this(2)] show ?thesis
    using ss AssertSpendableScript by (intro timeout_outI) (auto simp: commits_of_def)
qed

text \<open>The five fixed outputs, the outputs of the watchtowers, and the whole list.\<close>

lemma kickoff_outputs_nth:
  fixes V p nofn operator_pk wts asserts path extra blockhash hashes op_return
  assumes "length wts = n" "assert_count asserts = NUMBER_OF_ASSERT_TXS"
  defines "rs \<equiv> kickoff_outputs V p nofn operator_pk wts asserts path extra blockhash hashes op_return"
  shows "length rs = 5 + NUMBER_OF_ASSERT_TXS + 2 * n + 2"
    and "i < NUMBER_OF_ASSERT_TXS \<Longrightarrow> rs ! (i + 5) = assert_outputs V p nofn asserts ! i"
    and "i < n \<Longrightarrow> rs ! (2 * i + 5 + NUMBER_OF_ASSERT_TXS) = watchtower_challenge_output V p nofn (wts ! i)"
    and "i < n \<Longrightarrow> rs ! (2 * i + 6 + NUMBER_OF_ASSERT_TXS) = watchtower_ack_output V p nofn operator_pk hashes i"
proof -
  define wt where "wt = concat (map (\<lambda>(wt_idx, watchtower_pk).
         [watchtower_challenge_output V p nofn watchtower_pk,
          watchtower_ack_output V p nofn operator_pk hashes wt_idx]) (List.enumerate 0 wts))"
  obtain r0 r1 r2 r3 r4 rest where rs: "rs = [r0, r1, r2, r3, r4] @ assert_outputs V p nofn asserts @ wt @ rest" "length rest = 2"
    by (rule that [OF rs_def [THEN meta_eq_to_obj_eq, unfolded kickoff_outputs_def, folded wt_def]]) simp
  have wt: "length wt = 2 * n" "j < n \<Longrightarrow> wt ! (2 * j) = watchtower_challenge_output V p nofn (wts ! j)"
    "j < n \<Longrightarrow> wt ! Suc (2 * j) = watchtower_ack_output V p nofn operator_pk hashes j" for j
    using assms(1) by (simp_all add: wt_def length_paired nth_paired)
  have split: "rs ! (m + 5) = (assert_outputs V p nofn asserts @ wt @ rest) ! m" for m
    by (simp add: rs(1))
  show "length rs = 5 + NUMBER_OF_ASSERT_TXS + 2 * n + 2"
    using assms(2) by (simp add: rs wt(1))
  show "rs ! (i + 5) = assert_outputs V p nofn asserts ! i" if "i < NUMBER_OF_ASSERT_TXS"
    using that assms(2) split [of i] by (simp add: nth_append)
  show "rs ! (2 * i + 5 + NUMBER_OF_ASSERT_TXS) = watchtower_challenge_output V p nofn (wts ! i)" if "i < n"
    using that assms(2) split [of "2 * i + NUMBER_OF_ASSERT_TXS"] by (simp add: nth_append wt add.commute add.left_commute)
  show "rs ! (2 * i + 6 + NUMBER_OF_ASSERT_TXS) = watchtower_ack_output V p nofn operator_pk hashes i" if "i < n"
    using that assms(2) split [of "Suc (2 * i) + NUMBER_OF_ASSERT_TXS"] by (simp add: nth_append wt add.commute add.left_commute)
qed

lemma timeout_out_checked: "timeout_out V a key t P out \<Longrightarrow> output_checked V out"
  by (auto simp: timeout_out_def taproot_out_def)

lemma watchtower_challenge_out:
  assumes "taproot_laws (taproot V)" "watchtower_challenge_output V p nofn pk = Inr out"
  shows "\<exists>a. taproot_out V a [TimelockScript (Some nofn) (watchtower_challenge_timeout_timelock p)] pk out"
proof -
  obtain a where "unspent_from_scripts V a [TimelockScript (Some nofn) (watchtower_challenge_timeout_timelock p)]
      (Some pk) (network p) = Inr out"
    using assms(2) by (auto simp: watchtower_challenge_output_def)
  from scripts_out [OF assms(1) this] show ?thesis by auto
qed

lemma watchtower_ack_out:
  assumes "taproot_laws (taproot V)" "watchtower_ack_output V p nofn operator_pk hashes i = Inr out"
  shows "\<exists>hash. taproot_out V (default_utxo_amount p)
    [TimelockScript (Some nofn) (operator_challenge_nack_timelock p),
     TimelockScript (Some nofn) (watchtower_challenge_timeout_timelock p),
     PreimageRevealScript operator_pk hash] UNSPENDABLE_XONLY_PUBKEY out"
proof -
  obtain hash where "unspent_from_scripts V (default_utxo_amount p)
      [TimelockScript (Some nofn) (operator_challenge_nack_timelock p),
       TimelockScript (Some nofn) (watchtower_challenge_timeout_timelock p),
       PreimageRevealScript operator_pk hash] None (network p) = Inr out"
    using assms(2) by (auto simp: watchtower_ack_output_def)
  from scripts_out [OF assms(1) this] show ?thesis by auto
qed

lemma kickoff_outputs_checked:
  assumes laws: "taproot_laws (taproot V)"
    and "r \<in> set (kickoff_outputs V p nofn operator_pk wts asserts path extra blockhash hashes op_return)" "r = Inr out"
  shows "output_checked V out"
proof -
  have 1: "output_checked V out'" if mem: "Inr out' \<in> set (assert_outputs V p nofn asserts)" for out'
  proof -
    obtain i where "i < assert_count asserts" "assert_outputs V p nofn asserts ! i = Inr out'"
      using mem by (auto simp: in_set_conv_nth)
    from timeout_out_checked [OF assert_output [OF laws this, of "[]"]] show ?thesis .
  qed
  have 2: "output_checked V out'" if "Inr out' = latest_blockhash_output V p nofn blockhash" for out'
    using latest_blockhash_out [OF laws that [symmetric]] by (rule timeout_out_checked)
  have 3: "output_checked V out'"
    if "create_disprove_taproot_output V t extra path a net = Inr out'" for t a net out'
    using disprove_output [OF laws that] by (auto simp: taproot_out_def)
  have 4: "output_checked V out'" if "Inr out' = watchtower_challenge_output V p nofn pk" for pk out'
    using watchtower_challenge_out [OF laws that [symmetric]] by (auto simp: taproot_out_def)
  have 5: "output_checked V out'" if "Inr out' = watchtower_ack_output V p nofn operator_pk hashes i" for i out'
    using watchtower_ack_out [OF laws that [symmetric]] by (auto simp: taproot_out_def)
  from assms(2,3) show ?thesis
    unfolding kickoff_outputs_def set_append Un_iff list.set insert_iff
    by (elim disjE) (auto simp: 1 2 intro: 3 4 5 scripts_checked_few [OF laws])
qed

lemma kickoff_typed:
  fixes K :: party_keys
  assumes laws: "taproot_laws (taproot V)" and round: "round_layout V p (key_operator K) round"
    and built: "create_kickoff_txhandler V p kd round move d (key_operator K) asserts path extra blockhash hashes = Inr (h, d')"
    and nofn: "get_nofn_xonly_pk V d = Inr (key_nofn K, d1)" and wts: "get_watchtowers V d = key_watchtowers K"
    and asserts: "assert_count asserts = NUMBER_OF_ASSERT_TXS"
    and idx: "unat (kickoff_idx kd) < num_kickoffs_per_round p" "num_kickoffs_per_round p < 2 ^ 30"
  shows "handler_typed V K F h"
    and "kickoff_layout V p K (commits_of (key_operator K) asserts \<and> commits_of (key_operator K) blockhash) h"
proof -
  define rs where "rs = kickoff_outputs V p (key_nofn K) (key_operator K) (key_watchtowers K) asserts path extra
    blockhash hashes (cached_txid move @ operator_xonly_pk kd)"
  obtain txin where txin: "get_spendable_output round (Vout_Kickoff (unat (kickoff_idx kd))) = Inr txin"
    and b: "build V Tx_Kickoff NON_STANDARD_V3 (add_in (normal_sig Sig_OperatorSighashDefault) (Inr txin) (ScriptSpend 0)
      DEFAULT_SEQUENCE # map add_out rs) = Inr h"
    using built nofn wts by (auto simp: create_kickoff_txhandler_def rs_def)
  obtain pubkey where out: "taproot_out V (kickoff_amount p)
           [WinternitzCommit [(pubkey, kickoff_blockhash_commit_length p)] (key_operator K) (winternitz_log_d p),
            TimelockScript (Some (key_operator K)) 1] UNSPENDABLE_XONLY_PUBKEY (th_txouts round ! (unat (kickoff_idx kd) + 1))"
    and wf: "handler_wf V round"
    using round idx(1) by (auto simp: round_layout_def collateral_at_def)
  have v: "unat (get_vout (Vout_Kickoff (unat (kickoff_idx kd)))) = unat (kickoff_idx kd) + 1"
    by (rule vout_values(4)) (use idx in simp)
  have spend: "spends V F [WinternitzCommit [(pubkey, kickoff_blockhash_commit_length p)] (key_operator K) (winternitz_log_d p),
            TimelockScript (Some (key_operator K)) 1] UNSPENDABLE_XONLY_PUBKEY txin"
    by (rule spends_output [OF wf txin]) (use out in \<open>simp only: v\<close>)
  have "step_typed V K F (add_out r)" if "r \<in> set rs" for r
    using that kickoff_outputs_checked [OF laws] unfolding rs_def by (intro step_typed_add_out) blast
  then show typed: "handler_typed V K F h"
    using spend by (intro build_typed [OF b]) (auto simp: path_ok_def intro!: step_typed_add_in input_typed_spends)
  note outs = build_outputs [OF b]
  note nth = rmap_eq_Inr_nth [OF outs] and rs = kickoff_outputs_nth [OF refl asserts, where V = V and p = p and nofn = "key_nofn K" and
    operator_pk = "key_operator K" and wts = "key_watchtowers K" and path = path and extra = extra and blockhash = blockhash and
    hashes = hashes and op_return = "cached_txid move @ operator_xonly_pk kd", folded rs_def]
  define n where "n = length (key_watchtowers K)"
  have len: "length rs = 5 + NUMBER_OF_ASSERT_TXS + 2 * n + 2" by (simp only: rs n_def)
  have r5: "rs ! 0 = unspent_from_scripts V (default_utxo_amount p)
        [CheckSig (key_operator K), TimelockScript (Some (key_operator K)) (operator_challenge_timeout_timelock p)] None (network p)"
    "rs ! 1 = unspent_from_scripts V (default_utxo_amount p) [CheckSig (key_nofn K)] None (network p)"
    "rs ! 2 = unspent_from_scripts V (default_utxo_amount p) [CheckSig (key_nofn K)] None (network p)"
    "rs ! 3 = create_disprove_taproot_output V (TimelockScript (Some (key_operator K)) (disprove_timeout_timelock p)) extra path
       (default_utxo_amount p) (network p)"
    "rs ! 4 = latest_blockhash_output V p (key_nofn K) blockhash"
    by (simp_all add: rs_def kickoff_outputs_def)
  have fixed: "rs ! i = Inr (th_txouts h ! i)" if "i < 5" for i using nth [of i] that len by simp
  have o012: "taproot_out V (default_utxo_amount p)
      [CheckSig (key_operator K), TimelockScript (Some (key_operator K)) (operator_challenge_timeout_timelock p)]
      UNSPENDABLE_XONLY_PUBKEY (th_txouts h ! 0)"
    "taproot_out V (default_utxo_amount p) [CheckSig (key_nofn K)] UNSPENDABLE_XONLY_PUBKEY (th_txouts h ! 1)"
    "taproot_out V (default_utxo_amount p) [CheckSig (key_nofn K)] UNSPENDABLE_XONLY_PUBKEY (th_txouts h ! 2)"
    using scripts_out [OF laws fixed [of 0, unfolded r5]] scripts_out [OF laws fixed [of 1, unfolded r5]]
      scripts_out [OF laws fixed [of 2, unfolded r5]] by simp_all
  have o4: "timeout_out V (default_utxo_amount p) (key_nofn K) (latest_blockhash_timeout_timelock p)
      (commit_known (commits_of (key_operator K) blockhash) (key_operator K)) (th_txouts h ! 4)"
    using latest_blockhash_out [OF laws] fixed [of 4] by (simp add: r5)
  have oa: "timeout_out V (default_utxo_amount p) (key_nofn K) (assert_timeout_timelock p)
      (commit_known (commits_of (key_operator K) asserts) (key_operator K)) (th_txouts h ! (i + 5))"
    if "i < NUMBER_OF_ASSERT_TXS" for i
    using assert_output [OF laws, of i asserts] nth [of "i + 5"] that asserts len by (simp add: rs(2))
  have mono: "timeout_out V a key t (commit_known (c1 \<and> c2) pk) out"
    if "timeout_out V a key t (commit_known c1 pk) out \<or> timeout_out V a key t (commit_known c2 pk) out" for a key t c1 c2 pk out
    using that unfolding timeout_out_def by blast
  have "\<exists>a. taproot_out V a [TimelockScript (Some (key_nofn K)) (watchtower_challenge_timeout_timelock p)]
           (key_watchtowers K ! i) (th_txouts h ! (2 * i + 5 + NUMBER_OF_ASSERT_TXS))" if "i < n" for i
    using watchtower_challenge_out [OF laws] nth [of "2 * i + 5 + NUMBER_OF_ASSERT_TXS"] that len rs(3) n_def by simp
  moreover have "\<exists>hash. taproot_out V (default_utxo_amount p)
           [TimelockScript (Some (key_nofn K)) (operator_challenge_nack_timelock p),
            TimelockScript (Some (key_nofn K)) (watchtower_challenge_timeout_timelock p),
            PreimageRevealScript (key_operator K) hash] UNSPENDABLE_XONLY_PUBKEY (th_txouts h ! (2 * i + 6 + NUMBER_OF_ASSERT_TXS))"
    if "i < n" for i
    using watchtower_ack_out [OF laws] nth [of "2 * i + 6 + NUMBER_OF_ASSERT_TXS"] that len rs(4) n_def by simp
  moreover have "length (th_txouts h) = 5 + NUMBER_OF_ASSERT_TXS + 2 * n + 2" using rmap_eq_Inr_length [OF outs] len by simp
  moreover have "timeout_out V (default_utxo_amount p) (key_operator K) (disprove_timeout_timelock p) (\<lambda>_. True) (th_txouts h ! 3)"
    using disprove_output [OF laws] fixed [of 3] by (simp add: r5 timeout_out_def)
  ultimately show "kickoff_layout V p K (commits_of (key_operator K) asserts \<and> commits_of (key_operator K) blockhash) h"
    using typed o4 oa o012 unfolding kickoff_layout_def Let_def n_def [symmetric] handler_typed_def
    by (intro conjI) (auto intro: mono)
qed

section \<open>The transactions after the kickoff\<close>

lemma step_typed_timeout:
  assumes "handler_wf V h" "timeout_out V a key t P (th_txouts h ! unat (get_vout vout))"
    and "\<And>others. P others \<Longrightarrow> path_ok K i (TimelockScript (Some key) t # others) UNSPENDABLE_XONLY_PUBKEY path sq"
  shows "step_typed V K F (add_in i (get_spendable_output h vout) path sq)"
  using assms step_typed_spend [OF assms(1)] unfolding timeout_out_def by blast

lemma kickoff_fixed_steps:
  assumes layout: "kickoff_layout V p K c h"
  shows "path_ok K i [CheckSig (key_operator K), TimelockScript (Some (key_operator K)) (operator_challenge_timeout_timelock p)]
      UNSPENDABLE_XONLY_PUBKEY path sq \<Longrightarrow>
      step_typed V K F (add_in i (get_spendable_output h Vout_Challenge) path sq)"
    and "path_ok K i [CheckSig (key_nofn K)] UNSPENDABLE_XONLY_PUBKEY path sq \<Longrightarrow>
      step_typed V K F (add_in i (get_spendable_output h Vout_KickoffFinalizer) path sq)"
    and "path_ok K i [CheckSig (key_nofn K)] UNSPENDABLE_XONLY_PUBKEY path sq \<Longrightarrow>
      step_typed V K F (add_in i (get_spendable_output h Vout_ReimburseInKickoff) path sq)"
  using layout by (auto simp: kickoff_layout_def Let_def intro!: step_typed_spend [where a = "default_utxo_amount p"])

lemma kickoff_timeout_steps:
  assumes layout: "kickoff_layout V p K c h"
  shows "(\<And>others. path_ok K i (TimelockScript (Some (key_operator K)) (disprove_timeout_timelock p) # others)
      UNSPENDABLE_XONLY_PUBKEY path sq) \<Longrightarrow> step_typed V K F (add_in i (get_spendable_output h Vout_Disprove) path sq)"
    and "(\<And>others. commit_known c (key_operator K) others \<Longrightarrow>
        path_ok K i (TimelockScript (Some (key_nofn K)) (latest_blockhash_timeout_timelock p) # others)
        UNSPENDABLE_XONLY_PUBKEY path sq) \<Longrightarrow> step_typed V K F (add_in i (get_spendable_output h Vout_LatestBlockhash) path sq)"
    and "j < NUMBER_OF_ASSERT_TXS \<Longrightarrow> (\<And>others. commit_known c (key_operator K) others \<Longrightarrow>
        path_ok K i (TimelockScript (Some (key_nofn K)) (assert_timeout_timelock p) # others)
        UNSPENDABLE_XONLY_PUBKEY path sq) \<Longrightarrow> step_typed V K F (add_in i (get_spendable_output h (Vout_Assert j)) path sq)"
proof -
  note L = layout [unfolded kickoff_layout_def Let_def]
  have wf: "handler_wf V h" using L by simp
  note timeout = step_typed_timeout [OF wf]
  show "step_typed V K F (add_in i (get_spendable_output h Vout_Disprove) path sq)"
    if "\<And>others. path_ok K i (TimelockScript (Some (key_operator K)) (disprove_timeout_timelock p) # others)
      UNSPENDABLE_XONLY_PUBKEY path sq"
    by (rule timeout [where a = "default_utxo_amount p" and P = "\<lambda>_. True", OF _ that]) (use L in simp)
  show "step_typed V K F (add_in i (get_spendable_output h Vout_LatestBlockhash) path sq)"
    if "\<And>others. commit_known c (key_operator K) others \<Longrightarrow>
        path_ok K i (TimelockScript (Some (key_nofn K)) (latest_blockhash_timeout_timelock p) # others)
        UNSPENDABLE_XONLY_PUBKEY path sq"
    by (rule timeout [where a = "default_utxo_amount p" and P = "commit_known c (key_operator K)", OF _ that]) (use L in simp_all)
  show "step_typed V K F (add_in i (get_spendable_output h (Vout_Assert j)) path sq)"
    if "j < NUMBER_OF_ASSERT_TXS" "\<And>others. commit_known c (key_operator K) others \<Longrightarrow>
        path_ok K i (TimelockScript (Some (key_nofn K)) (assert_timeout_timelock p) # others)
        UNSPENDABLE_XONLY_PUBKEY path sq"
  proof (rule timeout [where a = "default_utxo_amount p" and P = "commit_known c (key_operator K)", OF _ that(2)])
    have "j < 2 ^ 30" using that(1) by (simp add: NUMBER_OF_ASSERT_TXS_def)
    then show "timeout_out V (default_utxo_amount p) (key_nofn K) (assert_timeout_timelock p) (commit_known c (key_operator K))
        (th_txouts h ! unat (get_vout (Vout_Assert j)))"
      unfolding vout_values(1) [OF \<open>j < 2 ^ 30\<close>] using L that(1) by blast
  qed
qed

lemma kickoff_watchtower_steps:
  assumes layout: "kickoff_layout V p K c h" and n: "length (key_watchtowers K) < 2 ^ 30" and j: "j < length (key_watchtowers K)"
  shows "path_ok K i [TimelockScript (Some (key_nofn K)) (watchtower_challenge_timeout_timelock p)] (key_watchtowers K ! j) path sq \<Longrightarrow>
      step_typed V K F (add_in i (get_spendable_output h (Vout_WatchtowerChallenge j)) path sq)"
    and "(\<And>hash. path_ok K i [TimelockScript (Some (key_nofn K)) (operator_challenge_nack_timelock p),
            TimelockScript (Some (key_nofn K)) (watchtower_challenge_timeout_timelock p),
            PreimageRevealScript (key_operator K) hash] UNSPENDABLE_XONLY_PUBKEY path sq) \<Longrightarrow>
      step_typed V K F (add_in i (get_spendable_output h (Vout_WatchtowerChallengeAck j)) path sq)"
proof -
  note L = layout [unfolded kickoff_layout_def Let_def]
  have wf: "handler_wf V h" using L by simp
  have j30: "j < 2 ^ 30" using j n by simp
  note v = vout_values(2,3) [OF j30]
  obtain a where a: "taproot_out V a [TimelockScript (Some (key_nofn K)) (watchtower_challenge_timeout_timelock p)]
      (key_watchtowers K ! j) (th_txouts h ! unat (get_vout (Vout_WatchtowerChallenge j)))"
    using L j unfolding v by blast
  obtain hash where b: "taproot_out V (default_utxo_amount p)
        [TimelockScript (Some (key_nofn K)) (operator_challenge_nack_timelock p),
         TimelockScript (Some (key_nofn K)) (watchtower_challenge_timeout_timelock p),
         PreimageRevealScript (key_operator K) hash] UNSPENDABLE_XONLY_PUBKEY
        (th_txouts h ! unat (get_vout (Vout_WatchtowerChallengeAck j)))"
    using L j unfolding v by blast
  show "step_typed V K F (add_in i (get_spendable_output h (Vout_WatchtowerChallenge j)) path sq)"
    if "path_ok K i [TimelockScript (Some (key_nofn K)) (watchtower_challenge_timeout_timelock p)] (key_watchtowers K ! j) path sq"
    by (rule step_typed_spend [OF wf a that])
  show "step_typed V K F (add_in i (get_spendable_output h (Vout_WatchtowerChallengeAck j)) path sq)"
    if "\<And>hash. path_ok K i [TimelockScript (Some (key_nofn K)) (operator_challenge_nack_timelock p),
            TimelockScript (Some (key_nofn K)) (watchtower_challenge_timeout_timelock p),
            PreimageRevealScript (key_operator K) hash] UNSPENDABLE_XONLY_PUBKEY path sq"
    by (rule step_typed_spend [OF wf b that])
qed

lemma collateral_step:
  assumes "collateral_at V (key_operator K) h" "get_vout vout = 0" "path_ok K i [] (key_operator K) path sq"
  shows "step_typed V K F (add_in i (get_spendable_output h vout) path sq)"
  using assms by (auto simp: collateral_at_def intro: step_typed_spend)

text \<open>The typing of each transaction needs the layouts of the transactions it spends, and no others.\<close>

lemma kickoff_children_typed:
  fixes K :: party_keys
  assumes kickoff: "kickoff_layout V p K c kickoff"
  shows "create_challenge_txhandler V p kickoff addr evm = Inr h \<Longrightarrow> handler_typed V K F h"
    and "create_challenge_timeout_txhandler V p kickoff = Inr h \<Longrightarrow> handler_typed V K F h"
    and "create_disprove_timeout_txhandler V p kickoff = Inr h \<Longrightarrow> handler_typed V K F h"
    and "create_latest_blockhash_txhandler V p kickoff = Inr h \<Longrightarrow> c \<Longrightarrow> handler_typed V K F h"
  unfolding create_challenge_txhandler_def create_challenge_timeout_txhandler_def create_disprove_timeout_txhandler_def
    create_latest_blockhash_txhandler_def
  by (erule build_typed,
      auto simp: path_ok_def operator_script_def
        intro!: kickoff_fixed_steps [OF kickoff] kickoff_timeout_steps [OF kickoff] split: option.splits)+

lemma kickoff_collateral_children_typed:
  fixes K :: party_keys
  assumes kickoff: "kickoff_layout V p K c kickoff" and collateral: "collateral_at V (key_operator K) round"
  shows "create_kickoff_not_finalized_txhandler V p kickoff round = Inr h \<Longrightarrow> handler_typed V K F h"
    and "create_latest_blockhash_timeout_txhandler V p kickoff round = Inr h \<Longrightarrow> handler_typed V K F h"
    and "create_disprove_txhandler V kickoff round = Inr h \<Longrightarrow> handler_typed V K F h"
  unfolding create_kickoff_not_finalized_txhandler_def create_latest_blockhash_timeout_txhandler_def create_disprove_txhandler_def
  by (erule build_typed,
      auto simp: path_ok_def
        intro!: kickoff_fixed_steps [OF kickoff] kickoff_timeout_steps [OF kickoff] collateral_step [OF collateral])+

lemma watchtower_children_typed:
  fixes K :: party_keys
  assumes kickoff: "kickoff_layout V p K c kickoff"
    and n: "length (key_watchtowers K) < 2 ^ 30" and j: "j < length (key_watchtowers K)"
  shows "create_watchtower_challenge_timeout_txhandler V p kickoff j = Inr h \<Longrightarrow> handler_typed V K F h"
    and "create_operator_challenge_ack_txhandler V p kickoff j = Inr h \<Longrightarrow> handler_typed V K F h"
    and "collateral_at V (key_operator K) round \<Longrightarrow> create_operator_challenge_nack_txhandler V p kickoff j round = Inr h \<Longrightarrow>
      handler_typed V K F h"
  unfolding create_watchtower_challenge_timeout_txhandler_def create_operator_challenge_nack_txhandler_def
    create_operator_challenge_ack_txhandler_def
  by (erule build_typed,
      auto simp: path_ok_def
        intro!: kickoff_fixed_steps [OF kickoff] kickoff_watchtower_steps [OF kickoff n j] intro: collateral_step)+

lemma watchtower_challenge_typed:
  fixes K :: party_keys
  assumes kickoff: "kickoff_layout V p K c kickoff" and n: "length (key_watchtowers K) < 2 ^ 30" and j: "j < length (key_watchtowers K)"
    and built: "create_watchtower_challenge_txhandler V p kickoff j commit_data = Inr h"
  shows "handler_typed V K F h"
proof -
  have "unat (of_nat j :: i32) = j" using n j by (simp add: unat_of_nat)
  then show ?thesis
    using built unfolding create_watchtower_challenge_txhandler_def
    by (auto simp: path_ok_def j split: if_splits elim!: build_typed
      intro!: kickoff_watchtower_steps [OF kickoff n j] step_typed_add_out)
qed

lemma rmap_typed:
  assumes "rmap f xs = Inr hs" "h \<in> set hs" "\<And>x h. x \<in> set xs \<Longrightarrow> f x = Inr h \<Longrightarrow> P h"
  shows "P h"
proof -
  obtain i where i: "i < length hs" "h = hs ! i" using assms(2) by (auto simp: in_set_conv_nth)
  have "i < length xs" using i(1) rmap_eq_Inr_length [OF assms(1)] by simp
  from assms(3) [OF nth_mem [OF this] rmap_eq_Inr_nth [OF assms(1) this]] show ?thesis using i(2) by simp
qed

lemma assert_timeouts_typed:
  fixes K :: party_keys
  assumes kickoff: "kickoff_layout V p K c kickoff" and round: "collateral_at V (key_operator K) round"
    and "create_assert_timeout_txhandlers V p kickoff round NUMBER_OF_ASSERT_TXS = Inr hs" "h \<in> set hs"
  shows "handler_typed V K F h"
  using assms(3) unfolding create_assert_timeout_txhandlers_def
proof (rule rmap_typed [OF _ assms(4)])
  fix j h assume j: "j \<in> set [0..<NUMBER_OF_ASSERT_TXS]"
  assume "build V (Tx_AssertTimeout j) NON_STANDARD_V3
       [add_in (numbered_sig NSig_AssertTimeout1 (of_nat j)) (get_spendable_output kickoff (Vout_Assert j))
          (ScriptSpend 0) (from_height (assert_timeout_timelock p)),
        add_in (numbered_sig NSig_AssertTimeout2 (of_nat j)) (get_spendable_output kickoff Vout_KickoffFinalizer)
          (ScriptSpend 0) DEFAULT_SEQUENCE,
        add_in (numbered_sig NSig_AssertTimeout3 (of_nat j)) (get_spendable_output round Vout_CollateralInRound)
          KeySpend DEFAULT_SEQUENCE,
        partial_out (anchor_output (anchor_amount p))] = Inr h"
  then show "handler_typed V K F h"
    by (rule build_typed) (use j in \<open>auto simp: path_ok_def intro!: kickoff_fixed_steps [OF kickoff]
      kickoff_timeout_steps [OF kickoff] collateral_step [OF round]\<close>)
qed

lemma mini_asserts_typed:
  fixes K :: party_keys
  assumes kickoff: "kickoff_layout V p K True kickoff"
    and "create_mini_asserts V p kickoff NUMBER_OF_ASSERT_TXS = Inr hs" "h \<in> set hs"
  shows "handler_typed V K F h"
  using assms(2) unfolding create_mini_asserts_def
proof (rule rmap_typed [OF _ assms(3)])
  fix j h assume j: "j \<in> set [0..<NUMBER_OF_ASSERT_TXS]"
  assume "build V (Tx_MiniAssert j) NON_STANDARD_V3
       [add_in (normal_sig Sig_MiniAssert1) (get_spendable_output kickoff (Vout_Assert j)) (ScriptSpend 1) DEFAULT_SEQUENCE,
        partial_out (anchor_output (anchor_amount p)), partial_out (op_return_txout V [])] = Inr h"
  then show "handler_typed V K F h"
    by (rule build_typed) (use j in \<open>auto simp: path_ok_def operator_script_def intro!: kickoff_timeout_steps [OF kickoff]\<close>)
qed

lemma unspent_kickoffs_typed:
  fixes K :: party_keys
  assumes round: "round_layout V p (key_operator K) round" and ready: "collateral_at V (key_operator K) ready"
    and n: "num_kickoffs_per_round p < 2 ^ 30"
    and "create_unspent_kickoff_txhandlers V p round ready = Inr hs" "h \<in> set hs"
  shows "handler_typed V K F h"
  using assms(4) unfolding create_unspent_kickoff_txhandlers_def
proof (rule rmap_typed [OF _ assms(5)])
  fix j h assume "j \<in> set [0..<num_kickoffs_per_round p]"
  then have j: "j < num_kickoffs_per_round p" by simp
  obtain pubkey where out: "taproot_out V (kickoff_amount p)
      [WinternitzCommit [(pubkey, kickoff_blockhash_commit_length p)] (key_operator K) (winternitz_log_d p),
       TimelockScript (Some (key_operator K)) 1] UNSPENDABLE_XONLY_PUBKEY (th_txouts round ! unat (get_vout (Vout_Kickoff j)))"
    and wf: "handler_wf V round"
    using round j n vout_values(4) [of j] by (auto simp: round_layout_def collateral_at_def)
  assume "build V (Tx_UnspentKickoff j) NON_STANDARD_V3
       [add_in (numbered_sig NSig_UnspentKickoff1 (of_nat j))
          (get_spendable_output ready Vout_CollateralInReadyToReimburse) KeySpend DEFAULT_SEQUENCE,
        add_in (numbered_sig NSig_UnspentKickoff2 (of_nat j)) (get_spendable_output round (Vout_Kickoff j))
          (ScriptSpend 1) (from_height 1),
        partial_out (anchor_output (anchor_amount p))] = Inr h"
  then show "handler_typed V K F h"
    by (rule build_typed) (auto simp: path_ok_def intro!: collateral_step [OF ready] step_typed_spend [OF wf out])
qed

lemma reimburse_typed:
  fixes K :: party_keys
  assumes kickoff: "kickoff_layout V p K c kickoff" and move: "move_layout V p (key_nofn K) move"
    and next_round: "round_layout V p (key_operator K) round"
    and n: "num_kickoffs_per_round p < 2 ^ 30" and j: "j < num_kickoffs_per_round p"
    and built: "create_reimburse_txhandler V p move round kickoff j addr = Inr h"
  shows "handler_typed V K F h"
proof -
  have out: "taproot_out V (default_utxo_amount p) [] (key_operator K)
      (th_txouts round ! unat (get_vout (Vout_ReimburseInRound j (num_kickoffs_per_round p))))"
    and wf: "handler_wf V round"
    using next_round j n vout_values(5) [of j "num_kickoffs_per_round p"] by (auto simp: round_layout_def collateral_at_def)
  obtain council where vault: "taproot_out V (bridge_amount p) [CheckSig (key_nofn K), council] UNSPENDABLE_XONLY_PUBKEY
      (th_txouts move ! unat (get_vout Vout_DepositInMove))" and wfm: "handler_wf V move"
    using move by (auto simp: move_layout_def)
  show ?thesis
    using built unfolding create_reimburse_txhandler_def
    by (elim build_typed) (auto simp: path_ok_def
      intro!: kickoff_fixed_steps [OF kickoff] step_typed_spend [OF wf out] step_typed_spend [OF wfm vault] step_typed_add_out)
qed

end
