(* ===== verification/Tx_Map.thy ===== *)
theory Tx_Map
  imports Protocol_Params
begin

text \<open>
  The maps from transaction types to transactions (\<open>BTreeMap<TransactionType, TxHandler>\<close> of
  \<open>src/core/src/builder/transaction/creator.rs\<close>): lists sorted by the derived order of
  \<open>TransactionType\<close> in \<open>src/crates/clementine-primitives/src/lib.rs\<close>, which is the order in which the
  streams of signature hashes visit the transactions. The locale \<open>ordered_map\<close> is what the code that
  builds and reads such maps relies on.
\<close>

section \<open>The order of the transaction types\<close>

text \<open>The derived order compares the variants in the order of their declaration, then the numbers.\<close>

fun type_rank :: "transaction_type \<Rightarrow> nat" where
  "type_rank (Tx_AssertTimeout _) = 0"
| "type_rank Tx_BurnUnusedKickoffConnectors = 1"
| "type_rank Tx_Challenge = 2"
| "type_rank Tx_ChallengeTimeout = 3"
| "type_rank Tx_Disprove = 4"
| "type_rank Tx_DisproveTimeout = 5"
| "type_rank Tx_EmergencyStop = 6"
| "type_rank Tx_Kickoff = 7"
| "type_rank Tx_KickoffNotFinalized = 8"
| "type_rank Tx_LatestBlockhash = 9"
| "type_rank Tx_LatestBlockhashTimeout = 10"
| "type_rank (Tx_MiniAssert _) = 11"
| "type_rank Tx_MoveToVault = 12"
| "type_rank (Tx_OperatorChallengeAck _) = 13"
| "type_rank (Tx_OperatorChallengeNack _) = 14"
| "type_rank Tx_OptimisticPayout = 15"
| "type_rank Tx_Payout = 16"
| "type_rank Tx_ReadyToReimburse = 17"
| "type_rank Tx_Reimburse = 18"
| "type_rank Tx_ReplacementDeposit = 19"
| "type_rank Tx_Round = 20"
| "type_rank (Tx_UnspentKickoff _) = 21"
| "type_rank (Tx_WatchtowerChallenge _) = 22"
| "type_rank (Tx_WatchtowerChallengeTimeout _) = 23"
| "type_rank Tx_AllNeededForDeposit = 24"
| "type_rank Tx_YieldKickoffTxid = 25"
| "type_rank Tx_Dummy = 26"

lemma type_rank_index_inj:
  assumes "type_rank s = type_rank t" "type_index s = type_index t"
  shows "s = t"
  using assms by (cases s; cases t) simp_all

instantiation transaction_type :: linorder
begin

definition less_eq_transaction_type :: "transaction_type \<Rightarrow> transaction_type \<Rightarrow> bool" where
  "less_eq_transaction_type s t \<longleftrightarrow>
     type_rank s < type_rank t \<or> type_rank s = type_rank t \<and> type_index s \<le> type_index t"

definition less_transaction_type :: "transaction_type \<Rightarrow> transaction_type \<Rightarrow> bool" where
  "less_transaction_type s t \<longleftrightarrow>
     type_rank s < type_rank t \<or> type_rank s = type_rank t \<and> type_index s < type_index t"

instance
  by standard (auto simp: less_eq_transaction_type_def less_transaction_type_def intro: type_rank_index_inj)

end

section \<open>Sorted maps\<close>

type_synonym ('k, 'v) btree_map = "('k \<times> 'v) list"

fun bt_insert :: "'k :: linorder \<Rightarrow> 'v \<Rightarrow> ('k, 'v) btree_map \<Rightarrow> ('k, 'v) btree_map" where
  "bt_insert k v [] = [(k, v)]"
| "bt_insert k v ((k', v') # m) =
     (if k < k' then (k, v) # (k', v') # m
      else if k = k' then (k, v) # m
      else (k', v') # bt_insert k v m)"

fun bt_remove :: "'k :: linorder \<Rightarrow> ('k, 'v) btree_map \<Rightarrow> ('k, 'v) btree_map" where
  "bt_remove k [] = []"
| "bt_remove k ((k', v') # m) = (if k = k' then m else (k', v') # bt_remove k m)"

definition bt_get :: "('k :: linorder, 'v) btree_map \<Rightarrow> 'k \<Rightarrow> 'v option" where
  "bt_get m = map_of m"

definition bt_sorted :: "('k :: linorder, 'v) btree_map \<Rightarrow> bool" where
  "bt_sorted m \<longleftrightarrow> sorted_wrt (<) (map fst m)"

lemma bt_insert_keys: "fst ` set (bt_insert k v m) = insert k (fst ` set m)"
  by (induction k v m rule: bt_insert.induct) (simp_all add: insert_commute)

lemma bt_insert_sorted: "bt_sorted m \<Longrightarrow> bt_sorted (bt_insert k v m)"
proof (induction m)
  case (Cons e m)
  obtain k' v' where e: "e = (k', v')" by (cases e)
  have "\<forall>x \<in> fst ` set (bt_insert k v m). k' < x" if "k' < k" "\<forall>x \<in> fst ` set m. k' < x"
    using that by (simp add: bt_insert_keys)
  with Cons show ?case by (auto simp: bt_sorted_def e)
qed (simp add: bt_sorted_def)

lemma bt_remove_set: "set (bt_remove k m) \<subseteq> set m"
  by (induction m) (auto split: if_splits)

lemma bt_remove_sorted: "bt_sorted m \<Longrightarrow> bt_sorted (bt_remove k m)"
proof (induction m)
  case (Cons e m)
  then show ?case using bt_remove_set [of k m] by (cases e) (fastforce simp: bt_sorted_def)
qed simp

lemma bt_get_insert: "bt_sorted m \<Longrightarrow> bt_get (bt_insert k v m) = (bt_get m)(k \<mapsto> v)"
proof (induction m)
  case (Cons e m)
  then show ?case by (cases e) (auto simp: bt_get_def bt_sorted_def fun_eq_iff)
qed (simp add: bt_get_def)

lemma bt_get_remove: "bt_sorted m \<Longrightarrow> bt_get (bt_remove k m) = (bt_get m)(k := None)"
proof (induction m)
  case (Cons e m)
  obtain k' v' where e: "e = (k', v')" by (cases e)
  have "map_of m k' = None" using Cons.prems by (auto simp: bt_sorted_def e map_of_eq_None_iff)
  with Cons show ?case by (auto simp: bt_get_def bt_sorted_def fun_eq_iff e)
qed (simp add: bt_get_def)

lemma bt_sorted_distinct: "bt_sorted m \<Longrightarrow> distinct (map fst m)"
  unfolding bt_sorted_def by (simp add: strict_sorted_iff)

lemma bt_get_Some: "bt_sorted m \<Longrightarrow> bt_get m k = Some v \<longleftrightarrow> (k, v) \<in> set m"
  by (simp add: bt_get_def bt_sorted_distinct)

text \<open>A sorted map is determined by its entries.\<close>

lemma bt_ext:
  assumes "bt_sorted m" "bt_sorted m'" "bt_get m = bt_get m'"
  shows "m = m'"
proof -
  have eq: "set m = set m'" using assms by (auto simp: bt_get_Some [OF assms(1), symmetric] bt_get_Some [OF assms(2), symmetric])
  have "inj_on fst (set m)" using bt_sorted_distinct [OF assms(1)] by (simp add: distinct_map)
  moreover have "sorted (map fst xs)" if "bt_sorted xs" for xs :: "('a, 'b) btree_map"
    using that by (simp add: bt_sorted_def strict_sorted_iff)
  ultimately show ?thesis
    using assms eq bt_sorted_distinct by (intro map_sorted_distinct_set_unique [where f = fst]) auto
qed

section \<open>The interface of the maps\<close>

text \<open>
  What the clients of the maps rely on: looking up a key after an insertion or a removal, and the
  invariant. \<open>upd_all\<close> is the loop \<open>for (k, v) in ... { map.insert(k, v) }\<close>.
\<close>

locale ordered_map =
  fixes empty_map :: "'m"
    and upd :: "'k \<Rightarrow> 'v \<Rightarrow> 'm \<Rightarrow> 'm"
    and del :: "'k \<Rightarrow> 'm \<Rightarrow> 'm"
    and lookup :: "'m \<Rightarrow> 'k \<Rightarrow> 'v option"
    and invar :: "'m \<Rightarrow> bool"
  assumes lookup_empty: "lookup empty_map k = None"
    and lookup_upd: "invar m \<Longrightarrow> lookup (upd k v m) = (lookup m)(k \<mapsto> v)"
    and lookup_del: "invar m \<Longrightarrow> lookup (del k m) = (lookup m)(k := None)"
    and invar_empty: "invar empty_map"
    and invar_upd: "invar m \<Longrightarrow> invar (upd k v m)"
    and invar_del: "invar m \<Longrightarrow> invar (del k m)"
begin

lemma invar_upd_all: "invar m \<Longrightarrow> invar (fold (\<lambda>x. upd (key x) x) xs m)"
  by (induction xs arbitrary: m) (simp_all add: invar_upd)

lemma lookup_upd_all_other:
  "invar m \<Longrightarrow> k \<notin> key ` set xs \<Longrightarrow> lookup (fold (\<lambda>x. upd (key x) x) xs m) k = lookup m k"
  by (induction xs arbitrary: m) (simp_all add: invar_upd lookup_upd)

lemma lookup_upd_all_mem:
  assumes "invar m" "distinct (map key xs)" "x \<in> set xs"
  shows "lookup (fold (\<lambda>x. upd (key x) x) xs m) (key x) = Some x"
  using assms
proof (induction xs arbitrary: m)
  case (Cons y xs)
  show ?case
  proof (cases "x = y")
    case True
    with Cons.prems show ?thesis by (simp add: lookup_upd_all_other invar_upd lookup_upd)
  next
    case False
    with Cons show ?thesis by (simp add: invar_upd)
  qed
qed simp

lemma lookup_upd_all_origin:
  assumes "invar m" "lookup (fold (\<lambda>x. upd (key x) x) xs m) k = Some v"
  shows "lookup m k = Some v \<or> v \<in> set xs \<and> k = key v"
  using assms
proof (induction xs arbitrary: m)
  case (Cons y xs)
  have "lookup (upd (key y) y m) k = Some v \<or> v \<in> set xs \<and> k = key v"
    using Cons.prems by (intro Cons.IH) (simp_all add: invar_upd)
  then show ?case using Cons.prems(1) by (auto simp: lookup_upd split: if_splits)
qed simp

end

interpretation bt: ordered_map "[]" bt_insert bt_remove bt_get bt_sorted
  by unfold_locales
    (simp_all add: bt_get_insert bt_get_remove bt_insert_sorted bt_remove_sorted, simp_all add: bt_get_def bt_sorted_def)

end
