(* ===== verification/Tx_Creator.thy ===== *)
theory Tx_Creator
  imports Bridge_Circuit Disprove_Scripts Tx_Layout Tx_Map
begin

text \<open>
  The creation of all transactions of an operator, a round and a deposit
  (\<open>src/core/src/builder/transaction/creator.rs\<close>): the cached reads of the database
  (\<open>ReimburseDbCache\<close>), the context of a request (\<open>ContractContext\<close>), the transactions kept from one
  kickoff to the next (\<open>TxHandlerCache\<close>), \<open>create_round_txhandlers\<close> and \<open>create_txhandlers\<close>. The tables
  of the database, the scripts of the \<open>bitvm\<close> crate and the address of a signer are the parameters
  \<open>database\<close> and \<open>creator_api\<close>. A method with \<open>&mut self\<close> returns the new state with its value; after an
  error the caches are dropped by the callers and have no value here.
\<close>

section \<open>Parameters\<close>

text \<open>The bridge circuit constants of the networks; on a test network they depend on the development mode.\<close>

definition REGTEST_TEST_BRIDGE_CIRCUIT_CONSTANT :: bytes where
  "REGTEST_TEST_BRIDGE_CIRCUIT_CONSTANT =
     [114, 212, 219, 106, 251, 50, 248, 9, 2, 194, 84, 239, 229, 92, 195, 40, 218, 21, 55, 242, 230,
      201, 145, 209, 251, 25, 77, 124, 129, 131, 194, 20]"

definition REGTEST_BRIDGE_CIRCUIT_CONSTANT :: bytes where
  "REGTEST_BRIDGE_CIRCUIT_CONSTANT =
     [233, 84, 200, 234, 120, 196, 185, 119, 174, 126, 140, 238, 189, 210, 149, 97, 161, 4, 229, 219,
      47, 124, 117, 197, 89, 165, 120, 138, 221, 74, 157, 71]"

definition SIGNET_BRIDGE_CIRCUIT_CONSTANT :: bytes where
  "SIGNET_BRIDGE_CIRCUIT_CONSTANT =
     [73, 219, 48, 6, 223, 104, 179, 207, 180, 104, 112, 231, 210, 2, 0, 47, 87, 166, 183, 168, 211,
      250, 76, 145, 200, 214, 169, 135, 151, 47, 202, 184]"

definition SIGNET_TEST_BRIDGE_CIRCUIT_CONSTANT :: bytes where
  "SIGNET_TEST_BRIDGE_CIRCUIT_CONSTANT =
     [234, 217, 1, 13, 50, 162, 237, 187, 139, 172, 117, 214, 39, 142, 252, 26, 47, 173, 67, 109, 98,
      47, 59, 121, 185, 133, 184, 164, 241, 44, 113, 58]"

definition MAINNET_BRIDGE_CIRCUIT_CONSTANT :: bytes where
  "MAINNET_BRIDGE_CIRCUIT_CONSTANT =
     [129, 78, 18, 124, 221, 80, 148, 108, 252, 53, 139, 39, 96, 60, 162, 140, 241, 131, 111, 46, 52,
      145, 169, 103, 131, 115, 17, 113, 68, 193, 151, 45]"

definition TESTNET4_BRIDGE_CIRCUIT_CONSTANT :: bytes where
  "TESTNET4_BRIDGE_CIRCUIT_CONSTANT =
     [123, 6, 8, 84, 79, 122, 249, 123, 48, 241, 129, 10, 215, 65, 243, 68, 174, 66, 239, 146, 1, 75,
      168, 108, 46, 59, 223, 127, 125, 127, 97, 90]"

definition TESTNET4_TEST_BRIDGE_CIRCUIT_CONSTANT :: bytes where
  "TESTNET4_TEST_BRIDGE_CIRCUIT_CONSTANT =
     [83, 191, 166, 41, 241, 95, 11, 84, 148, 1, 21, 128, 190, 167, 207, 165, 143, 209, 232, 169,
      211, 120, 188, 115, 219, 48, 108, 224, 129, 254, 54, 214]"

definition bridge_circuit_constant :: "bool \<Rightarrow> protocol_paramset \<Rightarrow> bytes result" where
  "bridge_circuit_constant is_dev_mode p =
     (case network p of
        Net_Regtest \<Rightarrow> Inr (if is_dev_mode then REGTEST_TEST_BRIDGE_CIRCUIT_CONSTANT else REGTEST_BRIDGE_CIRCUIT_CONSTANT)
      | Net_Bitcoin \<Rightarrow> Inr MAINNET_BRIDGE_CIRCUIT_CONSTANT
      | Net_Testnet4 \<Rightarrow> Inr (if is_dev_mode then TESTNET4_TEST_BRIDGE_CIRCUIT_CONSTANT else TESTNET4_BRIDGE_CIRCUIT_CONSTANT)
      | Net_Signet \<Rightarrow> Inr (if is_dev_mode then SIGNET_TEST_BRIDGE_CIRCUIT_CONSTANT else SIGNET_BRIDGE_CIRCUIT_CONSTANT)
      | _ \<Rightarrow> Inl (Err ''UnsupportedNetwork''))"

record database =
  db_get_operator :: "bytes \<Rightarrow> operator_data option result"
  db_get_operator_kickoff_winternitz_public_keys :: "bytes \<Rightarrow> winternitz_pk list result"
  db_get_bitvm_setup :: "bytes \<Rightarrow> out_point \<Rightarrow> (bytes list \<times> bytes \<times> bytes) option result"
  db_get_operators_challenge_ack_hashes :: "bytes \<Rightarrow> out_point \<Rightarrow> bytes list option result"
  db_get_operator_bitvm_keys :: "bytes \<Rightarrow> out_point \<Rightarrow> bytes list list result"

record creator_api =
  env :: bitcoin_env
  sizes :: chunk_sizes
  script_cache :: bitvm_cache
  is_dev_mode :: bool
  debug_assertions :: bool
  additional_disprove_script_with_dummy :: "bytes \<Rightarrow> winternitz_pk \<Rightarrow> winternitz_pk \<Rightarrow> winternitz_pk \<Rightarrow> bytes list \<Rightarrow> bytes"
  replace_placeholders_in_script :: "bytes \<Rightarrow> winternitz_pk \<Rightarrow> bytes \<Rightarrow> bytes"
  get_evm_address :: "bytes \<Rightarrow> bytes result"

definition get_g16_verifier_disprove_scripts :: "creator_api \<Rightarrow> bitvm_public_keys \<Rightarrow> bytes list result" where
  "get_g16_verifier_disprove_scripts A pks =
     (if debug_assertions A then Inr [[0x51]] else replace_disprove_scripts (script_cache A) pks)"

section \<open>Cached reads of the database\<close>

record reimburse_db_cache =
  rc_db :: database
  rc_operator_xonly_pk :: bytes
  rc_deposit_outpoint :: "out_point option"
  rc_paramset :: protocol_paramset
  rc_kickoff_winternitz_keys :: "kickoff_winternitz_keys option"
  rc_bitvm_assert_addr :: "bytes list option"
  rc_bitvm_disprove_root_hash :: "bytes option"
  rc_challenge_ack_hashes :: "bytes list option"
  rc_operator_data :: "operator_data option"
  rc_latest_blockhash_root_hash :: "bytes option"
  rc_additional_disprove_script :: "bytes option"
  rc_operator_bitvm_keys :: "bitvm_public_keys option"

definition new_cache :: "database \<Rightarrow> bytes \<Rightarrow> out_point option \<Rightarrow> protocol_paramset \<Rightarrow> reimburse_db_cache" where
  "new_cache db operator_pk op p =
     \<lparr>rc_db = db, rc_operator_xonly_pk = operator_pk, rc_deposit_outpoint = op, rc_paramset = p,
      rc_kickoff_winternitz_keys = None, rc_bitvm_assert_addr = None, rc_bitvm_disprove_root_hash = None,
      rc_challenge_ack_hashes = None, rc_operator_data = None, rc_latest_blockhash_root_hash = None,
      rc_additional_disprove_script = None, rc_operator_bitvm_keys = None\<rparr>"

definition new_for_deposit :: "database \<Rightarrow> bytes \<Rightarrow> out_point \<Rightarrow> protocol_paramset \<Rightarrow> reimburse_db_cache" where
  "new_for_deposit db operator_pk op p = new_cache db operator_pk (Some op) p"

definition new_for_rounds :: "database \<Rightarrow> bytes \<Rightarrow> protocol_paramset \<Rightarrow> reimburse_db_cache" where
  "new_for_rounds db operator_pk p = new_cache db operator_pk None p"

type_synonym 'a cached = "reimburse_db_cache \<Rightarrow> ('a \<times> reimburse_db_cache) result"

definition get_operator_data :: "operator_data cached" where
  "get_operator_data c =
     (case rc_operator_data c of
        Some data \<Rightarrow> Inr (data, c)
      | None \<Rightarrow>
          rbind (db_get_operator (rc_db c) (rc_operator_xonly_pk c)) (\<lambda>found.
          rbind (expect found (Err ''Operator not found'')) (\<lambda>data.
          Inr (data, c\<lparr>rc_operator_data := Some data\<rparr>))))"

definition get_bitvm_setup :: "out_point \<Rightarrow> reimburse_db_cache \<Rightarrow> reimburse_db_cache result" where
  "get_bitvm_setup op c =
     rbind (db_get_bitvm_setup (rc_db c) (rc_operator_xonly_pk c) op) (\<lambda>found.
     rbind (expect found (Err ''BitvmSetupNotFound'')) (\<lambda>(assert_addr, bitvm_hash, latest_blockhash_root_hash).
     Inr (c\<lparr>rc_bitvm_assert_addr := Some assert_addr, rc_bitvm_disprove_root_hash := Some bitvm_hash,
            rc_latest_blockhash_root_hash := Some latest_blockhash_root_hash\<rparr>)))"

definition get_kickoff_winternitz_keys :: "kickoff_winternitz_keys cached" where
  "get_kickoff_winternitz_keys c =
     (case rc_kickoff_winternitz_keys c of
        Some keys \<Rightarrow> Inr (keys, c)
      | None \<Rightarrow>
          rbind (db_get_operator_kickoff_winternitz_public_keys (rc_db c) (rc_operator_xonly_pk c)) (\<lambda>pks.
          rbind (kickoff_winternitz_keys_new pks (num_kickoffs_per_round (rc_paramset c)) (num_round_txs (rc_paramset c))) (\<lambda>keys.
          Inr (keys, c\<lparr>rc_kickoff_winternitz_keys := Some keys\<rparr>))))"

text \<open>
  The fields of a bitvm setup are read together: the getters of the three fields share \<open>of_setup\<close>.
  \<open>expect(''Inserted before'')\<close> is a panic that the call before it excludes.
\<close>

definition of_setup :: "(reimburse_db_cache \<Rightarrow> 'a option) \<Rightarrow> 'a cached" where
  "of_setup field c =
     (case rc_deposit_outpoint c of
        Some op \<Rightarrow>
          (case field c of
             Some x \<Rightarrow> Inr (x, c)
           | None \<Rightarrow>
               rbind (get_bitvm_setup op c) (\<lambda>c'.
               rbind (expect (field c') (Panic ''Inserted before'')) (\<lambda>x. Inr (x, c'))))
      | None \<Rightarrow> Inl (Err ''InsufficientContext''))"

definition get_bitvm_assert_hash :: "bytes list cached" where
  "get_bitvm_assert_hash = of_setup rc_bitvm_assert_addr"

definition get_bitvm_disprove_root_hash :: "bytes cached" where
  "get_bitvm_disprove_root_hash = of_setup rc_bitvm_disprove_root_hash"

definition get_latest_blockhash_root_hash :: "bytes cached" where
  "get_latest_blockhash_root_hash = of_setup rc_latest_blockhash_root_hash"

definition get_operator_bitvm_keys :: "creator_api \<Rightarrow> bitvm_public_keys cached" where
  "get_operator_bitvm_keys A c =
     (case rc_deposit_outpoint c of
        Some op \<Rightarrow>
          (case rc_operator_bitvm_keys c of
             Some keys \<Rightarrow> Inr (keys, c)
           | None \<Rightarrow>
               rbind (db_get_operator_bitvm_keys (rc_db c) (rc_operator_xonly_pk c) op) (\<lambda>flattened.
               rbind (from_flattened_vec (sizes A) flattened) (\<lambda>keys.
               Inr (keys, c\<lparr>rc_operator_bitvm_keys := Some keys\<rparr>))))
      | None \<Rightarrow> Inl (Err ''InsufficientContext''))"

definition get_challenge_ack_hashes :: "bytes list cached" where
  "get_challenge_ack_hashes c =
     (case rc_deposit_outpoint c of
        Some op \<Rightarrow>
          (case rc_challenge_ack_hashes c of
             Some hashes \<Rightarrow> Inr (hashes, c)
           | None \<Rightarrow>
               rbind (db_get_operators_challenge_ack_hashes (rc_db c) (rc_operator_xonly_pk c) op) (\<lambda>found.
               rbind (expect found (Err ''Watchtower public hashes not found'')) (\<lambda>hashes.
               Inr (hashes, c\<lparr>rc_challenge_ack_hashes := Some hashes\<rparr>))))
      | None \<Rightarrow> Inl (Err ''InsufficientContext''))"

definition get_replaceable_additional_disprove_script :: "creator_api \<Rightarrow> bytes cached" where
  "get_replaceable_additional_disprove_script A c =
     (case rc_additional_disprove_script c of
        Some script \<Rightarrow> Inr (script, c)
      | None \<Rightarrow>
          rbind (bridge_circuit_constant (is_dev_mode A) (rc_paramset c)) (\<lambda>circuit_constant.
          rbind (get_challenge_ack_hashes c) (\<lambda>(hashes, c1).
          rbind (get_operator_bitvm_keys A c1) (\<lambda>(keys, c2).
          rbind (nth_checked (bitvm_pks_0 keys) 0) (\<lambda>pk0.
          let script = additional_disprove_script_with_dummy A circuit_constant pk0 (latest_blockhash_pk keys)
                (challenge_sending_watchtowers_pk keys) hashes
          in Inr (script, c2\<lparr>rc_additional_disprove_script := Some script\<rparr>))))))"

section \<open>Contexts\<close>

record contract_context =
  cc_operator_xonly_pk :: bytes
  cc_round_idx :: round_index
  cc_paramset :: protocol_paramset
  cc_kickoff_idx :: "u32 option"
  cc_deposit_data :: "deposit_data option"
  cc_signer :: "bytes option"

definition new_context_for_round :: "bytes \<Rightarrow> round_index \<Rightarrow> protocol_paramset \<Rightarrow> contract_context" where
  "new_context_for_round operator_pk round_idx p =
     \<lparr>cc_operator_xonly_pk = operator_pk, cc_round_idx = round_idx, cc_paramset = p,
      cc_kickoff_idx = None, cc_deposit_data = None, cc_signer = None\<rparr>"

definition new_context_for_kickoff :: "kickoff_data \<Rightarrow> deposit_data \<Rightarrow> protocol_paramset \<Rightarrow> contract_context" where
  "new_context_for_kickoff kd d p =
     \<lparr>cc_operator_xonly_pk = operator_xonly_pk kd, cc_round_idx = kd_round_idx kd, cc_paramset = p,
      cc_kickoff_idx = Some (kickoff_idx kd), cc_deposit_data = Some d, cc_signer = None\<rparr>"

definition new_context_with_signer :: "kickoff_data \<Rightarrow> deposit_data \<Rightarrow> protocol_paramset \<Rightarrow> bytes \<Rightarrow> contract_context" where
  "new_context_with_signer kd d p signer =
     \<lparr>cc_operator_xonly_pk = operator_xonly_pk kd, cc_round_idx = kd_round_idx kd, cc_paramset = p,
      cc_kickoff_idx = Some (kickoff_idx kd), cc_deposit_data = Some d, cc_signer = Some signer\<rparr>"

definition is_context_for_kickoff :: "contract_context \<Rightarrow> bool" where
  "is_context_for_kickoff ctx \<longleftrightarrow> cc_deposit_data ctx \<noteq> None \<and> cc_kickoff_idx ctx \<noteq> None"

definition from_context :: "database \<Rightarrow> contract_context \<Rightarrow> reimburse_db_cache" where
  "from_context db ctx =
     (case cc_deposit_data ctx of
        Some d \<Rightarrow> new_for_deposit db (cc_operator_xonly_pk ctx) (deposit_outpoint (deposit d)) (cc_paramset ctx)
      | None \<Rightarrow> new_for_rounds db (cc_operator_xonly_pk ctx) (cc_paramset ctx))"

section \<open>Cached transactions\<close>

type_synonym tx_map = "(transaction_type, tx_handler) btree_map"

abbreviation insert_tx :: "tx_handler \<Rightarrow> tx_map \<Rightarrow> tx_map" where
  "insert_tx h \<equiv> bt_insert (th_type h) h"

abbreviation insert_txs :: "tx_handler list \<Rightarrow> tx_map \<Rightarrow> tx_map" where
  "insert_txs hs \<equiv> fold (\<lambda>h. bt_insert (th_type h) h) hs"

definition get_txhandler :: "tx_map \<Rightarrow> transaction_type \<Rightarrow> tx_handler result" where
  "get_txhandler m ty = expect (bt_get m ty) (Err ''TxHandlerNotFound'')"

definition remove_txhandler_from_map :: "tx_map \<Rightarrow> transaction_type \<Rightarrow> (tx_handler \<times> tx_map) result" where
  "remove_txhandler_from_map m ty = rbind (get_txhandler m ty) (\<lambda>h. Inr (h, bt_remove ty m))"

record tx_handler_cache =
  prev_ready_to_reimburse :: "tx_handler option"
  saved_txs :: tx_map

definition tx_handler_cache_new :: tx_handler_cache where
  "tx_handler_cache_new = \<lparr>prev_ready_to_reimburse = None, saved_txs = []\<rparr>"

definition store_for_next_kickoff :: "tx_handler_cache \<Rightarrow> tx_map \<Rightarrow> (tx_handler_cache \<times> tx_map) result" where
  "store_for_next_kickoff cache txhandlers =
     rfold (\<lambda>ty (cache, m).
       rbind (remove_txhandler_from_map m ty) (\<lambda>(h, m').
       Inr (cache\<lparr>saved_txs := bt_insert ty h (saved_txs cache)\<rparr>, m')))
       [Tx_MoveToVault, Tx_Round, Tx_ReadyToReimburse] (cache, txhandlers)"

definition store_for_next_round :: "tx_handler_cache \<Rightarrow> tx_handler_cache result" where
  "store_for_next_round cache =
     rbind (remove_txhandler_from_map (saved_txs cache) Tx_MoveToVault) (\<lambda>(move_to_vault, m1).
     rbind (remove_txhandler_from_map m1 Tx_ReadyToReimburse) (\<lambda>(ready, _).
     Inr \<lparr>prev_ready_to_reimburse = Some ready, saved_txs = insert_tx move_to_vault []\<rparr>))"

definition get_cached_txs :: "tx_handler_cache \<Rightarrow> tx_map \<times> tx_handler_cache" where
  "get_cached_txs cache = (saved_txs cache, cache\<lparr>saved_txs := []\<rparr>)"

section \<open>Creation\<close>

definition create_round_txhandlers ::
  "bitcoin_env \<Rightarrow> protocol_paramset \<Rightarrow> round_index \<Rightarrow> operator_data \<Rightarrow> kickoff_winternitz_keys \<Rightarrow> tx_handler option
   \<Rightarrow> tx_handler list result" where
  "create_round_txhandlers V p round_idx od keys prev_ready =
     rbind (case prev_ready of
              Some prev \<Rightarrow>
                (if round_idx = Collateral \<or> round_idx = Round 0
                 then Inl (Err ''Round 0 cannot be created from prev_ready_to_reimburse'')
                 else
                   rbind (get_spendable_output prev Vout_CollateralInReadyToReimburse) (\<lambda>txin.
                   rbind (get_keys_for_round keys round_idx) (\<lambda>round_keys.
                   rbind (create_round_txhandler V p (od_xonly_pk od) (RoundPrevout txin) round_keys) (\<lambda>round.
                   rbind (create_ready_to_reimburse_txhandler V p round (od_xonly_pk od)) (\<lambda>ready.
                   Inr (round, ready))))))
            | None \<Rightarrow>
                create_round_nth_txhandler V p (od_xonly_pk od) (collateral_funding_outpoint od) (collateral_funding_amount p)
                  round_idx keys) (\<lambda>(round, ready).
     rbind (create_unspent_kickoff_txhandlers V p round ready) (\<lambda>unspent_kickoffs.
     Inr (round # ready # unspent_kickoffs)))"

text \<open>
  The parts of \<open>create_txhandlers\<close> in their order: the transactions of the round
  (\<open>collateral_txhandlers\<close>), the tweaked keys of the watchtowers and the deposit constant, the disprove
  scripts, the kickoff with what depends on its scripts, and the remaining transactions, each inserted
  into the map as soon as it is made (\<open>ins\<close>, \<open>ins_all\<close>).
\<close>

definition collateral_txhandlers ::
  "bitcoin_env \<Rightarrow> protocol_paramset \<Rightarrow> round_index \<Rightarrow> operator_data \<Rightarrow> kickoff_winternitz_keys \<Rightarrow> tx_handler_cache
   \<Rightarrow> (tx_map \<times> tx_handler_cache) result" where
  "collateral_txhandlers V p round_idx od keys cache =
     (let (txhandlers, cache') = get_cached_txs cache
      in if bt_get txhandlers Tx_Round = None
         then rbind (create_round_txhandlers V p round_idx od keys (prev_ready_to_reimburse cache')) (\<lambda>hs.
              Inr (insert_txs hs txhandlers, cache'))
         else Inr (txhandlers, cache'))"

definition watchtower_output_key :: "bitcoin_env \<Rightarrow> protocol_paramset \<Rightarrow> bytes \<Rightarrow> bytes \<Rightarrow> bytes result" where
  "watchtower_output_key V p nofn watchtower_pk =
     rbind (to_script_buf V (TimelockScript (Some nofn) (watchtower_challenge_timeout_timelock p))) (\<lambda>script.
     rbind (expect (add_leaf (taproot V) 0 script []) (Panic ''Valid script leaf'')) (\<lambda>b.
     rbind (expect (tb_finalize (taproot V) watchtower_pk b) (Panic ''taproot finalize must succeed'')) (\<lambda>info.
     Inr (output_key (taproot V) info))))"

definition kickoff_deposit_constant ::
  "bitcoin_env \<Rightarrow> protocol_paramset \<Rightarrow> deposit_data \<Rightarrow> kickoff_data \<Rightarrow> tx_map \<Rightarrow> bytes \<Rightarrow> (bytes \<times> deposit_data) result" where
  "kickoff_deposit_constant V p d kd txhandlers genesis =
     rbind (get_txhandler txhandlers Tx_MoveToVault) (\<lambda>move.
     rbind (get_txhandler txhandlers Tx_Round) (\<lambda>round.
     rbind (get_nofn_xonly_pk V d) (\<lambda>(nofn, d').
     rbind (rmap (watchtower_output_key V p nofn) (get_watchtowers V d')) (\<lambda>watchtower_pubkeys.
     Inr (deposit_constant (sha256 V) (operator_xonly_pk kd) (get_vout (Vout_WatchtowerChallenge 0)) watchtower_pubkeys
            (cached_txid move) (cached_txid round) (get_vout (Vout_Kickoff (unat (kickoff_idx kd)))) genesis, d')))))"

type_synonym create_step = "tx_map \<Rightarrow> tx_map result"

definition ins :: "(tx_map \<Rightarrow> tx_handler result) \<Rightarrow> create_step" where
  "ins mk m = rbind (mk m) (\<lambda>h. Inr (insert_tx h m))"

definition ins_all :: "(tx_map \<Rightarrow> tx_handler list result) \<Rightarrow> create_step" where
  "ins_all mk m = rbind (mk m) (\<lambda>hs. Inr (insert_txs hs m))"

definition with_tx :: "transaction_type \<Rightarrow> (tx_handler \<Rightarrow> 'a result) \<Rightarrow> tx_map \<Rightarrow> 'a result" where
  "with_tx ty f m = rbind (get_txhandler m ty) f"

definition with_txs :: "transaction_type \<Rightarrow> transaction_type \<Rightarrow> (tx_handler \<Rightarrow> tx_handler \<Rightarrow> 'a result) \<Rightarrow> tx_map \<Rightarrow> 'a result" where
  "with_txs ty1 ty2 f m = rbind (get_txhandler m ty1) (\<lambda>h1. rbind (get_txhandler m ty2) (f h1))"

definition watchtower_steps :: "bitcoin_env \<Rightarrow> protocol_paramset \<Rightarrow> nat \<Rightarrow> create_step list" where
  "watchtower_steps V p wt_idx =
     [ins (with_tx Tx_Kickoff (\<lambda>k. create_watchtower_challenge_timeout_txhandler V p k wt_idx)),
      ins (with_txs Tx_Kickoff Tx_Round (\<lambda>k r. create_operator_challenge_nack_txhandler V p k wt_idx r)),
      ins (with_tx Tx_Kickoff (\<lambda>k. create_operator_challenge_ack_txhandler V p k wt_idx))]"

definition remaining_steps ::
  "bitcoin_env \<Rightarrow> protocol_paramset \<Rightarrow> transaction_type \<Rightarrow> operator_data \<Rightarrow> bytes option \<Rightarrow> tx_handler \<Rightarrow> nat \<Rightarrow> nat \<Rightarrow> create_step list" where
  "remaining_steps V p ty od evm next_round_tx num_watchtowers kickoff_index =
     [ins (with_tx Tx_Kickoff (\<lambda>k. create_challenge_txhandler V p k (reimburse_addr od) evm)),
      ins (with_tx Tx_Kickoff (create_challenge_timeout_txhandler V p)),
      ins (with_txs Tx_Kickoff Tx_ReadyToReimburse (create_kickoff_not_finalized_txhandler V p)),
      ins (with_txs Tx_Kickoff Tx_Round (create_latest_blockhash_timeout_txhandler V p))]
     @ concat (map (watchtower_steps V p) [0..<num_watchtowers])
     @ [\<lambda>m. case ty of
              Tx_WatchtowerChallenge _ \<Rightarrow>
                Inl (Err ''Can't directly create a watchtower challenge in create_txhandlers as it needs commit data'')
            | _ \<Rightarrow> Inr m,
        ins_all (with_txs Tx_Kickoff Tx_Round (\<lambda>k r. create_assert_timeout_txhandlers V p k r number_of_assert_txs)),
        ins (with_tx Tx_Kickoff (create_disprove_timeout_txhandler V p)),
        ins (with_txs Tx_MoveToVault Tx_Kickoff (\<lambda>move k.
          create_reimburse_txhandler V p move next_round_tx k kickoff_index (reimburse_addr od)))]
     @ (if ty = Tx_AllNeededForDeposit \<or> ty = Tx_Disprove
        then [ins (with_txs Tx_Kickoff Tx_Round (create_disprove_txhandler V))] else [])"

text \<open>
  The kickoff transaction: with the scripts of the operator when a mini assert or the latest block hash
  is requested, and then with those transactions; otherwise with the stored hashes.
\<close>

definition kickoff_with_scripts ::
  "creator_api \<Rightarrow> protocol_paramset \<Rightarrow> contract_context \<Rightarrow> operator_data \<Rightarrow> kickoff_data \<Rightarrow> deposit_data \<Rightarrow> disprove_path \<Rightarrow> bytes
   \<Rightarrow> bytes list \<Rightarrow> tx_map \<Rightarrow> (tx_handler \<times> deposit_data \<times> tx_map) result" where
  "kickoff_with_scripts A p ctx od kd d path additional hashes m =
     rbind (expect (cc_signer ctx) (Err ''InsufficientContext'')) (\<lambda>secret_key.
     rbind (generate_bitvm_pks_for_deposit (sizes A) (wots (env A)) secret_key (deposit_outpoint (deposit d)) p) (\<lambda>bitvm_pks.
     let asserts = get_assert_scripts (sizes A) bitvm_pks (od_xonly_pk od);
         blockhash_script = WinternitzCommit [(latest_blockhash_pk bitvm_pks, 40)] (od_xonly_pk od) (winternitz_log_d (cc_paramset ctx))
     in rbind (get_txhandler m Tx_Round) (\<lambda>round.
        rbind (get_txhandler m Tx_MoveToVault) (\<lambda>move.
        rbind (create_kickoff_txhandler (env A) p kd round move d (od_xonly_pk od) (AssertSpendableScript asserts) path additional
                 (AssertSpendableScript [blockhash_script]) hashes) (\<lambda>(kickoff, d').
        rbind (create_mini_asserts (env A) p kickoff number_of_assert_txs) (\<lambda>mini_asserts.
        rbind (create_latest_blockhash_txhandler (env A) p kickoff) (\<lambda>latest_blockhash.
        Inr (kickoff, d', insert_tx latest_blockhash (insert_txs mini_asserts m)))))))))"

definition kickoff_with_hashes ::
  "creator_api \<Rightarrow> protocol_paramset \<Rightarrow> operator_data \<Rightarrow> kickoff_data \<Rightarrow> deposit_data \<Rightarrow> disprove_path \<Rightarrow> bytes
   \<Rightarrow> bytes list \<Rightarrow> bytes \<Rightarrow> tx_map \<Rightarrow> (tx_handler \<times> deposit_data) cached" where
  "kickoff_with_hashes A p od kd d path additional hashes latest_blockhash_root_hash m c =
     rbind (get_txhandler m Tx_Round) (\<lambda>round.
     rbind (get_txhandler m Tx_MoveToVault) (\<lambda>move.
     rbind (get_bitvm_assert_hash c) (\<lambda>(assert_hashes, c').
     rbind (create_kickoff_txhandler (env A) p kd round move d (od_xonly_pk od) (AssertScriptTapNodeHash assert_hashes) path
              additional (AssertScriptTapNodeHash [latest_blockhash_root_hash]) hashes) (\<lambda>result.
     Inr (result, c')))))"

fun needs_scripts :: "transaction_type \<Rightarrow> bool" where
  "needs_scripts Tx_LatestBlockhash = True"
| "needs_scripts (Tx_MiniAssert _) = True"
| "needs_scripts _ = False"

fun only_collateral :: "transaction_type \<Rightarrow> bool" where
  "only_collateral Tx_Round = True"
| "only_collateral Tx_ReadyToReimburse = True"
| "only_collateral (Tx_UnspentKickoff _) = True"
| "only_collateral _ = False"

definition disprove_path_for :: "creator_api \<Rightarrow> transaction_type \<Rightarrow> bytes \<Rightarrow> disprove_path cached" where
  "disprove_path_for A ty disprove_root_hash c =
     (if ty = Tx_Disprove
      then rbind (get_operator_bitvm_keys A c) (\<lambda>(bitvm_pks, c').
           rbind (get_g16_verifier_disprove_scripts A bitvm_pks) (\<lambda>scripts. Inr (DisproveScripts scripts, c')))
      else Inr (DisproveHiddenNode disprove_root_hash, c))"

definition kickoff_txhandler_for ::
  "creator_api \<Rightarrow> transaction_type \<Rightarrow> contract_context \<Rightarrow> operator_data \<Rightarrow> kickoff_data \<Rightarrow> deposit_data \<Rightarrow> disprove_path \<Rightarrow> bytes
   \<Rightarrow> bytes list \<Rightarrow> bytes \<Rightarrow> tx_map \<Rightarrow> (tx_handler \<times> tx_map) cached" where
  "kickoff_txhandler_for A ty ctx od kd d path additional hashes latest_blockhash_root_hash m c =
     (if needs_scripts ty
      then rbind (kickoff_with_scripts A (rc_paramset c) ctx od kd d path additional hashes m)
             (\<lambda>(kickoff, d', m'). Inr ((kickoff, m'), c))
      else rbind (kickoff_with_hashes A (rc_paramset c) od kd d path additional hashes latest_blockhash_root_hash m c)
             (\<lambda>((kickoff, d'), c'). Inr ((kickoff, m), c')))"

definition signer_evm_address :: "creator_api \<Rightarrow> contract_context \<Rightarrow> bytes option result" where
  "signer_evm_address A ctx =
     (case cc_signer ctx of None \<Rightarrow> Inr None | Some s \<Rightarrow> rbind (get_evm_address A s) (\<lambda>addr. Inr (Some addr)))"

definition payout_blockhash_pk :: "kickoff_winternitz_keys \<Rightarrow> kickoff_data \<Rightarrow> winternitz_pk result" where
  "payout_blockhash_pk keys kd =
     rbind (get_keys_for_round keys (kd_round_idx kd)) (\<lambda>round_keys.
     expect (if unat (kickoff_idx kd) < length round_keys then Some (round_keys ! unat (kickoff_idx kd)) else None)
       (Err ''IndexOverflow''))"

text \<open>What follows once the deposit, the kickoff and the hashes of the watchtowers are known.\<close>

definition deposit_txhandlers ::
  "creator_api \<Rightarrow> transaction_type \<Rightarrow> contract_context \<Rightarrow> operator_data \<Rightarrow> kickoff_winternitz_keys \<Rightarrow> tx_handler \<Rightarrow> kickoff_data
   \<Rightarrow> deposit_data \<Rightarrow> bytes list \<Rightarrow> tx_map \<Rightarrow> tx_map cached" where
  "deposit_txhandlers A ty ctx od keys next_round_tx kd d hashes m c =
     (let V = env A; p = rc_paramset c in
      rbind (kickoff_deposit_constant V p d kd m (genesis_chain_state_hash (cc_paramset ctx))) (\<lambda>(const, d1).
      rbind (payout_blockhash_pk keys kd) (\<lambda>payout_pk.
      rbind (get_replaceable_additional_disprove_script A c) (\<lambda>(script, c1).
      let additional = replace_placeholders_in_script A script payout_pk const in
      rbind (get_bitvm_disprove_root_hash c1) (\<lambda>(disprove_root_hash, c2).
      rbind (get_latest_blockhash_root_hash c2) (\<lambda>(latest_blockhash_root_hash, c3).
      rbind (disprove_path_for A ty disprove_root_hash c3) (\<lambda>(path, c4).
      rbind (kickoff_txhandler_for A ty ctx od kd d1 path additional hashes latest_blockhash_root_hash m c4) (\<lambda>((kickoff, m'), c5).
      rbind (signer_evm_address A ctx) (\<lambda>evm.
      rbind (rfold (\<lambda>f m. f m)
               (remaining_steps V p ty od evm next_round_tx (get_num_watchtowers d1) (unat (kickoff_idx kd)))
               (insert_tx kickoff m')) (\<lambda>m''.
      Inr (m'', c5)))))))))))"

definition next_round_txhandler ::
  "bitcoin_env \<Rightarrow> protocol_paramset \<Rightarrow> operator_data \<Rightarrow> kickoff_winternitz_keys \<Rightarrow> round_index \<Rightarrow> tx_map \<Rightarrow> tx_handler result" where
  "next_round_txhandler V p od keys round_idx m =
     rbind (get_txhandler m Tx_ReadyToReimburse) (\<lambda>ready.
     rbind (get_spendable_output ready Vout_CollateralInReadyToReimburse) (\<lambda>txin.
     rbind (get_keys_for_round keys (next_round round_idx)) (\<lambda>next_keys.
     create_round_txhandler V p (od_xonly_pk od) (RoundPrevout txin) next_keys)))"

definition check_deposit_outpoint :: "reimburse_db_cache \<Rightarrow> deposit_data \<Rightarrow> unit result" where
  "check_deposit_outpoint c d =
     (case rc_deposit_outpoint c of
        Some op \<Rightarrow> ensure (op = deposit_outpoint (deposit d)) (Err ''Deposit outpoint mismatch'')
      | None \<Rightarrow> Inl (Err ''Deposit outpoint is not set in ReimburseDbCache''))"

definition with_move_txhandler :: "bitcoin_env \<Rightarrow> protocol_paramset \<Rightarrow> deposit_data \<Rightarrow> tx_map \<Rightarrow> (tx_map \<times> deposit_data) result" where
  "with_move_txhandler V p d m =
     (if bt_get m Tx_MoveToVault = None
      then rbind (create_move_to_vault_txhandler V p d) (\<lambda>(move, d'). Inr (insert_tx move m, d'))
      else Inr (m, d))"

definition create_txhandlers ::
  "creator_api \<Rightarrow> transaction_type \<Rightarrow> contract_context \<Rightarrow> tx_handler_cache \<Rightarrow> reimburse_db_cache
   \<Rightarrow> (tx_map \<times> tx_handler_cache \<times> reimburse_db_cache) result" where
  "create_txhandlers A ty ctx cache c =
     (let V = env A; p = rc_paramset c in
      rbind (get_operator_data c) (\<lambda>(od, c1).
      rbind (get_kickoff_winternitz_keys c1) (\<lambda>(keys, c2).
      rbind (ensure (cc_operator_xonly_pk ctx = od_xonly_pk od) (Err ''Operator xonly pk mismatch'')) (\<lambda>_.
      rbind (collateral_txhandlers V p (cc_round_idx ctx) od keys cache) (\<lambda>(m, cache').
      if only_collateral ty then Inr (m, cache', c2)
      else
        rbind (next_round_txhandler V p od keys (cc_round_idx ctx) m) (\<lambda>next_round_tx.
        rbind (expect (cc_deposit_data ctx) (Err ''InsufficientContext'')) (\<lambda>d.
        rbind (expect (cc_kickoff_idx ctx) (Err ''InsufficientContext'')) (\<lambda>kickoff_index.
        let kd = \<lparr>operator_xonly_pk = cc_operator_xonly_pk ctx, kd_round_idx = cc_round_idx ctx, kickoff_idx = kickoff_index\<rparr> in
        rbind (check_deposit_outpoint c2 d) (\<lambda>_.
        rbind (with_move_txhandler V p d m) (\<lambda>(m1, d1).
        rbind (get_challenge_ack_hashes c2) (\<lambda>(hashes, c3).
        rbind (ensure (length hashes = get_num_watchtowers d1) (Err ''Expected number of challenge ack public hashes'')) (\<lambda>_.
        rbind (deposit_txhandlers A ty ctx od keys next_round_tx kd d1 hashes m1 c3) (\<lambda>(m', c').
        Inr (m', cache', c'))))))))))))))"

end
