(* ===== verification/Tx_Creator_Proofs.thy ===== *)
theory Tx_Creator_Proofs
  imports Tx_Creator
begin

text \<open>
  Every transaction that \<open>create_txhandlers\<close> returns is typed: its inputs exist, pass the debug checks,
  and can be signed by the party that \<open>get_deposit_sig_owner\<close> names. The proof keeps an invariant of the
  map of transactions through the steps of the creation.
\<close>

section \<open>Types of the built transactions\<close>

lemmas step_simps = build_def add_in_def add_out_add_output

lemma child_types:
  "create_challenge_txhandler V p k addr evm = Inr h \<Longrightarrow> th_type h = Tx_Challenge"
  "create_challenge_timeout_txhandler V p k = Inr h \<Longrightarrow> th_type h = Tx_ChallengeTimeout"
  "create_kickoff_not_finalized_txhandler V p k r = Inr h \<Longrightarrow> th_type h = Tx_KickoffNotFinalized"
  "create_latest_blockhash_timeout_txhandler V p k r = Inr h \<Longrightarrow> th_type h = Tx_LatestBlockhashTimeout"
  "create_disprove_timeout_txhandler V p k = Inr h \<Longrightarrow> th_type h = Tx_DisproveTimeout"
  "create_disprove_txhandler V k r = Inr h \<Longrightarrow> th_type h = Tx_Disprove"
  "create_latest_blockhash_txhandler V p k = Inr h \<Longrightarrow> th_type h = Tx_LatestBlockhash"
  "create_watchtower_challenge_timeout_txhandler V p k j = Inr h \<Longrightarrow> th_type h = Tx_WatchtowerChallengeTimeout j"
  "create_operator_challenge_nack_txhandler V p k j r = Inr h \<Longrightarrow> th_type h = Tx_OperatorChallengeNack j"
  "create_operator_challenge_ack_txhandler V p k j = Inr h \<Longrightarrow> th_type h = Tx_OperatorChallengeAck j"
  "create_reimburse_txhandler V p move nr k j addr = Inr h \<Longrightarrow> th_type h = Tx_Reimburse"
  unfolding create_challenge_txhandler_def create_challenge_timeout_txhandler_def create_kickoff_not_finalized_txhandler_def
    create_latest_blockhash_timeout_txhandler_def create_disprove_timeout_txhandler_def create_disprove_txhandler_def
    create_latest_blockhash_txhandler_def create_watchtower_challenge_timeout_txhandler_def
    create_operator_challenge_nack_txhandler_def create_operator_challenge_ack_txhandler_def create_reimburse_txhandler_def
  by (auto simp: step_simps split: option.splits)

lemma parent_types:
  "create_round_txhandler V p op txin keys = Inr h \<Longrightarrow> th_type h = Tx_Round"
  "create_ready_to_reimburse_txhandler V p r op = Inr h \<Longrightarrow> th_type h = Tx_ReadyToReimburse"
  "create_move_to_vault_txhandler V p d = Inr (h, d') \<Longrightarrow> th_type h = Tx_MoveToVault"
  "create_kickoff_txhandler V p kd r move d op asserts path extra blockhash hashes = Inr (h, d') \<Longrightarrow> th_type h = Tx_Kickoff"
  unfolding create_round_txhandler_def create_ready_to_reimburse_txhandler_def create_move_to_vault_txhandler_def
    create_kickoff_txhandler_def
  by (auto simp: step_simps run_add_outs round_input_def split: round_tx_input.splits)

lemma rmap_types:
  assumes "rmap f [0..<n] = Inr hs" "\<And>i h. f i = Inr h \<Longrightarrow> th_type h = g i"
  shows "map th_type hs = map g [0..<n]"
  using rmap_eq_Inr_length [OF assms(1)] assms(2) [OF rmap_upt_nth [OF assms(1)]] by (intro nth_equalityI) simp_all

lemma list_types:
  "create_assert_timeout_txhandlers V p k r n = Inr hs \<Longrightarrow> map th_type hs = map Tx_AssertTimeout [0..<n]"
  "create_mini_asserts V p k n = Inr hs \<Longrightarrow> map th_type hs = map Tx_MiniAssert [0..<n]"
  "create_unspent_kickoff_txhandlers V p r ready = Inr hs \<Longrightarrow> map th_type hs = map Tx_UnspentKickoff [0..<num_kickoffs_per_round p]"
  unfolding create_assert_timeout_txhandlers_def create_mini_asserts_def create_unspent_kickoff_txhandlers_def
  by (erule rmap_types, auto simp: step_simps)+

section \<open>The invariant of the map\<close>

definition role_ok :: "bitcoin_env \<Rightarrow> protocol_paramset \<Rightarrow> party_keys \<Rightarrow> transaction_type \<Rightarrow> tx_handler \<Rightarrow> bool" where
  "role_ok V p K ty h \<longleftrightarrow>
     (case ty of
        Tx_Round \<Rightarrow> round_layout V p (key_operator K) h
      | Tx_ReadyToReimburse \<Rightarrow> collateral_at V (key_operator K) h
      | Tx_MoveToVault \<Rightarrow> move_layout V p (key_nofn K) h
      | Tx_Kickoff \<Rightarrow> kickoff_layout V p K False h
      | _ \<Rightarrow> True)"

definition typed_map :: "bitcoin_env \<Rightarrow> protocol_paramset \<Rightarrow> party_keys \<Rightarrow> out_point set \<Rightarrow> tx_map \<Rightarrow> bool" where
  "typed_map V p K F m \<longleftrightarrow> bt_sorted m \<and>
     (\<forall>ty h. bt_get m ty = Some h \<longrightarrow> th_type h = ty \<and> handler_typed V K F h \<and> role_ok V p K ty h)"

abbreviation tx_ok :: "bitcoin_env \<Rightarrow> protocol_paramset \<Rightarrow> party_keys \<Rightarrow> out_point set \<Rightarrow> tx_handler \<Rightarrow> bool" where
  "tx_ok V p K F h \<equiv> handler_typed V K F h \<and> role_ok V p K (th_type h) h"

lemma typed_map_empty [simp]: "typed_map V p K F []"
  by (simp add: typed_map_def bt_get_def bt_sorted_def)

lemma typed_map_insert:
  "typed_map V p K F m \<Longrightarrow> tx_ok V p K F h \<Longrightarrow> typed_map V p K F (insert_tx h m)"
  by (auto simp: typed_map_def bt.invar_upd bt.lookup_upd)

lemma typed_map_insert_txs:
  "typed_map V p K F m \<Longrightarrow> \<forall>h \<in> set hs. tx_ok V p K F h \<Longrightarrow> typed_map V p K F (insert_txs hs m)"
  by (auto simp: typed_map_def bt.invar_upd_all dest!: bt.lookup_upd_all_origin [rotated])

lemma typed_map_get:
  assumes "typed_map V p K F m" "get_txhandler m ty = Inr h"
  shows "th_type h = ty" "handler_typed V K F h" "role_ok V p K ty h"
  using assms by (auto simp: typed_map_def get_txhandler_def)

lemma typed_map_roles:
  assumes "typed_map V p K F m"
  shows "get_txhandler m Tx_Round = Inr h \<Longrightarrow> round_layout V p (key_operator K) h"
    and "get_txhandler m Tx_Round = Inr h \<Longrightarrow> collateral_at V (key_operator K) h"
    and "get_txhandler m Tx_ReadyToReimburse = Inr h \<Longrightarrow> collateral_at V (key_operator K) h"
    and "get_txhandler m Tx_MoveToVault = Inr h \<Longrightarrow> move_layout V p (key_nofn K) h"
    and "get_txhandler m Tx_Kickoff = Inr h \<Longrightarrow> kickoff_layout V p K False h"
  using typed_map_get(3) [OF assms] by (fastforce simp: role_ok_def round_layout_def)+

lemma typed_map_set: "typed_map V p K F m \<Longrightarrow> (ty, h) \<in> set m \<Longrightarrow> th_type h = ty \<and> handler_typed V K F h"
  unfolding typed_map_def by (metis bt_get_Some)

section \<open>Steps\<close>

definition create_step_typed :: "bitcoin_env \<Rightarrow> protocol_paramset \<Rightarrow> party_keys \<Rightarrow> out_point set \<Rightarrow> create_step \<Rightarrow> bool" where
  "create_step_typed V p K F f \<longleftrightarrow> (\<forall>m m'. typed_map V p K F m \<longrightarrow> f m = Inr m' \<longrightarrow> typed_map V p K F m')"

lemma ins_typed:
  assumes "\<And>m h. typed_map V p K F m \<Longrightarrow> mk m = Inr h \<Longrightarrow> tx_ok V p K F h"
  shows "create_step_typed V p K F (ins mk)"
  using assms by (auto simp: create_step_typed_def ins_def intro: typed_map_insert)

lemma ins_all_typed:
  assumes "\<And>m hs h. typed_map V p K F m \<Longrightarrow> mk m = Inr hs \<Longrightarrow> h \<in> set hs \<Longrightarrow> tx_ok V p K F h"
  shows "create_step_typed V p K F (ins_all mk)"
  using assms by (auto simp: create_step_typed_def ins_all_def intro: typed_map_insert_txs)

lemma role_ok_other [simp]:
  "role_ok V p K Tx_Challenge h" "role_ok V p K Tx_ChallengeTimeout h" "role_ok V p K Tx_KickoffNotFinalized h"
  "role_ok V p K Tx_LatestBlockhashTimeout h" "role_ok V p K Tx_DisproveTimeout h" "role_ok V p K Tx_Disprove h"
  "role_ok V p K Tx_LatestBlockhash h" "role_ok V p K (Tx_WatchtowerChallengeTimeout j) h" "role_ok V p K (Tx_OperatorChallengeNack j) h"
  "role_ok V p K (Tx_OperatorChallengeAck j) h" "role_ok V p K Tx_Reimburse h" "role_ok V p K (Tx_AssertTimeout j) h"
  "role_ok V p K (Tx_MiniAssert j) h" "role_ok V p K (Tx_UnspentKickoff j) h"
  by (simp_all add: role_ok_def)

lemma rfold_steps_typed:
  assumes "rfold (\<lambda>f m. f m) fs m = Inr m'" "typed_map V p K F m" "\<forall>f \<in> set fs. create_step_typed V p K F f"
  shows "typed_map V p K F m'"
  using assms(1,2) by (rule rfold_invariant) (use assms(3) in \<open>auto simp: create_step_typed_def\<close>)

text \<open>What the steps make from the entries of a typed map.\<close>

lemma map_children_ok:
  fixes K :: party_keys
  assumes m: "typed_map V p K F m" and k: "get_txhandler m Tx_Kickoff = Inr k"
  shows "create_challenge_txhandler V p k addr evm = Inr h \<Longrightarrow> tx_ok V p K F h"
    and "create_challenge_timeout_txhandler V p k = Inr h \<Longrightarrow> tx_ok V p K F h"
    and "create_disprove_timeout_txhandler V p k = Inr h \<Longrightarrow> tx_ok V p K F h"
    and "get_txhandler m Tx_ReadyToReimburse = Inr r \<Longrightarrow> create_kickoff_not_finalized_txhandler V p k r = Inr h \<Longrightarrow> tx_ok V p K F h"
    and "get_txhandler m Tx_Round = Inr r \<Longrightarrow> create_latest_blockhash_timeout_txhandler V p k r = Inr h \<Longrightarrow> tx_ok V p K F h"
    and "get_txhandler m Tx_Round = Inr r \<Longrightarrow> create_disprove_txhandler V k r = Inr h \<Longrightarrow> tx_ok V p K F h"
  using kickoff_children_typed(1-3) [OF typed_map_roles(5) [OF m k]]
    kickoff_collateral_children_typed(1) [OF typed_map_roles(5) [OF m k] typed_map_roles(3) [OF m]]
    kickoff_collateral_children_typed(2,3) [OF typed_map_roles(5) [OF m k] typed_map_roles(2) [OF m]]
  by (simp_all add: child_types)

lemma map_watchtower_children_ok:
  fixes K :: party_keys
  assumes m: "typed_map V p K F m" and k: "get_txhandler m Tx_Kickoff = Inr k"
    and n: "length (key_watchtowers K) < 2 ^ 30" and j: "j < length (key_watchtowers K)"
  shows "create_watchtower_challenge_timeout_txhandler V p k j = Inr h \<Longrightarrow> tx_ok V p K F h"
    and "create_operator_challenge_ack_txhandler V p k j = Inr h \<Longrightarrow> tx_ok V p K F h"
    and "get_txhandler m Tx_Round = Inr r \<Longrightarrow> create_operator_challenge_nack_txhandler V p k j r = Inr h \<Longrightarrow> tx_ok V p K F h"
  using watchtower_children_typed [OF typed_map_roles(5) [OF m k] n j] typed_map_roles(2) [OF m]
  by (simp_all add: child_types)

lemma map_assert_timeouts_ok:
  fixes K :: party_keys
  assumes m: "typed_map V p K F m" and k: "get_txhandler m Tx_Kickoff = Inr k" and r: "get_txhandler m Tx_Round = Inr r"
    and hs: "create_assert_timeout_txhandlers V p k r number_of_assert_txs = Inr hs" "h \<in> set hs"
  shows "tx_ok V p K F h"
proof -
  have "th_type h \<in> set (map th_type hs)" using hs(2) by simp
  then have "\<exists>j. th_type h = Tx_AssertTimeout j" unfolding list_types(1) [OF hs(1)] by auto
  then show ?thesis
    using assert_timeouts_typed [OF typed_map_roles(5) [OF m k] typed_map_roles(2) [OF m r] hs [unfolded number_of_assert_txs_def]]
    by auto
qed

lemma map_reimburse_ok:
  fixes K :: party_keys
  assumes "typed_map V p K F m" "get_txhandler m Tx_Kickoff = Inr k" "get_txhandler m Tx_MoveToVault = Inr move"
    and "round_layout V p (key_operator K) nr" "num_kickoffs_per_round p < 2 ^ 30" "j < num_kickoffs_per_round p"
    and "create_reimburse_txhandler V p move nr k j addr = Inr h"
  shows "tx_ok V p K F h"
  using reimburse_typed [OF typed_map_roles(5) [OF assms(1,2)] typed_map_roles(4) [OF assms(1,3)] assms(4-7)]
    child_types(11) [OF assms(7)] by simp

lemma remaining_steps_typed:
  fixes K :: party_keys
  assumes n: "num_kickoffs_per_round p < 2 ^ 30" "length (key_watchtowers K) < 2 ^ 30" "j < num_kickoffs_per_round p"
    and nr: "round_layout V p (key_operator K) nr"
    and f: "f \<in> set (remaining_steps V p ty od evm nr (length (key_watchtowers K)) j)"
  shows "create_step_typed V p K F f"
proof -
  have wt: "create_step_typed V p K F f'" if "i < length (key_watchtowers K)" "f' \<in> set (watchtower_steps V p i)" for i f'
    using that(2) unfolding watchtower_steps_def
    by (auto simp only: list.set insert_iff empty_iff with_tx_def with_txs_def rbind_eq_Inr
      intro!: ins_typed dest: map_watchtower_children_ok [OF _ _ n(2) that(1)])
  have check: "create_step_typed V p K F (\<lambda>m. case ty of
      Tx_WatchtowerChallenge _ \<Rightarrow>
        Inl (Err ''Can't directly create a watchtower challenge in create_txhandlers as it needs commit data'')
    | _ \<Rightarrow> Inr m)"
    by (auto simp: create_step_typed_def split: transaction_type.splits)
  show ?thesis
    using f unfolding remaining_steps_def set_append Un_iff list.set insert_iff
    by (elim disjE)
      (auto simp: with_tx_def with_txs_def check split: if_splits intro: wt
        intro!: ins_typed ins_all_typed dest: map_children_ok map_assert_timeouts_ok map_reimburse_ok [OF _ _ _ nr n(1,3)])
qed

section \<open>The transactions of a round\<close>

definition keys_ok :: "protocol_paramset \<Rightarrow> kickoff_winternitz_keys \<Rightarrow> bool" where
  "keys_ok p kw \<longleftrightarrow> kw_num_kickoffs_per_round kw = num_kickoffs_per_round p \<and> kw_num_rounds kw = num_round_txs p \<and>
     length (kw_keys kw) = num_kickoffs_per_round p * (num_round_txs p + 1)"

lemma keys_ok_new: "kickoff_winternitz_keys_new pks (num_kickoffs_per_round p) (num_round_txs p) = Inr kw \<Longrightarrow> keys_ok p kw"
  by (auto simp: kickoff_winternitz_keys_new_def keys_ok_def split: if_splits)

lemma length_slice: "slice a b xs = Inr ys \<Longrightarrow> length ys = b - a"
  by auto

lemma length_round_keys: "keys_ok p kw \<Longrightarrow> get_keys_for_round kw r = Inr ks \<Longrightarrow> length ks = num_kickoffs_per_round p"
  by (auto simp: keys_ok_def get_keys_for_round_def Let_def simp del: slice_eq_Inr split: if_splits dest!: length_slice)

definition round_pair_ok :: "bitcoin_env \<Rightarrow> protocol_paramset \<Rightarrow> party_keys \<Rightarrow> out_point set \<Rightarrow> tx_handler \<times> tx_handler \<Rightarrow> bool" where
  "round_pair_ok V p K F rs \<longleftrightarrow>
     tx_ok V p K F (fst rs) \<and> th_type (fst rs) = Tx_Round \<and> tx_ok V p K F (snd rs) \<and> th_type (snd rs) = Tx_ReadyToReimburse"

lemma round_pair:
  fixes K :: party_keys
  assumes laws: "taproot_laws (taproot V)" and txin: "round_input_ok V F (key_operator K) txin"
    and ks: "length ks = num_kickoffs_per_round p"
    and round: "create_round_txhandler V p (key_operator K) txin ks = Inr round"
    and ready: "create_ready_to_reimburse_txhandler V p round (key_operator K) = Inr ready"
  shows "round_pair_ok V p K F (round, ready)"
proof -
  note layout = round_layout_built [OF laws txin round ks]
  then have "collateral_at V (key_operator K) round" by (simp add: round_layout_def)
  from round_typed [OF laws txin round] layout ready_typed [OF laws this ready] show ?thesis
    by (simp add: round_pair_ok_def role_ok_def parent_types(1) [OF round] parent_types(2) [OF ready])
qed

lemma prev_round_input_ok:
  fixes K :: party_keys
  assumes "collateral_at V (key_operator K) ready" "get_spendable_output ready Vout_CollateralInReadyToReimburse = Inr prev"
  shows "round_input_ok V F (key_operator K) (RoundPrevout prev)"
  using assms spends_output [OF _ assms(2)] by (auto simp: collateral_at_def)

lemma round_nth_ok:
  fixes K :: party_keys
  assumes laws: "taproot_laws (taproot V)" and kw: "keys_ok p kw" and op: "op \<in> F"
    and built: "create_round_nth_txhandler V p (key_operator K) op a idx kw = Inr rs"
  shows "round_pair_ok V p K F rs"
proof -
  define loop where "loop = (\<lambda>round_idx (round :: tx_handler, ready).
          rbind (get_spendable_output ready Vout_CollateralInReadyToReimburse) (\<lambda>prev.
          rbind (get_keys_for_round kw round_idx) (\<lambda>keys.
          rbind (create_round_txhandler V p (key_operator K) (RoundPrevout prev) keys) (\<lambda>round'.
          rbind (create_ready_to_reimburse_txhandler V p round' (key_operator K)) (\<lambda>ready'.
          Inr (round', ready'))))))"
  obtain ks round0 ready0 where start: "get_keys_for_round kw (Round 0) = Inr ks"
      "create_round_txhandler V p (key_operator K) (RoundCollateral op a) ks = Inr round0"
      "create_ready_to_reimburse_txhandler V p round0 (key_operator K) = Inr ready0"
    and run: "rfold loop (iter_rounds_range 1 ((case idx of Collateral \<Rightarrow> 0 | Round i \<Rightarrow> i) + 1)) (round0, ready0) = Inr rs"
    using built unfolding create_round_nth_txhandler_def loop_def by (auto split: if_splits)
  have "round_pair_ok V p K F (round0, ready0)"
    using start op length_round_keys [OF kw start(1)] by (intro round_pair [OF laws]) auto
  with run show ?thesis
  proof (rule rfold_invariant)
    fix r a b
    assume a: "round_pair_ok V p K F a" and "loop r a = Inr b"
    then obtain prev ks round ready where *:
        "get_spendable_output (snd a) Vout_CollateralInReadyToReimburse = Inr prev" "get_keys_for_round kw r = Inr ks"
        "create_round_txhandler V p (key_operator K) (RoundPrevout prev) ks = Inr round"
        "create_ready_to_reimburse_txhandler V p round (key_operator K) = Inr ready" "b = (round, ready)"
      by (auto simp: loop_def split: prod.splits)
    have "collateral_at V (key_operator K) (snd a)" using a by (auto simp: round_pair_ok_def role_ok_def)
    from round_pair [OF laws prev_round_input_ok [OF this *(1)] length_round_keys [OF kw *(2)] *(3,4)] show "round_pair_ok V p K F b"
      using *(5) by simp
  qed
qed

lemma round_txhandlers_ok:
  fixes K :: party_keys
  assumes laws: "taproot_laws (taproot V)" and kw: "keys_ok p kw" and n: "num_kickoffs_per_round p < 2 ^ 30"
    and od: "od_xonly_pk od = key_operator K" "collateral_funding_outpoint od \<in> F"
    and prev: "\<forall>h. prev_ready = Some h \<longrightarrow> collateral_at V (key_operator K) h"
    and built: "create_round_txhandlers V p round_idx od kw prev_ready = Inr hs" and h: "h \<in> set hs"
  shows "tx_ok V p K F h"
proof -
  obtain round ready unspent where hs: "hs = round # ready # unspent"
    and unspent: "create_unspent_kickoff_txhandlers V p round ready = Inr unspent"
    and pair: "round_pair_ok V p K F (round, ready)"
  proof (cases prev_ready)
    case None
    then show ?thesis
      using built od(1) round_nth_ok [OF laws kw od(2)] that by (auto simp: create_round_txhandlers_def)
  next
    case (Some ready0)
    then obtain prev' ks round ready unspent where *:
        "get_spendable_output ready0 Vout_CollateralInReadyToReimburse = Inr prev'" "get_keys_for_round kw round_idx = Inr ks"
        "create_round_txhandler V p (key_operator K) (RoundPrevout prev') ks = Inr round"
        "create_ready_to_reimburse_txhandler V p round (key_operator K) = Inr ready"
        "create_unspent_kickoff_txhandlers V p round ready = Inr unspent" "hs = round # ready # unspent"
      using built od(1) by (auto simp: create_round_txhandlers_def split: if_splits)
    have "collateral_at V (key_operator K) ready0" using prev Some by simp
    from round_pair [OF laws prev_round_input_ok [OF this *(1)] length_round_keys [OF kw *(2)] *(3,4)]
    show ?thesis using that *(5,6) by blast
  qed
  have layouts: "round_layout V p (key_operator K) round" "collateral_at V (key_operator K) ready"
    using pair by (auto simp: round_pair_ok_def role_ok_def)
  have "tx_ok V p K F h" if "h \<in> set unspent"
  proof -
    have "th_type h \<in> set (map th_type unspent)" using that by simp
    then have "\<exists>j. th_type h = Tx_UnspentKickoff j" unfolding list_types(3) [OF unspent] by auto
    then show ?thesis using unspent_kickoffs_typed [OF layouts n unspent that] by auto
  qed
  then show ?thesis using h pair unfolding hs by (auto simp: round_pair_ok_def)
qed

section \<open>Caches and contexts\<close>

text \<open>
  What the creation relies on: the stored setups have one hash per assert transaction, the collateral of
  the operator is a funding outpoint, and the caches hold what the database holds.
\<close>

definition database_ok :: "out_point set \<Rightarrow> database \<Rightarrow> bytes \<Rightarrow> bool" where
  "database_ok F db operator_pk \<longleftrightarrow>
     (\<forall>op stp. db_get_bitvm_setup db operator_pk op = Inr (Some stp) \<longrightarrow> length (fst stp) = NUMBER_OF_ASSERT_TXS) \<and>
     (\<forall>od. db_get_operator db operator_pk = Inr (Some od) \<longrightarrow> collateral_funding_outpoint od \<in> F)"

definition db_cache_ok :: "protocol_paramset \<Rightarrow> out_point set \<Rightarrow> reimburse_db_cache \<Rightarrow> bool" where
  "db_cache_ok p F c \<longleftrightarrow> rc_paramset c = p \<and> database_ok F (rc_db c) (rc_operator_xonly_pk c) \<and>
     (\<forall>kw. rc_kickoff_winternitz_keys c = Some kw \<longrightarrow> keys_ok p kw) \<and>
     (\<forall>addrs. rc_bitvm_assert_addr c = Some addrs \<longrightarrow> length addrs = NUMBER_OF_ASSERT_TXS) \<and>
     (\<forall>od. rc_operator_data c = Some od \<longrightarrow> collateral_funding_outpoint od \<in> F)"

definition tx_cache_ok :: "bitcoin_env \<Rightarrow> protocol_paramset \<Rightarrow> party_keys \<Rightarrow> out_point set \<Rightarrow> tx_handler_cache \<Rightarrow> bool" where
  "tx_cache_ok V p K F cache \<longleftrightarrow> typed_map V p K F (saved_txs cache) \<and>
     (\<forall>h. prev_ready_to_reimburse cache = Some h \<longrightarrow> collateral_at V (key_operator K) h)"

definition context_ok :: "bitcoin_env \<Rightarrow> party_keys \<Rightarrow> out_point set \<Rightarrow> contract_context \<Rightarrow> bool" where
  "context_ok V K F ctx \<longleftrightarrow> cc_operator_xonly_pk ctx = key_operator K \<and>
     (case cc_deposit_data ctx of
        None \<Rightarrow> True
      | Some d \<Rightarrow> map_sum id fst (get_nofn_xonly_pk V d) = Inr (key_nofn K) \<and> get_watchtowers V d = key_watchtowers K \<and>
          deposit_outpoint (deposit d) \<in> F)"

lemma database_okD:
  assumes "database_ok F db operator_pk"
  shows "db_get_bitvm_setup db operator_pk op = Inr (Some (addrs, x, y)) \<Longrightarrow> length addrs = NUMBER_OF_ASSERT_TXS"
    and "db_get_operator db operator_pk = Inr (Some od) \<Longrightarrow> collateral_funding_outpoint od \<in> F"
  using assms unfolding database_ok_def by fastforce+

lemma db_cache_ok_getters:
  assumes "db_cache_ok p F c"
  shows "get_operator_data c = Inr (od, c') \<Longrightarrow> db_cache_ok p F c' \<and> collateral_funding_outpoint od \<in> F"
    and "get_kickoff_winternitz_keys c = Inr (kw, c') \<Longrightarrow> db_cache_ok p F c' \<and> keys_ok p kw"
    and "get_challenge_ack_hashes c = Inr (hs, c') \<Longrightarrow> db_cache_ok p F c'"
    and "get_operator_bitvm_keys A c = Inr (pks, c') \<Longrightarrow> db_cache_ok p F c'"
    and "get_bitvm_setup op c = Inr c' \<Longrightarrow> db_cache_ok p F c'"
  using assms
  by (auto simp: db_cache_ok_def get_operator_data_def get_kickoff_winternitz_keys_def get_challenge_ack_hashes_def
    get_operator_bitvm_keys_def get_bitvm_setup_def split: option.splits intro: keys_ok_new dest: database_okD)

lemma db_cache_ok_of_setup:
  assumes "db_cache_ok p F c" "of_setup field c = Inr (x, c')"
  shows "db_cache_ok p F c'" "field c' = Some x"
  using assms db_cache_ok_getters(5) [OF assms(1)] by (auto simp: of_setup_def split: option.splits)

lemma db_cache_ok_script:
  assumes "db_cache_ok p F c" "get_replaceable_additional_disprove_script A c = Inr (x, c')"
  shows "db_cache_ok p F c'"
proof (cases "rc_additional_disprove_script c")
  case None
  then obtain hs c1 keys c2 where "get_challenge_ack_hashes c = Inr (hs, c1)" "get_operator_bitvm_keys A c1 = Inr (keys, c2)"
      "c' = c2\<lparr>rc_additional_disprove_script := Some x\<rparr>"
    using assms(2) by (auto simp: get_replaceable_additional_disprove_script_def Let_def)
  moreover have "db_cache_ok p F (c2\<lparr>rc_additional_disprove_script := s\<rparr>) = db_cache_ok p F c2" for s
    by (simp add: db_cache_ok_def)
  ultimately show ?thesis using db_cache_ok_getters(3,4) assms(1) by metis
next
  case (Some s)
  then show ?thesis using assms by (auto simp: get_replaceable_additional_disprove_script_def)
qed

lemma get_nofn_again:
  assumes "get_nofn_xonly_pk V d = Inr (pk, d')"
  shows "get_nofn_xonly_pk V d' = Inr (pk, d')" "get_watchtowers V d' = get_watchtowers V d" "deposit d' = deposit d"
    "get_num_watchtowers d' = get_num_watchtowers d"
  using assms by (auto simp: get_nofn_xonly_pk_def get_watchtowers_def get_num_watchtowers_def get_num_verifiers_def split: option.splits)

section \<open>The transactions of a deposit\<close>

lemma kickoff_layout_mono: "kickoff_layout V p K c h \<Longrightarrow> kickoff_layout V p K False h"
  by (auto simp: kickoff_layout_def Let_def timeout_out_def)

text \<open>The facts about a deposit that the creation of its transactions uses.\<close>

definition deposit_ok :: "bitcoin_env \<Rightarrow> protocol_paramset \<Rightarrow> party_keys \<Rightarrow> operator_data \<Rightarrow> deposit_data \<Rightarrow> bool" where
  "deposit_ok V p K od d \<longleftrightarrow> taproot_laws (taproot V) \<and> od_xonly_pk od = key_operator K \<and> num_kickoffs_per_round p < 2 ^ 30 \<and>
     length (key_watchtowers K) < 2 ^ 30 \<and> (\<exists>d'. get_nofn_xonly_pk V d = Inr (key_nofn K, d')) \<and>
     get_watchtowers V d = key_watchtowers K"

lemma kickoff_ok:
  fixes K :: party_keys
  assumes dep: "deposit_ok V p K od d" and m: "typed_map V p K F m" "get_txhandler m Tx_Round = Inr round"
    and idx: "unat (kickoff_idx kd) < num_kickoffs_per_round p" and n: "assert_count asserts = NUMBER_OF_ASSERT_TXS"
    and built: "create_kickoff_txhandler V p kd round move d (od_xonly_pk od) asserts path extra blockhash hashes = Inr (k, d')"
  shows "tx_ok V p K F k" "kickoff_layout V p K (commits_of (key_operator K) asserts \<and> commits_of (key_operator K) blockhash) k"
proof -
  obtain d1 where nofn: "get_nofn_xonly_pk V d = Inr (key_nofn K, d1)" using dep by (auto simp: deposit_ok_def)
  have D: "taproot_laws (taproot V)" "od_xonly_pk od = key_operator K" "num_kickoffs_per_round p < 2 ^ 30"
    "get_watchtowers V d = key_watchtowers K" using dep by (simp_all add: deposit_ok_def)
  note typed = kickoff_typed [OF D(1) typed_map_roles(1) [OF m] built [unfolded D(2)] nofn D(4) n idx D(3)]
  show "kickoff_layout V p K (commits_of (key_operator K) asserts \<and> commits_of (key_operator K) blockhash) k" by (rule typed(2))
  then show "tx_ok V p K F k" using typed(1) kickoff_layout_mono parent_types(4) [OF built] by (auto simp: role_ok_def)
qed

lemma kickoff_with_hashes_ok:
  fixes K :: party_keys
  assumes dep: "deposit_ok (env A) p K od d" and m: "typed_map (env A) p K F m" and c: "db_cache_ok p F c"
    and idx: "unat (kickoff_idx kd) < num_kickoffs_per_round p"
    and built: "kickoff_with_hashes A p od kd d path additional hashes root m c = Inr ((k, d'), c')"
  shows "tx_ok (env A) p K F k" "db_cache_ok p F c'"
proof -
  obtain round move addrs where *: "get_txhandler m Tx_Round = Inr round" "get_bitvm_assert_hash c = Inr (addrs, c')"
      "create_kickoff_txhandler (env A) p kd round move d (od_xonly_pk od) (AssertScriptTapNodeHash addrs) path additional
         (AssertScriptTapNodeHash [root]) hashes = Inr (k, d')"
    using built by (auto simp: kickoff_with_hashes_def)
  note st = db_cache_ok_of_setup [OF c *(2) [unfolded get_bitvm_assert_hash_def]]
  show "db_cache_ok p F c'" by (rule st)
  then have "assert_count (AssertScriptTapNodeHash addrs) = NUMBER_OF_ASSERT_TXS" using st(2) by (simp add: db_cache_ok_def)
  from kickoff_ok(1) [OF dep m *(1) idx this *(3)] show "tx_ok (env A) p K F k" .
qed

lemma kickoff_with_scripts_ok:
  fixes K :: party_keys
  assumes dep: "deposit_ok (env A) p K od d" and m: "typed_map (env A) p K F m" and sizes: "bitvm_sizes (sizes A)"
    and idx: "unat (kickoff_idx kd) < num_kickoffs_per_round p"
    and built: "kickoff_with_scripts A p ctx od kd d path additional hashes m = Inr (k, d', m')"
  shows "tx_ok (env A) p K F k" "typed_map (env A) p K F m'"
proof -
  obtain sk pks round move asserts lb where *: "get_txhandler m Tx_Round = Inr round"
      "create_kickoff_txhandler (env A) p kd round move d (od_xonly_pk od)
         (AssertSpendableScript (get_assert_scripts (sizes A) pks (od_xonly_pk od))) path additional
         (AssertSpendableScript [WinternitzCommit [(latest_blockhash_pk pks, 40)] (od_xonly_pk od) (winternitz_log_d (cc_paramset ctx))])
         hashes = Inr (k, d')"
      "create_mini_asserts (env A) p k number_of_assert_txs = Inr asserts"
      "create_latest_blockhash_txhandler (env A) p k = Inr lb" "m' = insert_tx lb (insert_txs asserts m)"
    using built by (auto simp: kickoff_with_scripts_def Let_def)
  have op: "od_xonly_pk od = key_operator K" using dep by (simp add: deposit_ok_def)
  have "assert_count (AssertSpendableScript (get_assert_scripts (sizes A) pks (od_xonly_pk od))) = NUMBER_OF_ASSERT_TXS"
    by (simp add: length_get_assert_scripts [OF sizes] number_of_assert_txs_def)
  note k = kickoff_ok [OF dep m *(1) idx this *(2)]
  show "tx_ok (env A) p K F k" by (rule k(1))
  have "operator_script (key_operator K) (WinternitzCommit x (key_operator K) l)" for x l by (simp add: operator_script_def)
  then have "commits_of (key_operator K) (AssertSpendableScript (get_assert_scripts (sizes A) pks (key_operator K)))"
    "commits_of (key_operator K) (AssertSpendableScript
       [WinternitzCommit [(latest_blockhash_pk pks, 40)] (key_operator K) (winternitz_log_d (cc_paramset ctx))])"
    by (auto simp: commits_of_def get_assert_scripts_def)
  then have layout: "kickoff_layout (env A) p K True k" using k(2) by (simp add: op)
  have "\<forall>h \<in> set asserts. tx_ok (env A) p K F h"
  proof
    fix h assume h: "h \<in> set asserts"
    then have "th_type h \<in> set (map th_type asserts)" by simp
    then have "\<exists>j. th_type h = Tx_MiniAssert j" unfolding list_types(2) [OF *(3)] by auto
    then show "tx_ok (env A) p K F h"
      using mini_asserts_typed [OF layout *(3) [unfolded number_of_assert_txs_def] h] by auto
  qed
  moreover have "tx_ok (env A) p K F lb"
    using kickoff_children_typed(4) [OF layout *(4)] child_types(7) [OF *(4)] by simp
  ultimately show "typed_map (env A) p K F m'"
    using m unfolding *(5) by (intro typed_map_insert typed_map_insert_txs) blast+
qed

lemma deposit_txhandlers_ok:
  fixes K :: party_keys
  assumes dep: "deposit_ok (env A) p K od d" and m: "typed_map (env A) p K F m" and c: "db_cache_ok p F c"
    and sizes: "bitvm_sizes (sizes A)" and kw: "keys_ok p kw" and nr: "round_layout (env A) p (key_operator K) nr"
    and built: "deposit_txhandlers A ty ctx od kw nr kd d hashes m c = Inr (m', c')"
  shows "typed_map (env A) p K F m'" "db_cache_ok p F c'"
proof -
  have p: "rc_paramset c = p" using c by (simp add: db_cache_ok_def)
  obtain const d1 pk script c1 hash c2 root c3 path c4 k m1 evm where *:
      "kickoff_deposit_constant (env A) p d kd m (genesis_chain_state_hash (cc_paramset ctx)) = Inr (const, d1)"
      "payout_blockhash_pk kw kd = Inr pk" "get_replaceable_additional_disprove_script A c = Inr (script, c1)"
      "get_bitvm_disprove_root_hash c1 = Inr (hash, c2)" "get_latest_blockhash_root_hash c2 = Inr (root, c3)"
      "disprove_path_for A ty hash c3 = Inr (path, c4)"
      "kickoff_txhandler_for A ty ctx od kd d1 path (replace_placeholders_in_script A script pk const) hashes root m c4 =
         Inr ((k, m1), c')"
      "rfold (\<lambda>f m. f m) (remaining_steps (env A) p ty od evm nr (get_num_watchtowers d1) (unat (kickoff_idx kd)))
         (insert_tx k m1) = Inr m'"
    using built unfolding deposit_txhandlers_def Let_def p by auto
  obtain nofn where nofn: "get_nofn_xonly_pk (env A) d = Inr (nofn, d1)" using *(1) by (auto simp: kickoff_deposit_constant_def)
  have dep1: "deposit_ok (env A) p K od d1" and wts: "get_num_watchtowers d1 = length (key_watchtowers K)"
    using dep nofn get_nofn_again [OF nofn] length_get_watchtowers [of "env A" d1] by (auto simp: deposit_ok_def)
  have idx: "unat (kickoff_idx kd) < num_kickoffs_per_round p"
    using *(2) length_round_keys [OF kw] by (fastforce simp: payout_blockhash_pk_def split: if_splits)
  have "db_cache_ok p F c3"
    by (rule db_cache_ok_of_setup(1) [OF db_cache_ok_of_setup(1) [OF db_cache_ok_script [OF c *(3)]
      *(4) [unfolded get_bitvm_disprove_root_hash_def]] *(5) [unfolded get_latest_blockhash_root_hash_def]])
  then have c4: "db_cache_ok p F c4" using *(6) db_cache_ok_getters(4) by (auto simp: disprove_path_for_def split: if_splits)
  then have "rc_paramset c4 = p" by (simp add: db_cache_ok_def)
  then have k: "tx_ok (env A) p K F k" "typed_map (env A) p K F m1" "db_cache_ok p F c'"
    using *(7) kickoff_with_scripts_ok [OF dep1 m sizes idx] kickoff_with_hashes_ok [OF dep1 m c4 idx] m c4
    by (auto simp: kickoff_txhandler_for_def split: if_splits)
  show "db_cache_ok p F c'" by (rule k(3))
  have n: "num_kickoffs_per_round p < 2 ^ 30" "length (key_watchtowers K) < 2 ^ 30" using dep by (simp_all add: deposit_ok_def)
  show "typed_map (env A) p K F m'"
    using *(8) remaining_steps_typed [OF n idx nr] typed_map_insert [OF k(2,1)] unfolding wts by (blast intro: rfold_steps_typed)
qed

lemma collateral_txhandlers_ok:
  fixes K :: party_keys
  assumes laws: "taproot_laws (taproot V)" and kw: "keys_ok p kw" and n: "num_kickoffs_per_round p < 2 ^ 30"
    and od: "od_xonly_pk od = key_operator K" "collateral_funding_outpoint od \<in> F" and cache: "tx_cache_ok V p K F cache"
    and built: "collateral_txhandlers V p round_idx od kw cache = Inr (m, cache')"
  shows "typed_map V p K F m" "tx_cache_ok V p K F cache'"
proof -
  have cache': "cache' = cache\<lparr>saved_txs := []\<rparr>"
    using built by (auto simp: collateral_txhandlers_def get_cached_txs_def split: if_splits)
  then show "tx_cache_ok V p K F cache'" using cache by (simp add: tx_cache_ok_def)
  have prev: "\<forall>h. prev_ready_to_reimburse cache = Some h \<longrightarrow> collateral_at V (key_operator K) h"
    and saved: "typed_map V p K F (saved_txs cache)" using cache by (simp_all add: tx_cache_ok_def)
  show "typed_map V p K F m"
  proof (cases "bt_get (saved_txs cache) Tx_Round")
    case None
    then obtain hs where hs: "create_round_txhandlers V p round_idx od kw (prev_ready_to_reimburse cache) = Inr hs"
        "m = insert_txs hs (saved_txs cache)"
      using built by (auto simp: collateral_txhandlers_def get_cached_txs_def)
    show ?thesis
      unfolding hs(2) using round_txhandlers_ok [OF laws kw n od prev hs(1)] saved by (intro typed_map_insert_txs) blast+
  next
    case (Some h)
    then show ?thesis using built saved by (simp add: collateral_txhandlers_def get_cached_txs_def)
  qed
qed

lemma next_round_ok:
  fixes K :: party_keys
  assumes laws: "taproot_laws (taproot V)" and kw: "keys_ok p kw" and m: "typed_map V p K F m" and od: "od_xonly_pk od = key_operator K"
    and built: "next_round_txhandler V p od kw round_idx m = Inr h"
  shows "round_layout V p (key_operator K) h"
proof -
  obtain ready txin ks where *: "get_txhandler m Tx_ReadyToReimburse = Inr ready"
      "get_spendable_output ready Vout_CollateralInReadyToReimburse = Inr txin" "get_keys_for_round kw (next_round round_idx) = Inr ks"
      "create_round_txhandler V p (key_operator K) (RoundPrevout txin) ks = Inr h"
    using built od by (auto simp: next_round_txhandler_def)
  from round_layout_built [OF laws prev_round_input_ok [OF typed_map_roles(3) [OF m *(1)] *(2)] *(4) length_round_keys [OF kw *(3)]]
  show ?thesis .
qed

lemma with_move_ok:
  fixes K :: party_keys
  assumes dep: "deposit_ok V p K od d" and F: "deposit_outpoint (deposit d) \<in> F" and m: "typed_map V p K F m"
    and built: "with_move_txhandler V p d m = Inr (m', d')"
  shows "typed_map V p K F m'" "deposit_ok V p K od d'"
proof -
  obtain d1 where nofn: "get_nofn_xonly_pk V d = Inr (key_nofn K, d1)" using dep by (auto simp: deposit_ok_def)
  have "typed_map V p K F m' \<and> deposit_ok V p K od d'"
  proof (cases "bt_get m Tx_MoveToVault")
    case None
    then obtain move where move: "create_move_to_vault_txhandler V p d = Inr (move, d')" "m' = insert_tx move m"
      using built by (auto simp: with_move_txhandler_def)
    have "tx_ok V p K F move"
      using move_typed [OF _ move(1) nofn F] dep parent_types(3) [OF move(1)] by (simp add: deposit_ok_def role_ok_def)
    moreover obtain scripts where "get_deposit_scripts V p d1 = Inr (scripts, d')"
      using move(1) nofn by (auto simp: create_move_to_vault_txhandler_def)
    then have "d' = d1" using get_nofn_again(1) [OF nofn]
      by (auto simp: get_deposit_scripts_def split: deposit_type.splits)
    ultimately show ?thesis
      using dep m move(2) get_nofn_again [OF nofn] by (simp add: typed_map_insert deposit_ok_def)
  next
    case (Some h)
    then show ?thesis using built m dep by (simp add: with_move_txhandler_def)
  qed
  then show "typed_map V p K F m'" "deposit_ok V p K od d'" by simp_all
qed

lemma create_txhandlers_typed:
  fixes A :: creator_api and K :: party_keys
  assumes laws: "taproot_laws (taproot (env A))" and sizes: "bitvm_sizes (sizes A)"
    and small: "num_kickoffs_per_round p < 2 ^ 30" "length (key_watchtowers K) < 2 ^ 30"
    and ctx: "context_ok (env A) K F ctx" and cache: "tx_cache_ok (env A) p K F cache" and c: "db_cache_ok p F c"
    and created: "create_txhandlers A ty ctx cache c = Inr (m, cache', c')"
  shows "(\<forall>(ty, h) \<in> set m. th_type h = ty \<and> handler_typed (env A) K F h) \<and>
    tx_cache_ok (env A) p K F cache' \<and> db_cache_ok p F c'"
proof -
  have p: "rc_paramset c = p" using c by (simp add: db_cache_ok_def)
  obtain od c1 kw c2 m0 where *: "get_operator_data c = Inr (od, c1)" "get_kickoff_winternitz_keys c1 = Inr (kw, c2)"
      "cc_operator_xonly_pk ctx = od_xonly_pk od" "collateral_txhandlers (env A) p (cc_round_idx ctx) od kw cache = Inr (m0, cache')"
    using created unfolding create_txhandlers_def Let_def p by (auto split: if_splits)
  have c1: "db_cache_ok p F c1" and od: "collateral_funding_outpoint od \<in> F" using db_cache_ok_getters(1) [OF c *(1)] by simp_all
  have c2: "db_cache_ok p F c2" and kw: "keys_ok p kw" using db_cache_ok_getters(2) [OF c1 *(2)] by simp_all
  have pk: "od_xonly_pk od = key_operator K" using ctx *(3) by (simp add: context_ok_def)
  note coll = collateral_txhandlers_ok [OF laws kw small(1) pk od cache *(4)]
  have "typed_map (env A) p K F m \<and> db_cache_ok p F c'"
  proof (cases "only_collateral ty")
    case True
    then show ?thesis using created * coll(1) c2 by (simp add: create_txhandlers_def Let_def p)
  next
    case False
    then obtain nr d idx m1 d1 hashes c3 where **: "next_round_txhandler (env A) p od kw (cc_round_idx ctx) m0 = Inr nr"
        "cc_deposit_data ctx = Some d" "with_move_txhandler (env A) p d m0 = Inr (m1, d1)" "get_challenge_ack_hashes c2 = Inr (hashes, c3)"
        "deposit_txhandlers A ty ctx od kw nr
           \<lparr>operator_xonly_pk = cc_operator_xonly_pk ctx, kd_round_idx = cc_round_idx ctx, kickoff_idx = idx\<rparr> d1 hashes m1 c3 = Inr (m, c')"
      using created * unfolding create_txhandlers_def Let_def p by auto
    have dep: "deposit_ok (env A) p K od d" and F: "deposit_outpoint (deposit d) \<in> F"
      using ctx **(2) laws small pk by (auto simp: context_ok_def deposit_ok_def map_sum_def split: sum.splits)
    note move = with_move_ok [OF dep F coll(1) **(3)]
    from deposit_txhandlers_ok [OF move(2,1) db_cache_ok_getters(3) [OF c2 **(4)] sizes kw
        next_round_ok [OF laws kw coll(1) pk **(1)] **(5)]
    show ?thesis by blast
  qed
  then show ?thesis using coll(2) typed_map_set by blast
qed

end
