(* ===== verification/Tx_Success.thy ===== *)
theory Tx_Success
  imports Tx_Creator_Proofs
begin

text \<open>
  The creation of transactions succeeds: with a consistent database, a security council, and a collateral
  that pays for all rounds, \<open>create_txhandlers\<close> returns all transactions of a deposit.
\<close>

section \<open>Building succeeds\<close>

definition succeeds :: "build_step \<Rightarrow> bool" where
  "succeeds f \<longleftrightarrow> (\<forall>b. \<exists>b'. f b = Inr b')"

lemma succeeds_add_in: "r = Inr t \<Longrightarrow> succeeds (add_in i r path sq)"
  by (simp add: succeeds_def add_in_def)

lemma succeeds_add_out: "r = Inr out \<Longrightarrow> succeeds (add_out r)"
  by (simp add: succeeds_def add_out_def)

lemma succeeds_partial [simp]: "succeeds (partial_out out)"
  by (rule succeeds_add_out) simp

lemma build_succeeds:
  assumes "\<forall>f \<in> set steps. succeeds f"
  shows "\<exists>h. build V ty v steps = Inr h"
proof -
  have "\<exists>b'. rfold (\<lambda>f b. f b) steps b = Inr b'" for b
    using assms by (induction steps arbitrary: b) (fastforce simp: succeeds_def)+
  then show ?thesis by (simp add: build_def run_steps_def)
qed

lemma spendable_output_succeeds: "unat (get_vout vout) < length (th_txouts h) \<Longrightarrow> \<exists>t. get_spendable_output h vout = Inr t"
  by (simp add: get_spendable_output_def Let_def)

lemma succeeds_spend: "unat (get_vout vout) < length (th_txouts h) \<Longrightarrow> succeeds (add_in i (get_spendable_output h vout) path sq)"
  using spendable_output_succeeds succeeds_add_in by blast

text \<open>Scripts other than a multisig without keys, and at most three of them.\<close>

fun script_builds :: "spendable_script \<Rightarrow> bool" where
  "script_builds (Multisig pubkeys _) = (pubkeys \<noteq> [])"
| "script_builds _ = True"

lemma script_builds_ok: "script_builds s \<Longrightarrow> \<exists>buf. to_script_buf V s = Inr buf"
  by (cases s) (auto simp: multisig_items_def nth_checked_def neq_Nil_conv)

lemma scripts_succeed:
  assumes "taproot_laws (taproot V)" "length scripts \<le> 3" "\<forall>s \<in> set scripts. script_builds s"
  shows "\<exists>out. taproot_txout V a scripts key net = Inr out"
proof -
  obtain bufs where bufs: "rmap (to_script_buf V) scripts = Inr bufs"
    using rmap_total [of scripts "to_script_buf V"] script_builds_ok assms(3) by blast
  have len: "length bufs \<le> 2 ^ 63" using rmap_eq_Inr_length [OF bufs] assms(2) by simp
  obtain si where "create_taproot_address (taproot V) bufs key net = Inr (p2tr_tweaked (taproot V) (output_key (taproot V) si) net, si)"
    by (rule create_taproot_address_ok [OF assms(1) len])
  then show ?thesis using bufs by (simp add: taproot_txout_def)
qed

lemma unspent_succeeds:
  "taproot_laws (taproot V) \<Longrightarrow> length scripts \<le> 3 \<Longrightarrow> \<forall>s \<in> set scripts. script_builds s \<Longrightarrow>
   \<exists>out. unspent_from_scripts V a scripts key net = Inr out"
  using scripts_succeed [of V scripts a key net] by (auto simp: unspent_from_scripts_def)

lemma spendable_succeeds:
  "taproot_laws (taproot V) \<Longrightarrow> length scripts \<le> 3 \<Longrightarrow> \<forall>s \<in> set scripts. script_builds s \<Longrightarrow>
   \<exists>t. spendable_from_scripts V op a scripts key net = Inr t"
  using scripts_succeed [of V scripts a key net] by (auto simp: spendable_from_scripts_def)

lemma hidden_node_succeeds:
  assumes "taproot_laws (taproot V)" "script_builds s"
  shows "\<exists>out. create_taproot_output_with_hidden_node V s node a net = Inr out"
proof -
  obtain buf where "to_script_buf V s = Inr buf" using script_builds_ok [OF assms(2)] by blast
  then show ?thesis
    by (simp add: create_taproot_output_with_hidden_node_def Let_def add_leaf_def add_hidden_node_def add_node_def
      taproot_lawsD(1,2) [OF assms(1)] tb_finalize_def node_depths_def)
qed

lemma disprove_hidden_succeeds:
  assumes "taproot_laws (taproot V)" "script_builds s"
  shows "\<exists>out. create_disprove_taproot_output V s additional (DisproveHiddenNode root) a net = Inr out"
proof -
  obtain buf where "to_script_buf V s = Inr buf" using script_builds_ok [OF assms(2)] by blast
  then show ?thesis
    by (simp add: create_disprove_taproot_output_def disprove_taptree_def Let_def add_leaf_def add_hidden_node_def add_node_def
      taproot_lawsD(1,2) [OF assms(1)] tb_finalize_def node_depths_def)
qed

section \<open>Amounts of the rounds\<close>

definition round_cost :: "protocol_paramset \<Rightarrow> nat" where
  "round_cost p = (unat (kickoff_amount p) + unat (default_utxo_amount p)) * num_kickoffs_per_round p + unat (anchor_amount p)"

definition collateral_value :: "tx_handler \<Rightarrow> nat" where
  "collateral_value h = unat (txo_value (uo_txout (th_txouts h ! 0)))"

text \<open>Sizes for which the amounts and output numbers of a round do not overflow, and at least one kickoff.\<close>

definition params_ok :: "protocol_paramset \<Rightarrow> bool" where
  "params_ok p \<longleftrightarrow> 0 < num_kickoffs_per_round p \<and> num_kickoffs_per_round p < 2 ^ 30 \<and> round_cost p < 2 ^ 64"

lemma unat_plus_exact: "unat a + unat b < 2 ^ 64 \<Longrightarrow> unat (a + b) = unat a + unat b" for a b :: "64 word"
  by (simp add: unat_word_ariths)

lemma unat_times_exact: "unat a * unat b < 2 ^ 64 \<Longrightarrow> unat (a * b) = unat a * unat b" for a b :: "64 word"
  by (simp add: unat_word_ariths)

lemma unat_minus_exact: "unat b \<le> unat a \<Longrightarrow> unat (a - b) = unat a - unat b" for a b :: "64 word"
  by (simp add: unat_sub word_le_nat_alt)

lemma round_total_required_ok:
  assumes "params_ok p"
  obtains total where "round_total_required p = Inr total" "unat total = round_cost p"
proof -
  define n where "n = num_kickoffs_per_round p"
  let ?k = "kickoff_amount p" and ?d = "default_utxo_amount p" and ?a = "anchor_amount p"
  have n: "0 < n" "n < 2 ^ 30" and cost: "(unat ?k + unat ?d) * n + unat ?a < 2 ^ 64"
    using assms by (simp_all add: params_ok_def round_cost_def n_def)
  have un: "unat (of_nat n :: u64) = n" using n(2) by (simp add: unat_of_nat)
  have "unat ?k + unat ?d \<le> (unat ?k + unat ?d) * n" using n(1) by simp
  then have 1: "unat ?k + unat ?d < 2 ^ 64" using cost by linarith
  have 2: "unat (?k + ?d) * unat (of_nat n :: u64) < 2 ^ 64" using cost by (simp add: unat_plus_exact [OF 1] un)
  have 3: "unat ((?k + ?d) * of_nat n) + unat ?a < 2 ^ 64"
    using cost by (simp only: unat_times_exact [OF 2] unat_plus_exact [OF 1] un)
  show thesis
  proof
    show "round_total_required p = Inr ((?k + ?d) * of_nat n + ?a)"
      using 1 2 3 by (simp add: round_total_required_def amount_add_def amount_checked_add_def amount_checked_mul_def n_def)
    show "unat ((?k + ?d) * of_nat n + ?a) = round_cost p"
      unfolding round_cost_def n_def [symmetric]
      by (simp only: unat_plus_exact [OF 3] unat_times_exact [OF 2] unat_plus_exact [OF 1] un)
  qed
qed

lemma round_value:
  assumes p: "params_ok p" and built: "create_round_txhandler V p op txin ks = Inr h" and laws: "taproot_laws (taproot V)"
  shows "round_cost p \<le> unat (round_input_amount txin)" "collateral_value h = unat (round_input_amount txin) - round_cost p"
proof -
  obtain total where total: "round_total_required p = Inr total" "unat total = round_cost p"
    by (rule round_total_required_ok [OF p])
  have "rmap (\<lambda>r. r) (round_outputs V p op txin ks) = Inr (th_txouts h)"
    using built round_input_add_in [of V p op txin] build_outputs unfolding create_round_txhandler_def by metis
  from rmap_eq_Inr_nth [OF this, of 0] obtain a where a: "amount_checked_sub (round_input_amount txin) total = Some a"
      "unspent_from_scripts V a [] (Some op) (network p) = Inr (th_txouts h ! 0)"
    by (auto simp: round_outputs_def total(1))
  have "txo_value (uo_txout (th_txouts h ! 0)) = a" using scripts_out [OF laws a(2)] by (simp add: taproot_out_def)
  then show "round_cost p \<le> unat (round_input_amount txin)" "collateral_value h = unat (round_input_amount txin) - round_cost p"
    using a(1) total(2) unat_minus_exact [of total "round_input_amount txin"]
    by (auto simp: amount_checked_sub_def collateral_value_def split: if_splits)
qed

lemma round_succeeds:
  assumes laws: "taproot_laws (taproot V)" and p: "params_ok p" and a: "round_cost p \<le> unat (round_input_amount txin)"
  shows "\<exists>h. create_round_txhandler V p op txin ks = Inr h"
proof -
  obtain total where total: "round_total_required p = Inr total" "unat total = round_cost p"
    by (rule round_total_required_ok [OF p])
  obtain si :: spend_info where
      "create_taproot_address (taproot V) [] (Some op) (network p) = Inr (p2tr_tweaked (taproot V) (output_key (taproot V) si) (network p), si)"
    by (rule create_taproot_address_ok [OF laws, of "[]" "Some op"]) simp_all
  then have "succeeds (round_input V p op txin)"
    by (auto simp: round_input_def succeeds_def add_in_def split: round_tx_input.splits)
  moreover have "\<exists>out. r = Inr out" if "r \<in> set (round_outputs V p op txin ks)" for r
  proof -
    have sub: "amount_checked_sub (round_input_amount txin) total = Some (round_input_amount txin - total)"
      using a total(2) by (simp add: amount_checked_sub_def)
    show ?thesis using that unspent_succeeds [OF laws] by (fastforce simp: round_outputs_def total(1) sub)
  qed
  ultimately show ?thesis
    unfolding create_round_txhandler_def by (intro build_succeeds) (auto intro: succeeds_add_out)
qed

lemma ready_succeeds:
  assumes laws: "taproot_laws (taproot V)" and n: "0 < length (th_txouts round)" and a: "unat (anchor_amount p) \<le> collateral_value round"
  obtains h where "create_ready_to_reimburse_txhandler V p round op = Inr h"
    "collateral_value h = collateral_value round - unat (anchor_amount p)"
proof -
  define v where "v = txo_value (uo_txout (th_txouts round ! 0))"
  obtain prev where prev: "get_spendable_output round Vout_CollateralInRound = Inr prev"
    using spendable_output_succeeds [of Vout_CollateralInRound round] n by auto
  have val: "txo_value (prevout prev) = v" by (simp add: get_spendable_output_at(2) [OF prev] v_def)
  have sub: "amount_checked_sub v (anchor_amount p) = Some (v - anchor_amount p)"
    using a by (simp add: amount_checked_sub_def collateral_value_def v_def)
  obtain out where out: "unspent_from_scripts V (v - anchor_amount p) [] (Some op) (network p) = Inr out"
    using unspent_succeeds [OF laws, of "[]" "v - anchor_amount p" "Some op" "network p"] by auto
  have v: "txo_value (uo_txout out) = v - anchor_amount p" using scripts_out [OF laws out] by (simp add: taproot_out_def)
  show thesis
  proof (rule that)
    show "create_ready_to_reimburse_txhandler V p round op = Inr (finalize_tx V
        (add_output (unspent_from_partial (anchor_output (anchor_amount p))) (add_output out
          (add_input (normal_sig Sig_OperatorSighashDefault) prev KeySpend DEFAULT_SEQUENCE
            (with_version NON_STANDARD_V3 (builder_new Tx_ReadyToReimburse))))))" (is "_ = Inr ?h")
      by (simp add: create_ready_to_reimburse_txhandler_def prev val sub out build_def add_in_def add_out_def)
    show "collateral_value ?h = collateral_value round - unat (anchor_amount p)"
      using a unat_minus_exact [of "anchor_amount p" v] by (simp add: collateral_value_def v v_def)
  qed
qed

section \<open>Rounds\<close>

text \<open>
  One round from the ready-to-reimburse transaction of the previous one: the body of the loop of
  \<open>create_round_nth_txhandler\<close>, and the branch of \<open>create_round_txhandlers\<close> that starts from the cache.
\<close>

definition round_step :: "bitcoin_env \<Rightarrow> protocol_paramset \<Rightarrow> bytes \<Rightarrow> kickoff_winternitz_keys \<Rightarrow> round_index \<Rightarrow> tx_handler
  \<Rightarrow> (tx_handler \<times> tx_handler) result" where
  "round_step V p op kw r ready =
     rbind (get_spendable_output ready Vout_CollateralInReadyToReimburse) (\<lambda>prev.
     rbind (get_keys_for_round kw r) (\<lambda>keys.
     rbind (create_round_txhandler V p op (RoundPrevout prev) keys) (\<lambda>round'.
     rbind (create_ready_to_reimburse_txhandler V p round' op) (\<lambda>ready'.
     Inr (round', ready')))))"

lemma rfold_single: "rfold f [x] = f x"
proof
  show "rfold f [x] s = f x s" for s by (cases "f x s") simp_all
qed

lemma round_nth_Suc:
  assumes "Suc i \<le> num_round_txs p"
  shows "create_round_nth_txhandler V p op outpoint a (Round (Suc i)) kw =
    rbind (create_round_nth_txhandler V p op outpoint a (Round i) kw) (\<lambda>rs. round_step V p op kw (Round (Suc i)) (snd rs))"
proof -
  have range: "iter_rounds_range (Suc 0) (Suc (Suc i)) = iter_rounds_range (Suc 0) (Suc i) @ [Round (Suc i)]" by (simp add: iter_rounds_range_def)
  show ?thesis
    using assms
    by (simp add: create_round_nth_txhandler_def range rfold_append rfold_single rbind_assoc round_step_def case_prod_unfold)
qed

text \<open>What a round takes from the collateral: its kickoffs, its anchor, and the anchor of the ready transaction.\<close>

definition round_price :: "protocol_paramset \<Rightarrow> nat" where
  "round_price p = round_cost p + unat (anchor_amount p)"

lemma ready_value:
  assumes laws: "taproot_laws (taproot V)" and built: "create_ready_to_reimburse_txhandler V p round op = Inr h"
  shows "unat (anchor_amount p) \<le> collateral_value round" "collateral_value h = collateral_value round - unat (anchor_amount p)"
    "0 < length (th_txouts h)"
proof -
  obtain prev a out where *: "get_spendable_output round Vout_CollateralInRound = Inr prev"
      "amount_checked_sub (txo_value (prevout prev)) (anchor_amount p) = Some a"
      "unspent_from_scripts V a [] (Some op) (network p) = Inr out" "th_txouts h ! 0 = out" "0 < length (th_txouts h)"
    using built by (auto simp: create_ready_to_reimburse_txhandler_def build_def add_in_def add_out_def)
  have v: "txo_value (prevout prev) = txo_value (uo_txout (th_txouts round ! 0))" by (simp add: get_spendable_output_at(2) [OF *(1)])
  have "txo_value (uo_txout out) = a" using scripts_out [OF laws *(3)] by (simp add: taproot_out_def)
  then show "unat (anchor_amount p) \<le> collateral_value round" "collateral_value h = collateral_value round - unat (anchor_amount p)"
    using *(2,4) v unat_minus_exact [of "anchor_amount p" "txo_value (prevout prev)"]
    by (auto simp: amount_checked_sub_def collateral_value_def split: if_splits)
  show "0 < length (th_txouts h)" by (rule *(5))
qed

lemma round_outputs_nonempty: "create_round_txhandler V p op txin ks = Inr h \<Longrightarrow> 0 < length (th_txouts h)"
proof -
  assume "create_round_txhandler V p op txin ks = Inr h"
  then have "rmap (\<lambda>r. r) (round_outputs V p op txin ks) = Inr (th_txouts h)"
    using round_input_add_in [of V p op txin] build_outputs unfolding create_round_txhandler_def by metis
  from rmap_eq_Inr_length [OF this] show ?thesis by (simp add: round_outputs_def)
qed

lemma round_and_ready:
  assumes laws: "taproot_laws (taproot V)" and p: "params_ok p"
  shows "(\<exists>round ready. create_round_txhandler V p op txin ks = Inr round \<and> create_ready_to_reimburse_txhandler V p round op = Inr ready)
     \<longleftrightarrow> round_price p \<le> unat (round_input_amount txin)"
proof
  assume "round_price p \<le> unat (round_input_amount txin)"
  then have a: "round_cost p \<le> unat (round_input_amount txin)"
    "unat (anchor_amount p) \<le> unat (round_input_amount txin) - round_cost p" by (simp_all add: round_price_def)
  obtain round where round: "create_round_txhandler V p op txin ks = Inr round" using round_succeeds [OF laws p a(1)] by blast
  have "unat (anchor_amount p) \<le> collateral_value round" using a(2) round_value(2) [OF p round laws] by simp
  with ready_succeeds [OF laws round_outputs_nonempty [OF round]] round
  show "\<exists>round ready. create_round_txhandler V p op txin ks = Inr round \<and> create_ready_to_reimburse_txhandler V p round op = Inr ready"
    by blast
next
  assume "\<exists>round ready. create_round_txhandler V p op txin ks = Inr round \<and> create_ready_to_reimburse_txhandler V p round op = Inr ready"
  then obtain round ready where "create_round_txhandler V p op txin ks = Inr round" "create_ready_to_reimburse_txhandler V p round op = Inr ready"
    by blast
  from round_value [OF p this(1) laws] ready_value(1) [OF laws this(2)]
  show "round_price p \<le> unat (round_input_amount txin)" by (simp add: round_price_def)
qed

lemma round_and_ready_value:
  assumes "taproot_laws (taproot V)" "params_ok p" "create_round_txhandler V p op txin ks = Inr round"
    "create_ready_to_reimburse_txhandler V p round op = Inr ready"
  shows "collateral_value ready = unat (round_input_amount txin) - round_price p"
  using round_value(2) [OF assms(2,3,1)] ready_value(2) [OF assms(1,4)] by (simp add: round_price_def)

lemma round_keys_succeed: "keys_ok p kw \<Longrightarrow> i \<le> num_round_txs p \<Longrightarrow> \<exists>ks. get_keys_for_round kw (Round i) = Inr ks"
proof -
  assume kw: "keys_ok p kw" and i: "i \<le> num_round_txs p"
  then have "i * num_kickoffs_per_round p + num_kickoffs_per_round p \<le> length (kw_keys kw)"
    by (metis keys_ok_def Suc_eq_plus1 Suc_le_mono add.commute mult.commute mult_Suc mult_le_mono2)
  then show ?thesis using kw i by (simp add: get_keys_for_round_def keys_ok_def Let_def)
qed

lemma round_nth_zero:
  "create_round_nth_txhandler V p op outpoint a (Round 0) kw =
     rbind (get_keys_for_round kw (Round 0)) (\<lambda>keys.
     rbind (create_round_txhandler V p op (RoundCollateral outpoint a) keys) (\<lambda>round.
     rbind (create_ready_to_reimburse_txhandler V p round op) (\<lambda>ready. Inr (round, ready))))"
  by (simp add: create_round_nth_txhandler_def iter_rounds_range_def)

lemma ready_spendable:
  assumes "0 < length (th_txouts ready)"
  obtains prev where "get_spendable_output ready Vout_CollateralInReadyToReimburse = Inr prev"
    "unat (txo_value (prevout prev)) = collateral_value ready"
proof -
  obtain prev where prev: "get_spendable_output ready Vout_CollateralInReadyToReimburse = Inr prev"
    using spendable_output_succeeds [of Vout_CollateralInReadyToReimburse ready] assms by auto
  with that show thesis by (simp add: get_spendable_output_at(2) [OF prev] collateral_value_def)
qed

lemma round_step_exact:
  assumes laws: "taproot_laws (taproot V)" and p: "params_ok p" and kw: "keys_ok p kw" and i: "i \<le> num_round_txs p"
    and ready: "0 < length (th_txouts ready)"
  shows "(\<exists>rs. round_step V p op kw (Round i) ready = Inr rs) \<longleftrightarrow> round_price p \<le> collateral_value ready"
    and "round_step V p op kw (Round i) ready = Inr rs \<Longrightarrow>
      collateral_value (snd rs) = collateral_value ready - round_price p \<and> 0 < length (th_txouts (snd rs))"
proof -
  obtain prev where prev: "get_spendable_output ready Vout_CollateralInReadyToReimburse = Inr prev"
      "unat (txo_value (prevout prev)) = collateral_value ready"
    by (rule ready_spendable [OF ready])
  obtain ks where ks: "get_keys_for_round kw (Round i) = Inr ks" using round_keys_succeed [OF kw i] by blast
  show "(\<exists>rs. round_step V p op kw (Round i) ready = Inr rs) \<longleftrightarrow> round_price p \<le> collateral_value ready"
    using round_and_ready [OF laws p, of op "RoundPrevout prev" ks] prev(2) by (simp add: round_step_def prev(1) ks)
  show "collateral_value (snd rs) = collateral_value ready - round_price p \<and> 0 < length (th_txouts (snd rs))"
    if "round_step V p op kw (Round i) ready = Inr rs"
    using that round_and_ready_value [OF laws p, of op "RoundPrevout prev" ks] ready_value(3) [OF laws] prev(2)
    by (auto simp: round_step_def prev(1) ks)
qed

lemma round_nth_exact:
  assumes laws: "taproot_laws (taproot V)" and p: "params_ok p" and kw: "keys_ok p kw" and i: "i \<le> num_round_txs p"
  shows "((\<exists>rs. create_round_nth_txhandler V p op outpoint a (Round i) kw = Inr rs) \<longleftrightarrow> Suc i * round_price p \<le> unat a) \<and>
    (\<forall>rs. create_round_nth_txhandler V p op outpoint a (Round i) kw = Inr rs \<longrightarrow>
       collateral_value (snd rs) = unat a - Suc i * round_price p \<and> 0 < length (th_txouts (snd rs)))"
  using i
proof (induction i)
  case 0
  obtain ks where ks: "get_keys_for_round kw (Round 0) = Inr ks" using round_keys_succeed [OF kw, of 0] by auto
  show ?case
    using round_and_ready [OF laws p, of op "RoundCollateral outpoint a" ks]
      round_and_ready_value [OF laws p, of op "RoundCollateral outpoint a" ks] ready_value(3) [OF laws]
    by (auto simp: round_nth_zero ks)
next
  case (Suc i)
  let ?prev = "create_round_nth_txhandler V p op outpoint a (Round i) kw"
  note step = round_step_exact [OF laws p kw Suc.prems]
  show ?case
  proof (cases ?prev)
    case (Inl e)
    then have "\<not> Suc i * round_price p \<le> unat a" using Suc by simp
    then show ?thesis using Inl by (simp add: round_nth_Suc [OF Suc.prems])
  next
    case (Inr rs)
    then have *: "Suc i * round_price p \<le> unat a" "collateral_value (snd rs) = unat a - Suc i * round_price p"
        "0 < length (th_txouts (snd rs))" using Suc by auto
    show ?thesis using step [OF *(3)] *(1,2) Inr by (simp add: round_nth_Suc [OF Suc.prems]) linarith
  qed
qed

end
