(* ===== verification/Creation_Succeeds.thy ===== *)
theory Creation_Succeeds
  imports Tx_Success
begin

text \<open>
  The creation of the transactions of a deposit succeeds: with a database that holds the data of the
  operator and of the deposit, a collateral that pays for the rounds up to the next one, and a deposit
  whose keys aggregate, \<open>create_txhandlers\<close> returns all transactions needed for a deposit.
\<close>

section \<open>Transactions that spend a kickoff\<close>

lemma kickoff_length:
  "kickoff_layout V p K c k \<Longrightarrow> length (th_txouts k) = 43 + 2 * length (key_watchtowers K)"
  by (simp add: kickoff_layout_def Let_def NUMBER_OF_ASSERT_TXS_def)

lemma kickoff_children_succeed:
  fixes K :: party_keys
  assumes k: "kickoff_layout V p K c k"
  shows "\<exists>h. create_challenge_txhandler V p k addr evm = Inr h"
    and "\<exists>h. create_challenge_timeout_txhandler V p k = Inr h"
    and "\<exists>h. create_disprove_timeout_txhandler V p k = Inr h"
    and "0 < length (th_txouts r) \<Longrightarrow> \<exists>h. create_kickoff_not_finalized_txhandler V p k r = Inr h"
    and "0 < length (th_txouts r) \<Longrightarrow> \<exists>h. create_latest_blockhash_timeout_txhandler V p k r = Inr h"
    and "0 < length (th_txouts r) \<Longrightarrow> \<exists>h. create_disprove_txhandler V k r = Inr h"
  unfolding create_challenge_txhandler_def create_challenge_timeout_txhandler_def create_disprove_timeout_txhandler_def
    create_kickoff_not_finalized_txhandler_def create_latest_blockhash_timeout_txhandler_def create_disprove_txhandler_def
  by (rule build_succeeds; auto simp: kickoff_length [OF k] intro!: succeeds_spend split: option.splits)+

lemma watchtower_children_succeed:
  fixes K :: party_keys
  assumes k: "kickoff_layout V p K c k" and n: "length (key_watchtowers K) < 2 ^ 30" and j: "j < length (key_watchtowers K)"
  shows "\<exists>h. create_watchtower_challenge_timeout_txhandler V p k j = Inr h"
    and "\<exists>h. create_operator_challenge_ack_txhandler V p k j = Inr h"
    and "0 < length (th_txouts r) \<Longrightarrow> \<exists>h. create_operator_challenge_nack_txhandler V p k j r = Inr h"
proof -
  have v: "unat (get_vout (Vout_WatchtowerChallenge j)) < length (th_txouts k)"
      "unat (get_vout (Vout_WatchtowerChallengeAck j)) < length (th_txouts k)"
    using j n by (simp_all only: kickoff_length [OF k] vout_values NUMBER_OF_ASSERT_TXS_def)
  note spends = succeeds_spend [OF v(1)] succeeds_spend [OF v(2)]
  show "\<exists>h. create_watchtower_challenge_timeout_txhandler V p k j = Inr h"
    unfolding create_watchtower_challenge_timeout_txhandler_def by (rule build_succeeds) (simp add: spends)
  show "\<exists>h. create_operator_challenge_ack_txhandler V p k j = Inr h"
    unfolding create_operator_challenge_ack_txhandler_def by (rule build_succeeds) (simp add: spends)
  show "\<exists>h. create_operator_challenge_nack_txhandler V p k j r = Inr h" if "0 < length (th_txouts r)"
    unfolding create_operator_challenge_nack_txhandler_def
    by (rule build_succeeds) (use that in \<open>auto simp: spends kickoff_length [OF k] intro!: succeeds_spend\<close>)
qed

lemma assert_timeouts_succeed:
  fixes K :: party_keys
  assumes k: "kickoff_layout V p K c k" and r: "0 < length (th_txouts r)"
  shows "\<exists>hs. create_assert_timeout_txhandlers V p k r number_of_assert_txs = Inr hs"
  unfolding create_assert_timeout_txhandlers_def
proof (rule rmap_total)
  fix i assume "i \<in> set [0..<number_of_assert_txs]"
  then have i: "i < 36" by (simp add: number_of_assert_txs_def NUMBER_OF_ASSERT_TXS_def)
  have v: "unat (get_vout (Vout_Assert i)) < length (th_txouts k)"
    using i vout_values(1) [of i] by (simp add: kickoff_length [OF k] del: get_vout.simps)
  show "\<exists>h. build V (Tx_AssertTimeout i) NON_STANDARD_V3
       [add_in (numbered_sig NSig_AssertTimeout1 (of_nat i)) (get_spendable_output k (Vout_Assert i))
          (ScriptSpend 0) (from_height (assert_timeout_timelock p)),
        add_in (numbered_sig NSig_AssertTimeout2 (of_nat i)) (get_spendable_output k Vout_KickoffFinalizer)
          (ScriptSpend 0) DEFAULT_SEQUENCE,
        add_in (numbered_sig NSig_AssertTimeout3 (of_nat i)) (get_spendable_output r Vout_CollateralInRound)
          KeySpend DEFAULT_SEQUENCE,
        partial_out (anchor_output (anchor_amount p))] = Inr h"
    by (rule build_succeeds) (use r in \<open>auto simp: succeeds_spend [OF v] kickoff_length [OF k] intro!: succeeds_spend\<close>)
qed

lemma reimburse_succeeds:
  fixes K :: party_keys
  assumes k: "kickoff_layout V p K c k" and move: "move_layout V p nofn move" and nr: "round_layout V p op nr"
    and n: "num_kickoffs_per_round p < 2 ^ 30" and j: "j < num_kickoffs_per_round p"
  shows "\<exists>h. create_reimburse_txhandler V p move nr k j addr = Inr h"
proof -
  have v: "unat (get_vout (Vout_ReimburseInRound j (num_kickoffs_per_round p))) < length (th_txouts nr)"
    using nr n j by (simp add: vout_values round_layout_def del: get_vout.simps)
  have m: "unat (get_vout Vout_DepositInMove) < length (th_txouts move)" using move by (simp add: move_layout_def)
  obtain t where t: "get_spendable_output move Vout_DepositInMove = Inr t" using spendable_output_succeeds [OF m] by blast
  show ?thesis
    unfolding create_reimburse_txhandler_def
    by (rule build_succeeds)
      (auto simp: succeeds_spend [OF v] succeeds_add_in t kickoff_length [OF k] intro!: succeeds_spend succeeds_add_out)
qed

section \<open>Steps\<close>

definition present :: "tx_map \<Rightarrow> bool" where
  "present m \<longleftrightarrow> bt_get m Tx_Kickoff \<noteq> None \<and> bt_get m Tx_Round \<noteq> None \<and> bt_get m Tx_ReadyToReimburse \<noteq> None \<and>
     bt_get m Tx_MoveToVault \<noteq> None"

definition step_runs :: "bitcoin_env \<Rightarrow> protocol_paramset \<Rightarrow> party_keys \<Rightarrow> out_point set \<Rightarrow> create_step \<Rightarrow> bool" where
  "step_runs V p K F f \<longleftrightarrow> (\<forall>m. typed_map V p K F m \<longrightarrow> present m \<longrightarrow> (\<exists>m'. f m = Inr m' \<and> present m'))"

lemma present_insert: "bt_sorted m \<Longrightarrow> present m \<Longrightarrow> present (insert_tx h m)"
  by (simp add: present_def bt.lookup_upd)

lemma present_insert_txs: "bt_sorted m \<Longrightarrow> present m \<Longrightarrow> present (insert_txs hs m)"
  by (induction hs arbitrary: m) (simp_all add: present_insert bt.invar_upd)

lemma typed_map_sorted: "typed_map V p K F m \<Longrightarrow> bt_sorted m"
  by (simp add: typed_map_def)

lemma ins_runs: "(\<And>m. typed_map V p K F m \<Longrightarrow> present m \<Longrightarrow> \<exists>h. mk m = Inr h) \<Longrightarrow> step_runs V p K F (ins mk)"
  by (fastforce simp: step_runs_def ins_def intro: present_insert typed_map_sorted)

lemma ins_all_runs: "(\<And>m. typed_map V p K F m \<Longrightarrow> present m \<Longrightarrow> \<exists>hs. mk m = Inr hs) \<Longrightarrow> step_runs V p K F (ins_all mk)"
  by (fastforce simp: step_runs_def ins_all_def intro: present_insert_txs typed_map_sorted)

lemma present_parents:
  fixes K :: party_keys
  assumes m: "typed_map V p K F m" and present: "present m"
  obtains k r ready move where "get_txhandler m Tx_Kickoff = Inr k" "kickoff_layout V p K False k"
    "get_txhandler m Tx_Round = Inr r" "0 < length (th_txouts r)"
    "get_txhandler m Tx_ReadyToReimburse = Inr ready" "0 < length (th_txouts ready)"
    "get_txhandler m Tx_MoveToVault = Inr move" "move_layout V p (key_nofn K) move"
proof -
  obtain k r ready move where *: "get_txhandler m Tx_Kickoff = Inr k" "get_txhandler m Tx_Round = Inr r"
      "get_txhandler m Tx_ReadyToReimburse = Inr ready" "get_txhandler m Tx_MoveToVault = Inr move"
    using present by (auto simp: present_def get_txhandler_def)
  from that * typed_map_roles(5) [OF m *(1)] typed_map_roles(2) [OF m *(2)] typed_map_roles(3) [OF m *(3)] typed_map_roles(4) [OF m *(4)]
  show thesis unfolding collateral_at_def by blast
qed

lemma watchtower_steps_run:
  fixes K :: party_keys
  assumes n: "length (key_watchtowers K) < 2 ^ 30" and i: "i < length (key_watchtowers K)"
    and f: "f \<in> set (watchtower_steps V p i)"
  shows "step_runs V p K F f"
proof -
  have "\<exists>h. with_tx Tx_Kickoff (\<lambda>k. create_watchtower_challenge_timeout_txhandler V p k i) m = Inr h"
      "\<exists>h. with_txs Tx_Kickoff Tx_Round (\<lambda>k r. create_operator_challenge_nack_txhandler V p k i r) m = Inr h"
      "\<exists>h. with_tx Tx_Kickoff (\<lambda>k. create_operator_challenge_ack_txhandler V p k i) m = Inr h"
    if m: "typed_map V p K F m" "present m" for m
    by (rule present_parents [OF m], simp add: with_tx_def with_txs_def watchtower_children_succeed [OF _ n i])+
  then show ?thesis using f by (auto simp: watchtower_steps_def intro!: ins_runs)
qed

lemma remaining_steps_run:
  fixes K :: party_keys
  assumes n: "num_kickoffs_per_round p < 2 ^ 30" "length (key_watchtowers K) < 2 ^ 30" "j < num_kickoffs_per_round p"
    and nr: "round_layout V p (key_operator K) nr" and ty: "\<forall>i. ty \<noteq> Tx_WatchtowerChallenge i"
    and f: "f \<in> set (remaining_steps V p ty od evm nr (length (key_watchtowers K)) j)"
  shows "step_runs V p K F f"
proof -
  have "\<exists>h. with_tx Tx_Kickoff (\<lambda>k. create_challenge_txhandler V p k (reimburse_addr od) evm) m = Inr h"
      "\<exists>h. with_tx Tx_Kickoff (create_challenge_timeout_txhandler V p) m = Inr h"
      "\<exists>h. with_txs Tx_Kickoff Tx_ReadyToReimburse (create_kickoff_not_finalized_txhandler V p) m = Inr h"
      "\<exists>h. with_txs Tx_Kickoff Tx_Round (create_latest_blockhash_timeout_txhandler V p) m = Inr h"
      "\<exists>hs. with_txs Tx_Kickoff Tx_Round (\<lambda>k r. create_assert_timeout_txhandlers V p k r number_of_assert_txs) m = Inr hs"
      "\<exists>h. with_tx Tx_Kickoff (create_disprove_timeout_txhandler V p) m = Inr h"
      "\<exists>h. with_txs Tx_MoveToVault Tx_Kickoff (\<lambda>move k. create_reimburse_txhandler V p move nr k j (reimburse_addr od)) m = Inr h"
      "\<exists>h. with_txs Tx_Kickoff Tx_Round (create_disprove_txhandler V) m = Inr h"
    if m: "typed_map V p K F m" "present m" for m
    by (rule present_parents [OF m],
        simp add: with_tx_def with_txs_def kickoff_children_succeed assert_timeouts_succeed reimburse_succeeds [OF _ _ nr n(1,3)])+
  moreover have "step_runs V p K F (\<lambda>m. case ty of
      Tx_WatchtowerChallenge _ \<Rightarrow>
        Inl (Err ''Can't directly create a watchtower challenge in create_txhandlers as it needs commit data'')
    | _ \<Rightarrow> Inr m)"
    using ty by (auto simp: step_runs_def split: transaction_type.splits)
  ultimately show ?thesis
    using f watchtower_steps_run [OF n(2)] unfolding remaining_steps_def set_append Un_iff list.set insert_iff
    by (elim disjE) (auto split: if_splits intro!: ins_runs ins_all_runs)
qed

lemma steps_run:
  assumes "\<forall>f \<in> set fs. create_step_typed V p K F f \<and> step_runs V p K F f" "typed_map V p K F m" "present m"
  shows "\<exists>m'. rfold (\<lambda>f m. f m) fs m = Inr m'"
  using assms
proof (induction fs arbitrary: m)
  case Nil
  then show ?case by simp
next
  case (Cons f fs)
  then obtain m1 where m1: "f m = Inr m1" "present m1" "typed_map V p K F m1"
    unfolding step_runs_def create_step_typed_def by (metis list.set_intros(1))
  with Cons show ?case by simp
qed

section \<open>Kickoff, move and unspent kickoffs\<close>

text \<open>
  What a deposit and its parameters need: ids of 32 bytes, an aggregated key, a security council, a
  recovery address with a taproot key, and amounts that do not overflow.
\<close>

definition deposit_builds :: "bitcoin_env \<Rightarrow> protocol_paramset \<Rightarrow> deposit_data \<Rightarrow> bool" where
  "deposit_builds V p d \<longleftrightarrow> taproot_laws (taproot V) \<and> params_ok p \<and> (\<forall>tx. length (compute_txid (btc V) tx) = 32) \<and>
     2 * unat (default_utxo_amount p) + unat (anchor_amount p) < 2 ^ 64 \<and>
     council_pks (dep_security_council d) \<noteq> [] \<and> (\<exists>nofn d'. get_nofn_xonly_pk V d = Inr (nofn, d')) \<and>
     (\<forall>evm recovery. dep_type (deposit d) = BaseDeposit evm recovery \<longrightarrow> (\<exists>pk. recovery_taproot_pk V recovery = Inr pk))"

lemma multisig_builds: "council_pks council \<noteq> [] \<Longrightarrow> script_builds (multisig_from_security_council council)"
  by (simp add: multisig_from_security_council_def)

lemma nofn_keeps: "get_nofn_xonly_pk V d = Inr (nofn, d') \<Longrightarrow> dep_security_council d' = dep_security_council d"
  by (auto simp: get_nofn_xonly_pk_def split: option.splits)

lemma move_succeeds:
  assumes d: "deposit_builds V p d"
  shows "\<exists>h d'. create_move_to_vault_txhandler V p d = Inr (h, d')"
proof -
  have laws: "taproot_laws (taproot V)" and council: "council_pks (dep_security_council d) \<noteq> []" using d by (simp_all add: deposit_builds_def)
  obtain nofn d1 where nofn: "get_nofn_xonly_pk V d = Inr (nofn, d1)" using d by (auto simp: deposit_builds_def)
  obtain scripts where scripts: "get_deposit_scripts V p d1 = Inr (scripts, d1)" "length scripts \<le> 3" "\<forall>s \<in> set scripts. script_builds s"
    using d get_nofn_again [OF nofn] multisig_builds [OF council] nofn_keeps [OF nofn]
    by (cases "dep_type (deposit d)") (auto simp: deposit_builds_def get_deposit_scripts_def)
  obtain t where t: "spendable_from_scripts V (deposit_outpoint (deposit d)) (bridge_amount p) scripts None (network p) = Inr t"
    using spendable_succeeds [OF laws scripts(2,3)] by blast
  obtain out where out: "unspent_from_scripts V (bridge_amount p)
      [CheckSig nofn, multisig_from_security_council (dep_security_council d)] None (network p) = Inr out"
    using unspent_succeeds [OF laws, of "[CheckSig nofn, multisig_from_security_council (dep_security_council d)]"
        "bridge_amount p" None "network p"] multisig_builds [OF council] by auto
  show ?thesis by (simp add: create_move_to_vault_txhandler_def nofn scripts(1) t out build_def add_in_def add_out_def)
qed

lemma watchtower_output_key_succeeds:
  assumes "taproot_laws (taproot V)"
  shows "\<exists>key. watchtower_output_key V p nofn pk = Inr key"
  by (simp add: watchtower_output_key_def add_leaf_def add_node_def taproot_lawsD(1,2) [OF assms] tb_finalize_def node_depths_def)

lemma watchtower_challenge_output_succeeds:
  assumes "taproot_laws (taproot V)" "2 * unat (default_utxo_amount p) + unat (anchor_amount p) < 2 ^ 64"
  shows "\<exists>out. watchtower_challenge_output V p nofn pk = Inr out"
proof -
  obtain a where "rbind (amount_mul (default_utxo_amount p) 2) (\<lambda>twice. amount_add twice (anchor_amount p)) = Inr a"
    using assms(2) unat_times_exact [of "default_utxo_amount p" 2]
    by (simp add: amount_mul_def amount_checked_mul_def amount_add_def amount_checked_add_def)
  then show ?thesis
    using unspent_succeeds [OF assms(1), of "[TimelockScript (Some nofn) (watchtower_challenge_timeout_timelock p)]" a "Some pk" "network p"]
    by (auto simp: watchtower_challenge_output_def)
qed

lemma watchtower_ack_output_succeeds:
  assumes "taproot_laws (taproot V)" "i < length hashes"
  shows "\<exists>out. watchtower_ack_output V p nofn op hashes i = Inr out"
  using unspent_succeeds [OF assms(1), of "[TimelockScript (Some nofn) (operator_challenge_nack_timelock p),
      TimelockScript (Some nofn) (watchtower_challenge_timeout_timelock p), PreimageRevealScript op (hashes ! i)]"
      "default_utxo_amount p" None "network p"] assms(2)
  by (auto simp: watchtower_ack_output_def nth_checked_def)

lemma kickoff_outputs_succeed:
  assumes laws: "taproot_laws (taproot V)" and amounts: "2 * unat (default_utxo_amount p) + unat (anchor_amount p) < 2 ^ 64"
    and hashes: "length hashes = length wts" and data: "length data < 2 ^ 32"
    and r: "r \<in> set (kickoff_outputs V p nofn op wts (AssertScriptTapNodeHash addrs) (DisproveHiddenNode root) extra
       (AssertScriptTapNodeHash [blockhash]) hashes data)"
  shows "\<exists>out. r = Inr out"
proof -
  let ?d = "default_utxo_amount p" and ?net = "network p"
  have fixed: "\<exists>out. unspent_from_scripts V ?d [CheckSig op, TimelockScript (Some op) (operator_challenge_timeout_timelock p)] None ?net = Inr out"
      "\<exists>out. unspent_from_scripts V ?d [CheckSig nofn] None ?net = Inr out"
    using unspent_succeeds [OF laws] by simp_all
  have hidden: "\<exists>out. create_taproot_output_with_hidden_node V (TimelockScript (Some nofn) t) node ?d ?net = Inr out" for t node
    by (rule hidden_node_succeeds [OF laws]) simp
  have disprove: "\<exists>out. create_disprove_taproot_output V (TimelockScript (Some op) t) extra (DisproveHiddenNode root) ?d ?net = Inr out" for t
    by (rule disprove_hidden_succeeds [OF laws]) simp
  have pair: "\<exists>out. r = Inr out" if "r \<in> set (concat (map (\<lambda>(i, pk). [watchtower_challenge_output V p nofn pk,
      watchtower_ack_output V p nofn op hashes i]) (List.enumerate 0 wts)))"
    using that hashes watchtower_challenge_output_succeeds [OF laws amounts] watchtower_ack_output_succeeds [OF laws]
    by (fastforce simp: in_set_enumerate_eq)
  from r show ?thesis unfolding kickoff_outputs_def set_append Un_iff
  proof (elim disjE)
    assume "r \<in> set (assert_outputs V p nofn (AssertScriptTapNodeHash addrs))"
    then show ?thesis using hidden by (auto simp: assert_outputs_def)
  qed (use fixed hidden disprove pair data in \<open>auto simp: latest_blockhash_output_def push_bytes_try_from_def\<close>)
qed

lemma kickoff_succeeds:
  fixes K :: party_keys
  assumes d: "deposit_builds V p d" and round: "round_layout V p op round" and n: "unat (kickoff_idx kd) < num_kickoffs_per_round p"
    and hashes: "length hashes = get_num_watchtowers d" and move: "handler_wf V move" and pk: "length (operator_xonly_pk kd) = 32"
  shows "\<exists>k d'. create_kickoff_txhandler V p kd round move d op (AssertScriptTapNodeHash addrs) (DisproveHiddenNode root) extra
     (AssertScriptTapNodeHash [blockhash]) hashes = Inr (k, d')"
proof -
  have D: "taproot_laws (taproot V)" "2 * unat (default_utxo_amount p) + unat (anchor_amount p) < 2 ^ 64" "num_kickoffs_per_round p < 2 ^ 30"
      "length (cached_txid move) = 32" using d move by (simp_all add: deposit_builds_def params_ok_def handler_wf_def)
  obtain nofn d1 where nofn: "get_nofn_xonly_pk V d = Inr (nofn, d1)" using d by (auto simp: deposit_builds_def)
  have v: "unat (get_vout (Vout_Kickoff (unat (kickoff_idx kd)))) < length (th_txouts round)"
    using round n D(3) by (simp add: vout_values round_layout_def del: get_vout.simps)
  obtain t where t: "get_spendable_output round (Vout_Kickoff (unat (kickoff_idx kd))) = Inr t" using spendable_output_succeeds [OF v] by blast
  have "\<exists>h. build V Tx_Kickoff NON_STANDARD_V3
       (add_in (normal_sig Sig_OperatorSighashDefault) (Inr t) (ScriptSpend 0) DEFAULT_SEQUENCE
        # map add_out (kickoff_outputs V p nofn op (get_watchtowers V d) (AssertScriptTapNodeHash addrs) (DisproveHiddenNode root) extra
            (AssertScriptTapNodeHash [blockhash]) hashes (cached_txid move @ operator_xonly_pk kd))) = Inr h"
  proof (rule build_succeeds)
    have wts: "length hashes = length (get_watchtowers V d)" using hashes length_get_watchtowers [of V d] by simp
    have data: "length (cached_txid move @ operator_xonly_pk kd) < 2 ^ 32" using D(4) pk by simp
    have "succeeds (add_out r)" if "r \<in> set (kickoff_outputs V p nofn op (get_watchtowers V d) (AssertScriptTapNodeHash addrs)
        (DisproveHiddenNode root) extra (AssertScriptTapNodeHash [blockhash]) hashes (cached_txid move @ operator_xonly_pk kd))" for r
      using kickoff_outputs_succeed [OF D(1,2) wts data that] succeeds_add_out by blast
    then show "\<forall>f \<in> set (add_in (normal_sig Sig_OperatorSighashDefault) (Inr t) (ScriptSpend 0) DEFAULT_SEQUENCE
        # map add_out (kickoff_outputs V p nofn op (get_watchtowers V d) (AssertScriptTapNodeHash addrs) (DisproveHiddenNode root) extra
            (AssertScriptTapNodeHash [blockhash]) hashes (cached_txid move @ operator_xonly_pk kd))). succeeds f"
      unfolding list.set set_map by (blast intro: succeeds_add_in)
  qed
  then show ?thesis by (auto simp: create_kickoff_txhandler_def t nofn)
qed

lemma unspent_kickoffs_succeed:
  assumes round: "round_layout V p op round" and ready: "0 < length (th_txouts ready)" and n: "num_kickoffs_per_round p < 2 ^ 30"
  shows "\<exists>hs. create_unspent_kickoff_txhandlers V p round ready = Inr hs"
  unfolding create_unspent_kickoff_txhandlers_def
proof (rule rmap_total)
  fix i assume "i \<in> set [0..<num_kickoffs_per_round p]"
  then have v: "unat (get_vout (Vout_Kickoff i)) < length (th_txouts round)"
    using round n by (simp add: vout_values round_layout_def del: get_vout.simps)
  show "\<exists>h. build V (Tx_UnspentKickoff i) NON_STANDARD_V3
       [add_in (numbered_sig NSig_UnspentKickoff1 (of_nat i))
          (get_spendable_output ready Vout_CollateralInReadyToReimburse) KeySpend DEFAULT_SEQUENCE,
        add_in (numbered_sig NSig_UnspentKickoff2 (of_nat i)) (get_spendable_output round (Vout_Kickoff i)) (ScriptSpend 1) (from_height 1),
        partial_out (anchor_output (anchor_amount p))] = Inr h"
    by (rule build_succeeds) (use ready in \<open>auto simp: succeeds_spend [OF v] intro!: succeeds_spend\<close>)
qed

section \<open>The types that are created\<close>

definition deposit_transaction_types :: "nat \<Rightarrow> nat \<Rightarrow> transaction_type set" where
  "deposit_transaction_types num_kickoffs num_watchtowers =
     {Tx_Round, Tx_ReadyToReimburse, Tx_MoveToVault, Tx_Kickoff, Tx_Challenge, Tx_ChallengeTimeout, Tx_KickoffNotFinalized,
      Tx_LatestBlockhashTimeout, Tx_DisproveTimeout, Tx_Reimburse, Tx_Disprove}
     \<union> Tx_UnspentKickoff ` {..<num_kickoffs} \<union> Tx_AssertTimeout ` {..<NUMBER_OF_ASSERT_TXS}
     \<union> Tx_WatchtowerChallengeTimeout ` {..<num_watchtowers} \<union> Tx_OperatorChallengeNack ` {..<num_watchtowers}
     \<union> Tx_OperatorChallengeAck ` {..<num_watchtowers}"

definition tx_types :: "tx_map \<Rightarrow> transaction_type set" where
  "tx_types m = fst ` set m"

definition step_adds :: "create_step \<Rightarrow> transaction_type set \<Rightarrow> bool" where
  "step_adds f S \<longleftrightarrow> (\<forall>m m'. f m = Inr m' \<longrightarrow> tx_types m' = tx_types m \<union> S)"

lemma tx_types_empty: "tx_types [] = {}"
  by (simp add: tx_types_def)

lemma tx_types_insert: "tx_types (bt_insert ty h m) = insert ty (tx_types m)"
  by (simp add: tx_types_def bt_insert_keys)

lemma tx_types_insert_txs: "tx_types (insert_txs hs m) = tx_types m \<union> th_type ` set hs"
  by (induction hs arbitrary: m) (simp_all add: tx_types_insert)

lemma ins_adds: "(\<And>m h. mk m = Inr h \<Longrightarrow> th_type h = ty) \<Longrightarrow> step_adds (ins mk) {ty}"
  by (auto simp: step_adds_def ins_def tx_types_insert)

lemma ins_all_adds: "(\<And>m hs. mk m = Inr hs \<Longrightarrow> th_type ` set hs = S) \<Longrightarrow> step_adds (ins_all mk) S"
  by (simp add: step_adds_def ins_all_def) (metis tx_types_insert_txs)

lemma assert_timeout_types:
  "create_assert_timeout_txhandlers V p k r n = Inr hs \<Longrightarrow> th_type ` set hs = Tx_AssertTimeout ` {..<n}"
  using arg_cong [OF list_types(1), of V p k r n hs set] by (simp add: atLeast0LessThan)

lemma assert_timeouts_add:
  "step_adds (ins_all (with_txs Tx_Kickoff Tx_Round (\<lambda>k r. create_assert_timeout_txhandlers V p k r number_of_assert_txs)))
     (Tx_AssertTimeout ` {..<NUMBER_OF_ASSERT_TXS})"
  by (rule ins_all_adds) (unfold with_txs_def number_of_assert_txs_def rbind_eq_Inr, blast dest: assert_timeout_types)

lemma steps_add:
  assumes "list_all2 step_adds fs Ss" "rfold (\<lambda>f m. f m) fs m = Inr m'"
  shows "tx_types m' = tx_types m \<union> \<Union> (set Ss)"
  using assms
proof (induction fs Ss arbitrary: m rule: list_all2_induct)
  case (Cons f fs S Ss)
  then obtain m1 where "f m = Inr m1" "rfold (\<lambda>f m. f m) fs m1 = Inr m'" by auto
  with Cons show ?case by (simp add: step_adds_def Un_assoc)
qed simp

lemma watchtower_steps_add:
  "list_all2 step_adds (watchtower_steps V p i) [{Tx_WatchtowerChallengeTimeout i}, {Tx_OperatorChallengeNack i}, {Tx_OperatorChallengeAck i}]"
  unfolding watchtower_steps_def
  by (auto simp: with_tx_def with_txs_def intro!: ins_adds dest: child_types)

definition remaining_types :: "nat \<Rightarrow> transaction_type set list" where
  "remaining_types w =
     [{Tx_Challenge}, {Tx_ChallengeTimeout}, {Tx_KickoffNotFinalized}, {Tx_LatestBlockhashTimeout}]
     @ concat (map (\<lambda>i. [{Tx_WatchtowerChallengeTimeout i}, {Tx_OperatorChallengeNack i}, {Tx_OperatorChallengeAck i}]) [0..<w])
     @ [{}, Tx_AssertTimeout ` {..<NUMBER_OF_ASSERT_TXS}, {Tx_DisproveTimeout}, {Tx_Reimburse}] @ [{Tx_Disprove}]"

lemma list_all2_concat_map: "(\<And>i. list_all2 P (f i) (g i)) \<Longrightarrow> list_all2 P (concat (map f is)) (concat (map g is))"
  by (induction "is") (simp_all add: list_all2_appendI)

lemma remaining_steps_add:
  "list_all2 step_adds (remaining_steps V p Tx_AllNeededForDeposit od evm nr w j) (remaining_types w)"
proof -
  have check: "step_adds (\<lambda>m. Inr m) {}" by (simp add: step_adds_def)
  show ?thesis
    unfolding remaining_steps_def remaining_types_def
    by (intro list_all2_appendI list_all2_concat_map watchtower_steps_add)
      (auto simp: with_tx_def with_txs_def check assert_timeouts_add
        intro!: ins_adds dest: child_types)
qed

lemma remaining_types_union:
  "{Tx_Round, Tx_ReadyToReimburse, Tx_MoveToVault, Tx_Kickoff} \<union> Tx_UnspentKickoff ` {..<n} \<union> \<Union> (set (remaining_types w)) =
     deposit_transaction_types n w"
  by (auto simp: remaining_types_def deposit_transaction_types_def)

section \<open>All transactions of a deposit\<close>

definition deposit_stored :: "creator_api \<Rightarrow> database \<Rightarrow> protocol_paramset \<Rightarrow> bytes \<Rightarrow> deposit_data \<Rightarrow> bool" where
  "deposit_stored A db p operator_pk d \<longleftrightarrow>
     (\<exists>od. db_get_operator db operator_pk = Inr (Some od) \<and> od_xonly_pk od = operator_pk) \<and>
     (\<exists>keys. db_get_operator_kickoff_winternitz_public_keys db operator_pk = Inr keys \<and>
        length keys = num_kickoffs_per_round p * (num_round_txs p + 1)) \<and>
     (\<exists>addrs root blockhash. db_get_bitvm_setup db operator_pk (deposit_outpoint (deposit d)) = Inr (Some (addrs, root, blockhash)) \<and>
        length addrs = NUMBER_OF_ASSERT_TXS) \<and>
     (\<exists>hashes. db_get_operators_challenge_ack_hashes db operator_pk (deposit_outpoint (deposit d)) = Inr (Some hashes) \<and>
        length hashes = get_num_watchtowers d) \<and>
     (\<exists>flat keys. db_get_operator_bitvm_keys db operator_pk (deposit_outpoint (deposit d)) = Inr flat \<and>
        from_flattened_vec (sizes A) flat = Inr keys \<and> bitvm_pks_0 keys \<noteq> [])"

lemma collateral_succeeds:
  fixes K :: party_keys
  assumes laws: "taproot_laws (taproot V)" and p: "params_ok p" and kw: "keys_ok p kw" and od: "od_xonly_pk od = key_operator K"
    and i: "i < num_round_txs p" and funds: "Suc i * round_price p + round_cost p \<le> unat (collateral_funding_amount p)"
  obtains m nr where "collateral_txhandlers V p (Round i) od kw tx_handler_cache_new = Inr (m, tx_handler_cache_new)"
    "next_round_txhandler V p od kw (Round i) m = Inr nr" "typed_map V p K UNIV m"
    "tx_types m = {Tx_Round, Tx_ReadyToReimburse} \<union> Tx_UnspentKickoff ` {..<num_kickoffs_per_round p}"
proof -
  have n: "num_kickoffs_per_round p < 2 ^ 30" using p by (simp add: params_ok_def)
  let ?nth = "create_round_nth_txhandler V p (od_xonly_pk od) (collateral_funding_outpoint od) (collateral_funding_amount p) (Round i) kw"
  obtain round ready where pair: "?nth = Inr (round, ready)"
    using round_nth_exact [OF laws p kw less_imp_le [OF i], of "od_xonly_pk od" "collateral_funding_outpoint od" "collateral_funding_amount p"]
      funds by fastforce
  have val: "collateral_value ready = unat (collateral_funding_amount p) - Suc i * round_price p" "0 < length (th_txouts ready)"
    using round_nth_exact [OF laws p kw less_imp_le [OF i], of "od_xonly_pk od" "collateral_funding_outpoint od" "collateral_funding_amount p"]
      pair by auto
  have ok: "round_pair_ok V p K UNIV (round, ready)" using round_nth_ok [OF laws kw UNIV_I] pair od by metis
  then have layout: "round_layout V p (key_operator K) round" and types: "th_type round = Tx_Round" "th_type ready = Tx_ReadyToReimburse"
    by (auto simp: round_pair_ok_def role_ok_def)
  obtain unspent where unspent: "create_unspent_kickoff_txhandlers V p round ready = Inr unspent"
    using unspent_kickoffs_succeed [OF layout val(2) n] by blast
  let ?hs = "round # ready # unspent"
  have hs: "create_round_txhandlers V p (Round i) od kw None = Inr ?hs" by (simp add: create_round_txhandlers_def pair unspent)
  have coll: "collateral_txhandlers V p (Round i) od kw tx_handler_cache_new = Inr (insert_txs ?hs [], tx_handler_cache_new)"
    by (simp add: collateral_txhandlers_def get_cached_txs_def tx_handler_cache_new_def bt_get_def hs)
  have typed: "typed_map V p K UNIV (insert_txs ?hs [])"
    using round_txhandlers_ok [OF laws kw n od UNIV_I _ hs] by (intro typed_map_insert_txs) auto
  have "th_type ` set unspent = Tx_UnspentKickoff ` {..<num_kickoffs_per_round p}"
    using arg_cong [OF list_types(3) [OF unspent], of set] by (simp add: atLeast0LessThan)
  then have keys: "tx_types (insert_txs ?hs []) = {Tx_Round, Tx_ReadyToReimburse} \<union> Tx_UnspentKickoff ` {..<num_kickoffs_per_round p}"
    using tx_types_insert_txs [of ?hs "[]"] types by (simp add: tx_types_empty)
  have "bt_get (insert_txs ?hs []) Tx_ReadyToReimburse = Some ready"
  proof -
    have "distinct (map th_type ?hs)" using list_types(3) [OF unspent] types by (auto simp: distinct_map inj_on_def)
    from bt.lookup_upd_all_mem [OF bt.invar_empty this, of ready] types(2) show ?thesis by simp
  qed
  then have get: "get_txhandler (insert_txs ?hs []) Tx_ReadyToReimburse = Inr ready" by (simp add: get_txhandler_def)
  obtain prev where prev: "get_spendable_output ready Vout_CollateralInReadyToReimburse = Inr prev"
      "unat (txo_value (prevout prev)) = collateral_value ready"
    by (rule ready_spendable [OF val(2)])
  obtain ks where ks: "get_keys_for_round kw (Round (Suc i)) = Inr ks" using round_keys_succeed [OF kw, of "Suc i"] i by auto
  have "round_cost p \<le> unat (round_input_amount (RoundPrevout prev))" using funds val(1) prev(2) by simp
  then obtain nr where "create_round_txhandler V p (od_xonly_pk od) (RoundPrevout prev) ks = Inr nr"
    using round_succeeds [OF laws p] by blast
  then have "next_round_txhandler V p od kw (Round i) (insert_txs ?hs []) = Inr nr"
    unfolding next_round_txhandler_def get rbind_simps prev(1) by (simp add: ks)
  from that [OF coll this typed keys] show thesis .
qed

lemma deposit_reads:
  assumes stored: "deposit_stored A db p operator_pk d" and net: "bridge_circuit_constant (is_dev_mode A) p = Inr circuit_constant"
    and c: "c = new_for_deposit db operator_pk (deposit_outpoint (deposit d)) p"
  obtains od c1 kw c2 hashes c3 script c4 root c5 blockhash c6 addrs where
    "get_operator_data c = Inr (od, c1)" "od_xonly_pk od = operator_pk"
    "get_kickoff_winternitz_keys c1 = Inr (kw, c2)" "keys_ok p kw"
    "rc_deposit_outpoint c2 = Some (deposit_outpoint (deposit d))"
    "get_challenge_ack_hashes c2 = Inr (hashes, c3)" "length hashes = get_num_watchtowers d" "rc_paramset c3 = p"
    "get_replaceable_additional_disprove_script A c3 = Inr (script, c4)"
    "get_bitvm_disprove_root_hash c4 = Inr (root, c5)" "get_latest_blockhash_root_hash c5 = Inr (blockhash, c6)"
    "rc_paramset c6 = p" "get_bitvm_assert_hash c6 = Inr (addrs, c6)" "length addrs = NUMBER_OF_ASSERT_TXS"
proof -
  let ?op = "deposit_outpoint (deposit d)"
  obtain od keys addrs root blockhash hashes flat bkeys where *:
      "db_get_operator db operator_pk = Inr (Some od)" "od_xonly_pk od = operator_pk"
      "db_get_operator_kickoff_winternitz_public_keys db operator_pk = Inr keys"
      "length keys = num_kickoffs_per_round p * (num_round_txs p + 1)"
      "db_get_bitvm_setup db operator_pk ?op = Inr (Some (addrs, root, blockhash))" "length addrs = NUMBER_OF_ASSERT_TXS"
      "db_get_operators_challenge_ack_hashes db operator_pk ?op = Inr (Some hashes)" "length hashes = get_num_watchtowers d"
      "db_get_operator_bitvm_keys db operator_pk ?op = Inr flat" "from_flattened_vec (sizes A) flat = Inr bkeys" "bitvm_pks_0 bkeys \<noteq> []"
    using stored unfolding deposit_stored_def by blast
  define kw where "kw = \<lparr>kw_keys = keys, kw_num_kickoffs_per_round = num_kickoffs_per_round p, kw_num_rounds = num_round_txs p\<rparr>"
  have kw: "kickoff_winternitz_keys_new keys (num_kickoffs_per_round p) (num_round_txs p) = Inr kw"
    using *(4) by (simp add: kickoff_winternitz_keys_new_def kw_def)
  have pk0: "nth_checked (bitvm_pks_0 bkeys) 0 = Inr (bitvm_pks_0 bkeys ! 0)" using *(11) by (simp add: nth_checked_def)
  define script where "script = additional_disprove_script_with_dummy A circuit_constant (bitvm_pks_0 bkeys ! 0) (latest_blockhash_pk bkeys)
      (challenge_sending_watchtowers_pk bkeys) hashes"
  define c1 where "c1 = c\<lparr>rc_operator_data := Some od\<rparr>"
  define c2 where "c2 = c1\<lparr>rc_kickoff_winternitz_keys := Some kw\<rparr>"
  define c3 where "c3 = c2\<lparr>rc_challenge_ack_hashes := Some hashes\<rparr>"
  define c4 where "c4 = c3\<lparr>rc_operator_bitvm_keys := Some bkeys, rc_additional_disprove_script := Some script\<rparr>"
  define c5 where "c5 = c4\<lparr>rc_bitvm_assert_addr := Some addrs, rc_bitvm_disprove_root_hash := Some root,
            rc_latest_blockhash_root_hash := Some blockhash\<rparr>"
  note C = c new_for_deposit_def new_cache_def c1_def c2_def c3_def c4_def c5_def
  note getters = get_operator_data_def get_kickoff_winternitz_keys_def get_challenge_ack_hashes_def
        get_replaceable_additional_disprove_script_def get_operator_bitvm_keys_def get_bitvm_disprove_root_hash_def
        get_latest_blockhash_root_hash_def get_bitvm_assert_hash_def of_setup_def get_bitvm_setup_def
  show thesis
    by (rule that [of od c1 kw c2 hashes c3 script c4 root c5 blockhash c5 addrs])
      (simp_all add: C * kw keys_ok_new [OF kw] pk0 net Let_def getters script_def)
qed

lemma move_keeps_deposit:
  assumes "create_move_to_vault_txhandler V p d = Inr (h, d')" "get_nofn_xonly_pk V d = Inr (nofn, d1)"
  shows "d' = d1"
  using assms get_nofn_again(1) [OF assms(2)]
  by (auto simp: create_move_to_vault_txhandler_def get_deposit_scripts_def split: deposit_type.splits)

lemma deposit_builds_again:
  "deposit_builds V p d \<Longrightarrow> get_nofn_xonly_pk V d = Inr (nofn, d1) \<Longrightarrow> deposit_builds V p d1"
  using get_nofn_again [of V d nofn d1] nofn_keeps [of V d nofn d1] by (auto simp: deposit_builds_def)

lemma deposit_constant_succeeds:
  assumes "deposit_builds V p d" "get_nofn_xonly_pk V d = Inr (nofn, d1)"
    and "get_txhandler m Tx_MoveToVault = Inr move" "get_txhandler m Tx_Round = Inr round"
  shows "\<exists>const. kickoff_deposit_constant V p d kd m genesis = Inr (const, d1)"
proof -
  have "taproot_laws (taproot V)" using assms(1) by (simp add: deposit_builds_def)
  then obtain keys where "rmap (watchtower_output_key V p nofn) (get_watchtowers V d1) = Inr keys"
    using rmap_total [of "get_watchtowers V d1" "watchtower_output_key V p nofn"] watchtower_output_key_succeeds by blast
  then show ?thesis using assms(2-4) by (simp add: kickoff_deposit_constant_def)
qed

lemma payout_pk_succeeds:
  assumes "keys_ok p kw" "i \<le> num_round_txs p" "kd_round_idx kd = Round i" "unat (kickoff_idx kd) < num_kickoffs_per_round p"
  shows "\<exists>pk. payout_blockhash_pk kw kd = Inr pk"
proof -
  obtain ks where ks: "get_keys_for_round kw (Round i) = Inr ks" using round_keys_succeed [OF assms(1,2)] by blast
  from length_round_keys [OF assms(1) ks] assms(3,4) show ?thesis by (simp add: payout_blockhash_pk_def ks)
qed

lemma tx_types_get:
  assumes "bt_sorted m"
  shows "ty \<in> tx_types m \<longleftrightarrow> bt_get m ty \<noteq> None"
  using bt_get_Some [OF assms] by (force simp: tx_types_def)

lemma tx_types_get_txhandler: "bt_sorted m \<Longrightarrow> ty \<in> tx_types m \<Longrightarrow> \<exists>h. get_txhandler m ty = Inr h"
  by (auto simp: tx_types_get get_txhandler_def)

lemma kickoff_inserted:
  fixes K :: party_keys
  assumes dep: "deposit_ok V p K od d" and m: "typed_map V p K F m" "{Tx_Round, Tx_ReadyToReimburse, Tx_MoveToVault} \<subseteq> tx_types m"
    and round: "get_txhandler m Tx_Round = Inr round"
    and idx: "unat (kickoff_idx kd) < num_kickoffs_per_round p" and n: "assert_count asserts = NUMBER_OF_ASSERT_TXS"
    and built: "create_kickoff_txhandler V p kd round move d (od_xonly_pk od) asserts path extra blockhash hashes = Inr (k, d')"
  shows "typed_map V p K F (insert_tx k m)" "present (insert_tx k m)" "tx_types (insert_tx k m) = tx_types m \<union> {Tx_Kickoff}"
proof -
  show typed: "typed_map V p K F (insert_tx k m)"
    by (rule typed_map_insert [OF m(1) kickoff_ok(1) [OF dep m(1) round idx n built]])
  show types: "tx_types (insert_tx k m) = tx_types m \<union> {Tx_Kickoff}" by (simp add: tx_types_insert parent_types(4) [OF built])
  have "\<forall>ty \<in> {Tx_Kickoff, Tx_Round, Tx_ReadyToReimburse, Tx_MoveToVault}. bt_get (insert_tx k m) ty \<noteq> None"
    unfolding tx_types_get [OF typed_map_sorted [OF typed], symmetric] types using m(2) by blast
  then show "present (insert_tx k m)" by (simp add: present_def)
qed

text \<open>The part of the creation that follows the reads of the database.\<close>

lemma deposit_txhandlers_eval:
  assumes "rc_paramset c = p" "kickoff_deposit_constant (env A) p d kd m (genesis_chain_state_hash (cc_paramset ctx)) = Inr (const, d)"
    and "payout_blockhash_pk kw kd = Inr pk" "get_replaceable_additional_disprove_script A c = Inr (script, c4)"
    and "get_bitvm_disprove_root_hash c4 = Inr (root, c5)" "get_latest_blockhash_root_hash c5 = Inr (blockhash, c6)"
    and "rc_paramset c6 = p" "get_bitvm_assert_hash c6 = Inr (addrs, c6)" "cc_signer ctx = None"
    and "get_txhandler m Tx_MoveToVault = Inr move" "get_txhandler m Tx_Round = Inr round"
    and "create_kickoff_txhandler (env A) p kd round move d (od_xonly_pk od) (AssertScriptTapNodeHash addrs)
      (DisproveHiddenNode root) (replace_placeholders_in_script A script pk const) (AssertScriptTapNodeHash [blockhash]) hashes = Inr (k, d')"
  shows "deposit_txhandlers A Tx_AllNeededForDeposit ctx od kw nr kd d hashes m c =
     rbind (rfold (\<lambda>f m. f m)
       (remaining_steps (env A) p Tx_AllNeededForDeposit od None nr (get_num_watchtowers d) (unat (kickoff_idx kd))) (insert_tx k m)) (\<lambda>m'.
     Inr (m', c6))"
proof -
  have path: "disprove_path_for A Tx_AllNeededForDeposit root c6 = Inr (DisproveHiddenNode root, c6)" by (simp add: disprove_path_for_def)
  have kickoff: "kickoff_txhandler_for A Tx_AllNeededForDeposit ctx od kd d (DisproveHiddenNode root)
      (replace_placeholders_in_script A script pk const) hashes blockhash m c6 = Inr ((k, m), c6)"
    by (simp add: kickoff_txhandler_for_def kickoff_with_hashes_def assms)
  have evm: "signer_evm_address A ctx = Inr None" by (simp add: signer_evm_address_def assms)
  show ?thesis
    unfolding deposit_txhandlers_def Let_def assms(1-7) rbind_simps prod.case path kickoff evm ..
qed

lemma deposit_txhandlers_succeed:
  fixes K :: party_keys and kd :: kickoff_data
  assumes d: "deposit_builds (env A) p d" "deposit_ok (env A) p K od d" "get_nofn_xonly_pk (env A) d = Inr (nofn, d)"
    and m: "typed_map (env A) p K UNIV m" "{Tx_Round, Tx_ReadyToReimburse, Tx_MoveToVault} \<subseteq> tx_types m"
    and kw: "keys_ok p kw" and nr: "round_layout (env A) p (key_operator K) nr" and signer: "cc_signer ctx = None"
    and kd: "kd_round_idx kd = Round i" "i \<le> num_round_txs p" "unat (kickoff_idx kd) < num_kickoffs_per_round p"
      "length (operator_xonly_pk kd) = 32"
    and reads: "length hashes = get_num_watchtowers d" "rc_paramset c = p"
      "get_replaceable_additional_disprove_script A c = Inr (script, c4)" "get_bitvm_disprove_root_hash c4 = Inr (root, c5)"
      "get_latest_blockhash_root_hash c5 = Inr (blockhash, c6)" "rc_paramset c6 = p" "get_bitvm_assert_hash c6 = Inr (addrs, c6)"
      "length addrs = NUMBER_OF_ASSERT_TXS"
  obtains m' where "deposit_txhandlers A Tx_AllNeededForDeposit ctx od kw nr kd d hashes m c = Inr (m', c6)"
    "tx_types m' = tx_types m \<union> {Tx_Kickoff} \<union> \<Union> (set (remaining_types (get_num_watchtowers d)))"
proof -
  let ?V = "env A"
  have in_map: "Tx_MoveToVault \<in> tx_types m" "Tx_Round \<in> tx_types m" using m(2) by simp_all
  from tx_types_get_txhandler [OF typed_map_sorted [OF m(1)] in_map(1)] obtain move where move: "get_txhandler m Tx_MoveToVault = Inr move" ..
  from tx_types_get_txhandler [OF typed_map_sorted [OF m(1)] in_map(2)] obtain round where round: "get_txhandler m Tx_Round = Inr round" ..
  note parents = move round
  have layout: "round_layout ?V p (key_operator K) round" by (rule typed_map_roles(1) [OF m(1) parents(2)])
  have wf: "handler_wf ?V move" using typed_map_roles(4) [OF m(1) parents(1)] by (simp add: move_layout_def)
  from deposit_constant_succeeds [OF d(1,3) parents]
  obtain const where const: "kickoff_deposit_constant ?V p d kd m (genesis_chain_state_hash (cc_paramset ctx)) = Inr (const, d)" ..
  from payout_pk_succeeds [OF kw kd(2,1,3)] obtain pk where pk: "payout_blockhash_pk kw kd = Inr pk" ..
  have od: "od_xonly_pk od = key_operator K" using d(2) by (simp add: deposit_ok_def)
  obtain k d' where k: "create_kickoff_txhandler ?V p kd round move d (od_xonly_pk od) (AssertScriptTapNodeHash addrs)
      (DisproveHiddenNode root) (replace_placeholders_in_script A script pk const) (AssertScriptTapNodeHash [blockhash]) hashes = Inr (k, d')"
    using kickoff_succeeds [OF d(1) layout kd(3) reads(1) wf kd(4)] unfolding od by blast
  have "assert_count (AssertScriptTapNodeHash addrs) = NUMBER_OF_ASSERT_TXS" using reads(8) by simp
  note ins = kickoff_inserted [OF d(2) m parents(2) kd(3) this k]
  have n: "num_kickoffs_per_round p < 2 ^ 30" "length (key_watchtowers K) < 2 ^ 30" "get_num_watchtowers d = length (key_watchtowers K)"
    using d(2) length_get_watchtowers [of ?V d] by (auto simp: deposit_ok_def)
  let ?steps = "remaining_steps ?V p Tx_AllNeededForDeposit od None nr (get_num_watchtowers d) (unat (kickoff_idx kd))"
  have ty: "\<forall>i. Tx_AllNeededForDeposit \<noteq> Tx_WatchtowerChallenge i" by simp
  have "\<forall>f \<in> set ?steps. create_step_typed ?V p K UNIV f \<and> step_runs ?V p K UNIV f"
    unfolding n(3)
    by (intro ballI conjI remaining_steps_typed [OF n(1,2) kd(3) nr] remaining_steps_run [OF n(1,2) kd(3) nr ty])
  from steps_run [OF this ins(1,2)] obtain m' where m': "rfold (\<lambda>f m. f m) ?steps (insert_tx k m) = Inr m'" ..
  have "deposit_txhandlers A Tx_AllNeededForDeposit ctx od kw nr kd d hashes m c = Inr (m', c6)"
    unfolding deposit_txhandlers_eval [OF reads(2) const pk reads(3-7) signer parents k] m' rbind_simps ..
  from that [OF this steps_add [OF remaining_steps_add m', unfolded ins(3)]] show thesis .
qed

lemma deposit_creation_total:
  assumes d: "deposit_builds (env A) p d" and stored: "deposit_stored A db p operator_pk d"
    and net: "bridge_circuit_constant (is_dev_mode A) p = Inr circuit_constant"
    and sizes: "length operator_pk = 32" "get_num_watchtowers d < 2 ^ 30"
    and i: "i < num_round_txs p" and k: "unat kickoff_index < num_kickoffs_per_round p"
    and funds: "Suc i * round_price p + round_cost p \<le> unat (collateral_funding_amount p)"
    and ctx: "ctx = new_context_for_kickoff \<lparr>operator_xonly_pk = operator_pk, kd_round_idx = Round i, kickoff_idx = kickoff_index\<rparr> d p"
  shows "\<exists>m c'. create_txhandlers A Tx_AllNeededForDeposit ctx tx_handler_cache_new (from_context db ctx) = Inr (m, tx_handler_cache_new, c') \<and>
     tx_types m = deposit_transaction_types (num_kickoffs_per_round p) (get_num_watchtowers d)"
proof -
  let ?V = "env A" and ?kd = "\<lparr>operator_xonly_pk = operator_pk, kd_round_idx = Round i, kickoff_idx = kickoff_index\<rparr> :: kickoff_data"
  have laws: "taproot_laws (taproot ?V)" and p: "params_ok p" using d by (simp_all add: deposit_builds_def)
  then have n: "num_kickoffs_per_round p < 2 ^ 30" by (simp add: params_ok_def)
  obtain nofn d1 where nofn: "get_nofn_xonly_pk ?V d = Inr (nofn, d1)" using d by (auto simp: deposit_builds_def)
  define K where "K = \<lparr>key_nofn = nofn, key_operator = operator_pk, key_watchtowers = get_watchtowers ?V d\<rparr>"
  have c: "from_context db ctx = new_for_deposit db operator_pk (deposit_outpoint (deposit d)) p"
    by (simp add: ctx from_context_def new_context_for_kickoff_def)
  obtain od c1 kw c2 hashes c3 script c4 root c5 blockhash c6 addrs where
    r1: "get_operator_data (from_context db ctx) = Inr (od, c1)" and od: "od_xonly_pk od = operator_pk"
    and r2: "get_kickoff_winternitz_keys c1 = Inr (kw, c2)" and kw: "keys_ok p kw"
    and op: "rc_deposit_outpoint c2 = Some (deposit_outpoint (deposit d))"
    and r3: "get_challenge_ack_hashes c2 = Inr (hashes, c3)" and hashes: "length hashes = get_num_watchtowers d" and p3: "rc_paramset c3 = p"
    and reads: "get_replaceable_additional_disprove_script A c3 = Inr (script, c4)"
      "get_bitvm_disprove_root_hash c4 = Inr (root, c5)" "get_latest_blockhash_root_hash c5 = Inr (blockhash, c6)"
      "rc_paramset c6 = p" "get_bitvm_assert_hash c6 = Inr (addrs, c6)" "length addrs = NUMBER_OF_ASSERT_TXS"
    by (rule deposit_reads [OF stored net c])
  have odK: "od_xonly_pk od = key_operator K" by (simp add: od K_def)
  obtain m nr where m: "collateral_txhandlers ?V p (Round i) od kw tx_handler_cache_new = Inr (m, tx_handler_cache_new)"
      "next_round_txhandler ?V p od kw (Round i) m = Inr nr" "typed_map ?V p K UNIV m"
      "tx_types m = {Tx_Round, Tx_ReadyToReimburse} \<union> Tx_UnspentKickoff ` {..<num_kickoffs_per_round p}"
    by (rule collateral_succeeds [OF laws p kw odK i funds])
  have dep: "deposit_ok ?V p K od d" using nofn laws n sizes(2) odK by (simp add: deposit_ok_def K_def)
  from move_succeeds [OF d] obtain move d' where "create_move_to_vault_txhandler ?V p d = Inr (move, d')" by blast
  with move_keeps_deposit [OF this nofn] have move: "create_move_to_vault_txhandler ?V p d = Inr (move, d1)" by simp
  have "Tx_MoveToVault \<notin> tx_types m" unfolding m(4) by auto
  then have mv: "with_move_txhandler ?V p d m = Inr (insert_tx move m, d1)"
    using move by (simp add: with_move_txhandler_def tx_types_get [OF typed_map_sorted [OF m(3)]])
  note typed = with_move_ok [OF dep UNIV_I m(3) mv]
  have types: "tx_types (insert_tx move m) = insert Tx_MoveToVault (tx_types m)" by (simp add: tx_types_insert parent_types(3) [OF move])
  note again = get_nofn_again [OF nofn]
  have in_map: "{Tx_Round, Tx_ReadyToReimburse, Tx_MoveToVault} \<subseteq> tx_types (insert_tx move m)" unfolding types m(4) by simp
  have signer: "cc_signer ctx = None" and fields: "cc_operator_xonly_pk ctx = operator_pk" "cc_round_idx ctx = Round i"
      "cc_deposit_data ctx = Some d" "cc_kickoff_idx ctx = Some kickoff_index"
    by (simp_all add: ctx new_context_for_kickoff_def)
  have paramset: "rc_paramset (from_context db ctx) = p" by (simp add: c new_for_deposit_def new_cache_def)
  have kd: "kd_round_idx ?kd = Round i" "i \<le> num_round_txs p" "unat (kickoff_idx ?kd) < num_kickoffs_per_round p"
      "length (operator_xonly_pk ?kd) = 32" using i k sizes(1) by simp_all
  have hashes1: "length hashes = get_num_watchtowers d1" using hashes again(4) by simp
  obtain m' where m': "deposit_txhandlers A Tx_AllNeededForDeposit ctx od kw nr ?kd d1 hashes (insert_tx move m) c3 = Inr (m', c6)"
      "tx_types m' = tx_types (insert_tx move m) \<union> {Tx_Kickoff} \<union> \<Union> (set (remaining_types (get_num_watchtowers d1)))"
    by (rule deposit_txhandlers_succeed [OF deposit_builds_again [OF d nofn] typed(2) again(1) typed(1) in_map kw
        next_round_ok [OF laws kw m(3) odK m(2)] signer kd hashes1 p3 reads])
  have "create_txhandlers A Tx_AllNeededForDeposit ctx tx_handler_cache_new (from_context db ctx) = Inr (m', tx_handler_cache_new, c6)"
    using m'(1) m(1,2) mv
    by (simp add: create_txhandlers_def Let_def fields paramset r1 r2 r3 od op hashes1 ensure_def check_deposit_outpoint_def)
  moreover have "tx_types m' = deposit_transaction_types (num_kickoffs_per_round p) (get_num_watchtowers d)"
    unfolding m'(2) types m(4) again(4) remaining_types_union [symmetric] by blast
  ultimately show ?thesis by blast
qed

section \<open>A concrete deposit\<close>

text \<open>
  A replacement deposit on regtest with one verifier, one additional watchtower and one operator, and a
  database that holds their data.
\<close>

definition demo_deposit :: deposit_data where
  "demo_deposit =
     \<lparr>nofn_xonly_pk = None,
      deposit = \<lparr>deposit_outpoint = \<lparr>op_txid = replicate 32 1, op_vout = 0\<rparr>, dep_type = ReplacementDeposit (replicate 32 3)\<rparr>,
      dep_actors = \<lparr>verifiers = [replicate 33 2], watchtowers = [replicate 32 5], operators = [replicate 32 8]\<rparr>,
      dep_security_council = \<lparr>council_pks = [replicate 32 4], council_threshold = 1\<rparr>\<rparr>"

definition demo_database :: database where
  "demo_database =
     \<lparr>db_get_operator = (\<lambda>pk. Inr (Some \<lparr>od_xonly_pk = pk, reimburse_addr = p2tr_tweaked taproot_spec pk Net_Regtest,
        collateral_funding_outpoint = \<lparr>op_txid = replicate 32 2, op_vout = 0\<rparr>\<rparr>)),
      db_get_operator_kickoff_winternitz_public_keys = (\<lambda>_. Inr (replicate 30 [[6]])),
      db_get_bitvm_setup = (\<lambda>_ _. Inr (Some (replicate 36 (replicate 32 7), replicate 32 8, replicate 32 9))),
      db_get_operators_challenge_ack_hashes = (\<lambda>_ _. Inr (Some [replicate 20 1, replicate 20 2])),
      db_get_operator_bitvm_keys = (\<lambda>_ _. Inr (to_flattened_vec (create_replacable demo_sizes)))\<rparr>"

definition demo_creator :: creator_api where
  "demo_creator =
     \<lparr>env = env_spec, sizes = demo_sizes, script_cache = demo_cache, is_dev_mode = True, debug_assertions = True,
      additional_disprove_script_with_dummy = (\<lambda>c _ _ _ _. c), replace_placeholders_in_script = (\<lambda>s _ _. s),
      get_evm_address = (\<lambda>sk. Inr (take 20 sk))\<rparr>"

definition demo_context :: contract_context where
  "demo_context = new_context_for_kickoff \<lparr>operator_xonly_pk = replicate 32 8, kd_round_idx = Round 1, kickoff_idx = 4\<rparr> demo_deposit REGTEST_PARAMSET"

lemma demo_costs: "round_cost REGTEST_PARAMSET = 0" "round_price REGTEST_PARAMSET = 0"
  by (simp_all add: round_cost_def round_price_def REGTEST_PARAMSET_def default_utxo_amount_def anchor_amount_def)

lemma demo_params: "params_ok REGTEST_PARAMSET"
  by (simp add: params_ok_def demo_costs) (simp add: REGTEST_PARAMSET_def)

lemma demo_nofn: "\<exists>nofn. get_nofn_xonly_pk env_spec demo_deposit = Inr (nofn, demo_deposit\<lparr>nofn_xonly_pk := Some nofn\<rparr>)"
  by (simp add: get_nofn_xonly_pk_def demo_deposit_def from_musig2_pks_def create_key_agg_cache_def get_verifiers_def env_spec_def
    musig_spec_def)

lemma demo_builds: "deposit_builds env_spec REGTEST_PARAMSET demo_deposit"
proof -
  have "council_pks (dep_security_council demo_deposit) \<noteq> []" "dep_type (deposit demo_deposit) = ReplacementDeposit (replicate 32 3)"
    by (simp_all add: demo_deposit_def)
  moreover have "length (compute_txid demo_bitcoin tx) = 32" for tx by (simp add: demo_bitcoin_def)
  moreover have "default_utxo_amount REGTEST_PARAMSET = 0" "anchor_amount REGTEST_PARAMSET = 0"
    by (simp_all add: REGTEST_PARAMSET_def default_utxo_amount_def anchor_amount_def)
  ultimately show ?thesis using demo_nofn by (auto simp: deposit_builds_def taproot_spec_laws demo_params)
qed

lemma demo_flattened: "from_flattened_vec demo_sizes (to_flattened_vec (create_replacable demo_sizes)) = Inr (create_replacable demo_sizes)"
proof -
  have "bitvm_sizes demo_sizes" by (simp add: bitvm_sizes_def demo_sizes_def)
  from flattened_keys_roundtrip [OF this create_replacable_wf] show ?thesis by (simp add: create_replacable_def)
qed

lemma demo_stored: "deposit_stored demo_creator demo_database REGTEST_PARAMSET (replicate 32 8) demo_deposit"
proof -
  have "get_num_watchtowers demo_deposit = 2" by (simp add: get_num_watchtowers_def get_num_verifiers_def demo_deposit_def)
  moreover have "num_kickoffs_per_round REGTEST_PARAMSET * (num_round_txs REGTEST_PARAMSET + 1) = 30" by (simp add: REGTEST_PARAMSET_def)
  moreover have "bitvm_pks_0 (create_replacable demo_sizes) \<noteq> []"
    by (simp add: create_replacable_def get_multiple_replacable_wpks_def demo_sizes_def)
  ultimately show ?thesis
    by (simp add: deposit_stored_def demo_database_def demo_creator_def demo_flattened NUMBER_OF_ASSERT_TXS_def)
qed

lemma demo_sides:
  "\<exists>k. bridge_circuit_constant (is_dev_mode demo_creator) REGTEST_PARAMSET = Inr k" "get_num_watchtowers demo_deposit < 2 ^ 30"
  "1 < num_round_txs REGTEST_PARAMSET" "unat (4 :: u32) < num_kickoffs_per_round REGTEST_PARAMSET"
  "Suc 1 * round_price REGTEST_PARAMSET + round_cost REGTEST_PARAMSET \<le> unat (collateral_funding_amount REGTEST_PARAMSET)"
  by (simp_all only: demo_costs)
    (simp_all add: bridge_circuit_constant_def REGTEST_PARAMSET_def demo_deposit_def get_num_watchtowers_def get_num_verifiers_def)

section \<open>Properties\<close>

text \<open>
  C35. The collateral of an operator pays for a definite number of rounds. With the laws of the taproot
  builder, a stored key for every kickoff, and sizes for which the cost of a round does not overflow,
  the round transaction with index \<open>i\<close> and its ready-to-reimburse transaction are created if and only
  if the collateral covers the price of \<open>i + 1\<close> rounds (a kickoff and a reimburse output per kickoff
  and two anchors), and the output that carries the collateral on holds exactly what is left.
\<close>

theorem collateral_pays_for_rounds:
  assumes "taproot_laws (taproot V)" "params_ok p" "keys_ok p kw" "i \<le> num_round_txs p"
  shows "((\<exists>rs. create_round_nth_txhandler V p operator_pk outpoint a (Round i) kw = Inr rs) \<longleftrightarrow> Suc i * round_price p \<le> unat a) \<and>
    (\<forall>round ready. create_round_nth_txhandler V p operator_pk outpoint a (Round i) kw = Inr (round, ready) \<longrightarrow>
       unat (txo_value (uo_txout (th_txouts ready ! 0))) = unat a - Suc i * round_price p)"
  using round_nth_exact [OF assms, of operator_pk outpoint a] by (auto simp: collateral_value_def)

theorem collateral_pays_for_rounds_witness:
  "\<not> (\<exists>rs. create_round_nth_txhandler env_spec (REGTEST_PARAMSET\<lparr>kickoff_amount := 1000\<rparr>) (replicate 32 8) \<lparr>op_txid = replicate 32 2, op_vout = 0\<rparr>
        20000 (Round 2) \<lparr>kw_keys = replicate 30 [[6]], kw_num_kickoffs_per_round = 10, kw_num_rounds = 2\<rparr> = Inr rs) \<and>
   (\<exists>rs. create_round_nth_txhandler env_spec (REGTEST_PARAMSET\<lparr>kickoff_amount := 1000\<rparr>) (replicate 32 8) \<lparr>op_txid = replicate 32 2, op_vout = 0\<rparr>
        20000 (Round 1) \<lparr>kw_keys = replicate 30 [[6]], kw_num_kickoffs_per_round = 10, kw_num_rounds = 2\<rparr> = Inr rs)"
proof -
  let ?p = "REGTEST_PARAMSET\<lparr>kickoff_amount := 1000\<rparr>"
    and ?kw = "\<lparr>kw_keys = replicate 30 [[6]], kw_num_kickoffs_per_round = 10, kw_num_rounds = 2\<rparr> :: kickoff_winternitz_keys"
  have price: "round_cost ?p = 10000" "round_price ?p = 10000"
    by (simp_all add: round_cost_def round_price_def REGTEST_PARAMSET_def default_utxo_amount_def anchor_amount_def)
  have "params_ok ?p" by (simp add: params_ok_def price) (simp add: REGTEST_PARAMSET_def)
  moreover have "keys_ok ?p ?kw" by (simp add: keys_ok_def REGTEST_PARAMSET_def)
  moreover have "num_round_txs ?p = 2" by (simp add: REGTEST_PARAMSET_def)
  ultimately show ?thesis
    using collateral_pays_for_rounds [of env_spec ?p ?kw 2 "replicate 32 8" "\<lparr>op_txid = replicate 32 2, op_vout = 0\<rparr>" 20000]
      collateral_pays_for_rounds [of env_spec ?p ?kw 1 "replicate 32 8" "\<lparr>op_txid = replicate 32 2, op_vout = 0\<rparr>" 20000]
    by (simp add: taproot_spec_laws price)
qed

text \<open>
  C34. The transactions of a deposit can be created. Let the database hold the operator, its kickoff
  keys, the bitvm setup with its 36 assert hashes, one challenge hash per watchtower and the bitvm keys;
  let the keys of the verifiers aggregate, the security council have a key, the recovery address be
  taproot, the network have a bridge circuit constant, ids be 32 bytes long, and amounts and output
  numbers not overflow; let the round be before the last one, the kickoff exist in it, and the
  collateral cover the rounds up to this one and the outputs of the next. Then \<open>create_txhandlers\<close> from
  empty caches, asked for all that a deposit needs, returns, and the map it returns has exactly the
  transaction types of a deposit with that many kickoffs per round and watchtowers.
\<close>

theorem deposit_creation_succeeds:
  assumes "deposit_builds (env A) p d" "deposit_stored A db p operator_pk d"
    and "bridge_circuit_constant (is_dev_mode A) p = Inr circuit_constant"
    and "length operator_pk = 32" "get_num_watchtowers d < 2 ^ 30"
    and "i < num_round_txs p" "unat kickoff_index < num_kickoffs_per_round p"
    and "Suc i * round_price p + round_cost p \<le> unat (collateral_funding_amount p)"
    and ctx: "ctx = new_context_for_kickoff \<lparr>operator_xonly_pk = operator_pk, kd_round_idx = Round i, kickoff_idx = kickoff_index\<rparr> d p"
  shows "\<exists>m c'. create_txhandlers A Tx_AllNeededForDeposit ctx tx_handler_cache_new (from_context db ctx) = Inr (m, tx_handler_cache_new, c') \<and>
     fst ` set m = deposit_transaction_types (num_kickoffs_per_round p) (get_num_watchtowers d)"
  using deposit_creation_total [OF assms] by (simp add: tx_types_def)

theorem deposit_creation_succeeds_witness:
  "\<exists>m c'. create_txhandlers demo_creator Tx_AllNeededForDeposit demo_context tx_handler_cache_new (from_context demo_database demo_context) =
       Inr (m, tx_handler_cache_new, c') \<and>
     Tx_Disprove \<in> fst ` set m \<and> Tx_OperatorChallengeNack 1 \<in> fst ` set m \<and> Tx_AssertTimeout 35 \<in> fst ` set m"
proof -
  obtain k where k: "bridge_circuit_constant (is_dev_mode demo_creator) REGTEST_PARAMSET = Inr k" using demo_sides(1) by blast
  have "deposit_builds (env demo_creator) REGTEST_PARAMSET demo_deposit" using demo_builds by (simp add: demo_creator_def)
  from deposit_creation_succeeds [OF this demo_stored k _ demo_sides(2-5) demo_context_def]
  show ?thesis by (auto simp: deposit_transaction_types_def get_num_watchtowers_def get_num_verifiers_def demo_deposit_def NUMBER_OF_ASSERT_TXS_def)
qed

text \<open>
  C33. Every transaction that \<open>create_txhandlers\<close> returns is typed: it is stored under its own type, its
  inputs spend outputs of well-formed transactions or the funding outpoints with spend info that passes
  the debug check, the key of the path that an input spends is the key of the party that
  \<open>get_deposit_sig_owner\<close> lets sign it, and the sequence number satisfies the timelock of the script; the
  caches stay as good as they were. This needs the laws of the taproot builder, the 36 assert hashes in
  every stored setup, and fewer than \<open>2^30\<close> kickoffs and watchtowers, so that output numbers do not wrap.
\<close>

theorem created_transactions_typed:
  fixes A :: creator_api and K :: party_keys
  assumes "taproot_laws (taproot (env A))" "bitvm_sizes (sizes A)"
    and "num_kickoffs_per_round p < 2 ^ 30" "length (key_watchtowers K) < 2 ^ 30"
    and "context_ok (env A) K F ctx" "tx_cache_ok (env A) p K F cache" "db_cache_ok p F c"
    and "create_txhandlers A ty ctx cache c = Inr (m, cache', c')"
  shows "(\<forall>(ty, h) \<in> set m. th_type h = ty \<and> handler_typed (env A) K F h) \<and>
    tx_cache_ok (env A) p K F cache' \<and> db_cache_ok p F c'"
  using assms by (rule create_txhandlers_typed)

theorem created_transactions_typed_witness:
  "\<exists>m c' K h. create_txhandlers demo_creator Tx_AllNeededForDeposit demo_context tx_handler_cache_new (from_context demo_database demo_context) =
       Inr (m, tx_handler_cache_new, c') \<and> (Tx_Kickoff, h) \<in> set m \<and> th_type h = Tx_Kickoff \<and> handler_typed env_spec K UNIV h"
proof -
  obtain k where k: "bridge_circuit_constant (is_dev_mode demo_creator) REGTEST_PARAMSET = Inr k" using demo_sides(1) by blast
  have V: "env demo_creator = env_spec" "sizes demo_creator = demo_sizes" by (simp_all add: demo_creator_def)
  have "deposit_builds (env demo_creator) REGTEST_PARAMSET demo_deposit" using demo_builds by (simp add: V)
  from deposit_creation_total [OF this demo_stored k _ demo_sides(2-5) demo_context_def] obtain m c' where
    m: "create_txhandlers demo_creator Tx_AllNeededForDeposit demo_context tx_handler_cache_new (from_context demo_database demo_context) =
       Inr (m, tx_handler_cache_new, c')" "tx_types m = deposit_transaction_types 10 (get_num_watchtowers demo_deposit)"
    by (auto simp: REGTEST_PARAMSET_def)
  obtain nofn where nofn: "get_nofn_xonly_pk env_spec demo_deposit = Inr (nofn, demo_deposit\<lparr>nofn_xonly_pk := Some nofn\<rparr>)"
    using demo_nofn by blast
  define K where "K = \<lparr>key_nofn = nofn, key_operator = replicate 32 8, key_watchtowers = get_watchtowers env_spec demo_deposit\<rparr>"
  have "context_ok (env demo_creator) K UNIV demo_context"
    by (simp add: context_ok_def demo_context_def new_context_for_kickoff_def K_def V nofn)
  moreover have "tx_cache_ok (env demo_creator) REGTEST_PARAMSET K UNIV tx_handler_cache_new"
    by (simp add: tx_cache_ok_def tx_handler_cache_new_def)
  moreover have "db_cache_ok REGTEST_PARAMSET UNIV (from_context demo_database demo_context)"
    by (simp add: db_cache_ok_def database_ok_def from_context_def demo_context_def new_context_for_kickoff_def new_for_deposit_def new_cache_def
      demo_database_def NUMBER_OF_ASSERT_TXS_def)
  moreover have "bitvm_sizes (sizes demo_creator)" "taproot_laws (taproot (env demo_creator))"
    by (simp_all add: V bitvm_sizes_def demo_sizes_def taproot_spec_laws)
  moreover have "num_kickoffs_per_round REGTEST_PARAMSET < 2 ^ 30" "length (key_watchtowers K) < 2 ^ 30"
    using demo_sides(2) by (simp_all add: REGTEST_PARAMSET_def K_def)
  ultimately have all: "\<forall>(ty, h) \<in> set m. th_type h = ty \<and> handler_typed env_spec K UNIV h"
    using created_transactions_typed [OF _ _ _ _ _ _ _ m(1)] by (auto simp: V)
  have "Tx_Kickoff \<in> tx_types m" unfolding m(2) by (simp add: deposit_transaction_types_def)
  then obtain h where "(Tx_Kickoff, h) \<in> set m" by (auto simp: tx_types_def)
  with all m(1) show ?thesis by blast
qed

end
