(* ===== verification/Spec2Isabelle.thy ===== *)
theory Spec2Isabelle
  imports Creation_Succeeds
begin

text \<open>
  A verification library for the circuits and protocol state machines of the repository.
\<close>

end
